theory Spec2Isabelle
  imports Complex_Main "HOL-Library.AList"
begin

section \<open>ForesightManager: data model\<close>

text \<open>
  A shallow embedding of \<^verbatim>\<open>packages/js.foresight/src/Manager/ForesightManager.ts\<close>.

  Conventions of the embedding:
  \<^item> A DOM element is an opaque handle (\<open>elem\<close>); two handles are the same element
    exactly when they are equal, as for the keys of the JavaScript Map.
  \<^item> Viewport coordinates are \<open>real\<close>. The four numeric settings and loop counters are
    \<open>int\<close>: the model covers integer-valued JavaScript numbers; NaN, the infinities
    and fractional settings are outside it.
  \<^item> The registry (a JavaScript Map, which iterates in insertion order) is an
    association list: \<open>AList.update\<close> overwrites in place or appends, as
    \<^verbatim>\<open>Map.set\<close> does, \<open>AList.delete\<close> is \<^verbatim>\<open>Map.delete\<close>, \<open>map_of\<close> is
    \<^verbatim>\<open>Map.get\<close>.
  \<^item> Consumer callbacks, the global hook and event subscribers are opaque: a call is
    recorded in the \<open>trace\<close> of the state, and the call returns or throws. A throw
    of a subscriber is caught by \<^verbatim>\<open>emit\<close>. A throw of a callback or of the hook is
    caught nowhere in the manager: it ends the handler that made the call, and the
    manager keeps the state it had at the throw (\<open>outcome\<close>). None of the three
    re-enters the manager while it runs.
  \<^item> \<^verbatim>\<open>Date.now()\<close> timestamps of events are left out.
  \<^item> The helper modules imported by the manager (geometry, prediction, index
    resolution, registration conditions) and the constants are not part of the
    sources at hand. They are the fields of a record \<open>env\<close> that every operation
    takes as a parameter, except \<^verbatim>\<open>shouldUpdateSetting\<close>, \<^verbatim>\<open>clampNumber\<close> and the
    history push of \<^verbatim>\<open>predictNextMousePosition\<close>, which are modelled below. The same
    record says what the consumer's callbacks and hook do when they are called.
\<close>

type_synonym elem = nat

record point =
  xc :: real
  yc :: real

record rect =
  rtop :: real
  rleft :: real
  rright :: real
  rbottom :: real

text \<open>A hit-slop given by the consumer: \<^verbatim>\<open>number | Rect\<close>.\<close>

datatype hitSlopInput = HitSlopNumber real | HitSlopRect rect

datatype mouseSubType = hover | trajectory

datatype tabSubType = forwards | reverse

datatype ScrollDirection = down | left | right | up | none

datatype HitType = Mouse mouseSubType | Tab tabSubType | Scroll ScrollDirection

record CallbackHits =
  mouse_hover :: nat
  mouse_trajectory :: nat
  tab_forwards :: nat
  tab_reverse :: nat
  scroll_down :: nat
  scroll_left :: nat
  scroll_right :: nat
  scroll_up :: nat
  total :: nat

definition zeroHits :: CallbackHits where
  "zeroHits = \<lparr>mouse_hover = 0, mouse_trajectory = 0, tab_forwards = 0, tab_reverse = 0,
     scroll_down = 0, scroll_left = 0, scroll_right = 0, scroll_up = 0, total = 0\<rparr>"

record ElementBounds =
  originalRect :: "rect option"
  expandedRect :: rect
  hitSlop :: rect

record TrajectoryHitData =
  isTrajectoryHit :: bool
  trajectoryHitTime :: int
  trajectoryHitExpirationTimeoutId :: "nat option"

text \<open>\<open>callback\<close> is the identity of the consumer's callback function.\<close>

record ForesightElementData =
  element :: elem
  callback :: nat
  callbackHits :: CallbackHits
  elementBounds :: ElementBounds
  isHovering :: bool
  trajectoryHitData :: TrajectoryHitData
  name :: string
  isIntersectingWithViewport :: bool

text \<open>\<open>onAnyCallbackFired\<close> is the identity of the global hook function.\<close>

record ForesightManagerSettings =
  debug :: bool
  enableMousePrediction :: bool
  enableScrollPrediction :: bool
  positionHistorySize :: int
  trajectoryPredictionTime :: int
  scrollMargin :: int
  defaultHitSlop :: rect
  enableTabPrediction :: bool
  tabOffset :: int
  onAnyCallbackFired :: nat

record TrajectoryPositions =
  positions :: "point list"
  currentPoint :: point
  predictedPoint :: point

datatype ElementUnregisteredReason = callbackHit | disconnected | apiCall

datatype UpdatedProp = bounds | visibility

datatype ForesightEventType =
  elementRegistered | elementUnregistered | elementDataUpdated | callbackFired
  | mouseTrajectoryUpdate | scrollTrajectoryUpdate | managerSettingsChanged

datatype ForesightEvent =
  ElementRegisteredEvent ForesightElementData
  | ElementUnregisteredEvent ForesightElementData ElementUnregisteredReason
  | ElementDataUpdatedEvent ForesightElementData UpdatedProp
  | CallbackFiredEvent ForesightElementData HitType
  | MouseTrajectoryUpdateEvent bool TrajectoryPositions
  | ScrollTrajectoryUpdateEvent point point
  | ManagerSettingsChangedEvent ForesightManagerSettings

fun event_type :: "ForesightEvent \<Rightarrow> ForesightEventType" where
  "event_type (ElementRegisteredEvent _) = elementRegistered"
| "event_type (ElementUnregisteredEvent _ _) = elementUnregistered"
| "event_type (ElementDataUpdatedEvent _ _) = elementDataUpdated"
| "event_type (CallbackFiredEvent _ _) = callbackFired"
| "event_type (MouseTrajectoryUpdateEvent _ _) = mouseTrajectoryUpdate"
| "event_type (ScrollTrajectoryUpdateEvent _ _) = scrollTrajectoryUpdate"
| "event_type (ManagerSettingsChangedEvent _) = managerSettingsChanged"

text \<open>
  A subscriber of the event bus: its identity and, for each event, whether the
  function throws when called with it.
\<close>

record listener =
  listener_id :: nat
  throws :: "ForesightEvent \<Rightarrow> bool"

text \<open>
  What the manager does to the outside, in order. The last two constructors are
  ghost entries: they record that the pure helpers \<^verbatim>\<open>getScrollDirection\<close> and
  \<^verbatim>\<open>predictNextScrollPosition\<close> were evaluated.
\<close>

datatype effect =
  CallbackInvoked elem nat
  | AnyCallbackFiredInvoked nat elem
  | ListenerInvoked nat ForesightEvent
  | ConsoleError nat ForesightEventType
  | ClearTimeout nat
  | ScrollDirectionComputed rect rect
  | ScrollPointComputed point ScrollDirection int

datatype domEventType = mousemove | keydown | focusin

record KeyboardEvent =
  key :: string
  shiftKey :: bool

text \<open>
  The manager's fields, followed by the part of the environment that it changes:
  the listeners attached to \<^verbatim>\<open>document\<close> (each with the id of the AbortController
  whose signal it was added with, if any), the supply of fresh controller ids, and
  the trace. \<open>positionObserver = Some ts\<close> is an observer watching the targets \<open>ts\<close>,
  \<open>None\<close> is \<^verbatim>\<open>null\<close>; \<open>domObserver\<close> is true when a connected MutationObserver
  exists.
\<close>

record manager =
  elements :: "(elem \<times> ForesightElementData) list"
  isSetup :: bool
  globalCallbackHits :: CallbackHits
  globalSettings :: ForesightManagerSettings
  trajectoryPositions :: TrajectoryPositions
  tabbableElementsCache :: "elem list"
  lastFocusedIndex :: "int option"
  predictedScrollPoint :: "point option"
  scrollDirection :: "ScrollDirection option"
  domObserver :: bool
  positionObserver :: "elem list option"
  lastKeyDown :: "KeyboardEvent option"
  globalListenersController :: "nat option"
  eventListeners :: "(ForesightEventType \<times> listener list) list"
  documentListeners :: "(domEventType \<times> nat option) list"
  nextControllerId :: nat
  trace :: "effect list"

text \<open>
  The surroundings of the manager at one moment. First the imports that are not
  among the sources: the constants of \<^verbatim>\<open>./constants\<close>, the helper functions, and the
  DOM queries the manager makes. Then the consumer's functions:
  \<open>callbackThrows c e\<close> says whether the callback \<open>c\<close>, called for the element \<open>e\<close>,
  throws, and \<open>hookThrows f e\<close> whether the hook \<open>f\<close> does when it is called for
  \<open>e\<close>. Within one handler no element is fired twice, so this fixes every call.
\<close>

record env =
  DEFAULT_ENABLE_MOUSE_PREDICTION :: bool
  DEFAULT_ENABLE_SCROLL_PREDICTION :: bool
  DEFAULT_ENABLE_TAB_PREDICTION :: bool
  DEFAULT_HITSLOP :: real
  DEFAULT_POSITION_HISTORY_SIZE :: int
  DEFAULT_SCROLL_MARGIN :: int
  DEFAULT_TAB_OFFSET :: int
  DEFAULT_TRAJECTORY_PREDICTION_TIME :: int
  MAX_POSITION_HISTORY_SIZE :: int
  MAX_SCROLL_MARGIN :: int
  MAX_TAB_OFFSET :: int
  MAX_TRAJECTORY_PREDICTION_TIME :: int
  MIN_POSITION_HISTORY_SIZE :: int
  MIN_SCROLL_MARGIN :: int
  MIN_TAB_OFFSET :: int
  MIN_TRAJECTORY_PREDICTION_TIME :: int
  evaluateRegistrationConditions :: "bool \<times> bool \<times> bool"
  hasWindowAndDocument :: bool
  elementId :: "elem \<Rightarrow> string"
  getBoundingClientRect :: "elem \<Rightarrow> rect"
  isConnected :: "elem \<Rightarrow> bool"
  tabbable :: "elem list"
  normalizeHitSlop :: "hitSlopInput \<Rightarrow> rect"
  areRectsEqual :: "rect \<Rightarrow> rect \<Rightarrow> bool"
  getExpandedRect :: "rect \<Rightarrow> rect \<Rightarrow> rect"
  isPointInRectangle :: "point \<Rightarrow> rect \<Rightarrow> bool"
  lineSegmentIntersectsRect :: "point \<Rightarrow> point \<Rightarrow> rect \<Rightarrow> bool"
  extrapolate :: "point \<Rightarrow> point list \<Rightarrow> int \<Rightarrow> int \<Rightarrow> point"
  getFocusedElementIndex :: "bool \<Rightarrow> int option \<Rightarrow> elem list \<Rightarrow> elem \<Rightarrow> int"
  getScrollDirection :: "rect \<Rightarrow> rect \<Rightarrow> ScrollDirection"
  predictNextScrollPosition :: "point \<Rightarrow> ScrollDirection \<Rightarrow> int \<Rightarrow> point"
  callbackThrows :: "nat \<Rightarrow> elem \<Rightarrow> bool"
  hookThrows :: "nat \<Rightarrow> elem \<Rightarrow> bool"

text \<open>
  How a handler ends: it returns, or an exception of a callback or of the hook leaves
  it. Either way the manager is left in a state.
\<close>

datatype outcome = Returned manager | Threw manager

fun state_of :: "outcome \<Rightarrow> manager" where
  "state_of (Returned s) = s"
| "state_of (Threw s) = s"

fun returned :: "outcome \<Rightarrow> bool" where
  "returned (Returned s) = True"
| "returned (Threw s) = False"

text \<open>Sequencing: what follows a statement runs only when the statement returns.\<close>

fun andThen :: "outcome \<Rightarrow> (manager \<Rightarrow> outcome) \<Rightarrow> outcome" where
  "andThen (Returned s) f = f s"
| "andThen (Threw s) f = Threw s"

text \<open>
  \<^verbatim>\<open>Array.forEach\<close> and \<^verbatim>\<open>for \<dots> of\<close> over an array, with a body that may throw: a
  throw ends the loop.
\<close>

fun forEach :: "(manager \<Rightarrow> 'a \<Rightarrow> outcome) \<Rightarrow> manager \<Rightarrow> 'a list \<Rightarrow> outcome" where
  "forEach f s [] = Returned s"
| "forEach f s (x # xs) = andThen (f s x) (\<lambda>s'. forEach f s' xs)"

definition initialManager :: "env \<Rightarrow> manager" where
  "initialManager E =
    \<lparr>elements = [],
     isSetup = False,
     globalCallbackHits = zeroHits,
     globalSettings =
       \<lparr>debug = False,
        enableMousePrediction = DEFAULT_ENABLE_MOUSE_PREDICTION E,
        enableScrollPrediction = DEFAULT_ENABLE_SCROLL_PREDICTION E,
        positionHistorySize = DEFAULT_POSITION_HISTORY_SIZE E,
        trajectoryPredictionTime = DEFAULT_TRAJECTORY_PREDICTION_TIME E,
        scrollMargin = DEFAULT_SCROLL_MARGIN E,
        defaultHitSlop = \<lparr>rtop = DEFAULT_HITSLOP E, rleft = DEFAULT_HITSLOP E,
          rright = DEFAULT_HITSLOP E, rbottom = DEFAULT_HITSLOP E\<rparr>,
        enableTabPrediction = DEFAULT_ENABLE_TAB_PREDICTION E,
        tabOffset = DEFAULT_TAB_OFFSET E,
        onAnyCallbackFired = 0\<rparr>,
     trajectoryPositions =
       \<lparr>positions = [], currentPoint = \<lparr>xc = 0, yc = 0\<rparr>, predictedPoint = \<lparr>xc = 0, yc = 0\<rparr>\<rparr>,
     tabbableElementsCache = [],
     lastFocusedIndex = None,
     predictedScrollPoint = None,
     scrollDirection = None,
     domObserver = False,
     positionObserver = None,
     lastKeyDown = None,
     globalListenersController = None,
     eventListeners = [],
     documentListeners = [],
     nextControllerId = 0,
     trace = []\<rparr>"

section \<open>The event bus\<close>

definition addEventListener ::
  "manager \<Rightarrow> ForesightEventType \<Rightarrow> listener \<Rightarrow> bool \<Rightarrow> manager" where
  "addEventListener s eventType l signalAborted =
    (if signalAborted then s
     else
       (let ls = (case map_of (eventListeners s) eventType of None \<Rightarrow> [] | Some ls \<Rightarrow> ls)
        in s\<lparr>eventListeners := AList.update eventType (ls @ [l]) (eventListeners s)\<rparr>))"

fun remove_first :: "nat \<Rightarrow> listener list \<Rightarrow> listener list" where
  "remove_first i [] = []"
| "remove_first i (l # ls) = (if listener_id l = i then ls else l # remove_first i ls)"

definition removeEventListener :: "manager \<Rightarrow> ForesightEventType \<Rightarrow> listener \<Rightarrow> manager" where
  "removeEventListener s eventType l =
    (case map_of (eventListeners s) eventType of
       None \<Rightarrow> s
     | Some ls \<Rightarrow>
         s\<lparr>eventListeners :=
             AList.update eventType (remove_first (listener_id l) ls) (eventListeners s)\<rparr>)"

datatype exn = Exn

text \<open>Calling a subscriber: it returns or it throws.\<close>

definition call_listener :: "listener \<Rightarrow> ForesightEvent \<Rightarrow> exn + unit" where
  "call_listener l ev = (if throws l ev then Inl Exn else Inr ())"

text \<open>
  The body of the \<^verbatim>\<open>forEach\<close> in \<^verbatim>\<open>emit\<close>: the call inside \<^verbatim>\<open>try\<close>, and
  \<^verbatim>\<open>console.error\<close> in the \<^verbatim>\<open>catch\<close>.
\<close>

definition notify :: "ForesightEvent \<Rightarrow> manager \<Rightarrow> listener \<Rightarrow> manager" where
  "notify ev s l =
    (let s1 = s\<lparr>trace := trace s @ [ListenerInvoked (listener_id l) ev]\<rparr>
     in case call_listener l ev of
          Inl _ \<Rightarrow> s1\<lparr>trace := trace s1 @ [ConsoleError (listener_id l) (event_type ev)]\<rparr>
        | Inr _ \<Rightarrow> s1)"

definition emit :: "manager \<Rightarrow> ForesightEvent \<Rightarrow> manager" where
  "emit s ev =
    (case map_of (eventListeners s) (event_type ev) of
       None \<Rightarrow> s
     | Some ls \<Rightarrow> foldl (notify ev) s ls)"

section \<open>Global listeners\<close>

text \<open>
  \<^verbatim>\<open>document.addEventListener\<close>: a listener whose type and callback are already
  attached is not added again. Every DOM event type has one handler of the manager
  here, so the type identifies the callback. \<open>abort c\<close> is what the DOM does when
  the controller \<open>c\<close> aborts: the listeners added with its signal are removed.
\<close>

definition document_addEventListener ::
  "domEventType \<Rightarrow> nat option \<Rightarrow> (domEventType \<times> nat option) list
     \<Rightarrow> (domEventType \<times> nat option) list" where
  "document_addEventListener ty signal ls =
    (if ty \<in> fst ` set ls then ls else ls @ [(ty, signal)])"

definition abort :: "nat \<Rightarrow> (domEventType \<times> nat option) list \<Rightarrow> (domEventType \<times> nat option) list" where
  "abort c ls = filter (\<lambda>l. snd l \<noteq> Some c) ls"

definition initializeGlobalListeners :: "env \<Rightarrow> manager \<Rightarrow> manager" where
  "initializeGlobalListeners E s =
    (if isSetup s then s
     else if \<not> hasWindowAndDocument E then s
     else
       (let c = nextControllerId s;
            signal = Some c
        in s\<lparr>globalListenersController := Some c,
             nextControllerId := Suc c,
             documentListeners :=
               document_addEventListener focusin signal
                 (document_addEventListener keydown signal
                   (document_addEventListener mousemove None (documentListeners s))),
             domObserver := True,
             positionObserver := Some [],
             isSetup := True\<rparr>))"

definition removeGlobalListeners :: "manager \<Rightarrow> manager" where
  "removeGlobalListeners s =
    s\<lparr>isSetup := False,
      documentListeners :=
        (case globalListenersController s of
           None \<Rightarrow> documentListeners s
         | Some c \<Rightarrow> abort c (documentListeners s)),
      globalListenersController := None,
      domObserver := False,
      positionObserver := None\<rparr>"

section \<open>Registration\<close>

text \<open>
  The options of \<^verbatim>\<open>register\<close>. The type \<^verbatim>\<open>ForesightRegisterOptions\<close> is declared in
  \<^verbatim>\<open>../types/types\<close>, which is not among the sources; \<^verbatim>\<open>register\<close> destructures
  \<open>element\<close>, \<open>callback\<close>, \<open>hitSlop\<close> and \<open>name\<close>. The documentation of version 2.0
  (\<^verbatim>\<open>getting_started/config.md\<close>) lists a fifth, optional parameter
  \<open>unregisterOnCallback\<close>; it is a field here so that a caller can pass it.
\<close>

record ForesightRegisterOptions =
  opt_element :: elem
  opt_callback :: nat
  opt_hitSlop :: "hitSlopInput option"
  opt_name :: "string option"
  opt_unregisterOnCallback :: "bool option"

record ForesightRegisterResult =
  isTouchDevice :: bool
  isLimitedConnection :: bool
  isRegistered :: bool

text \<open>JavaScript truthiness of a hit-slop: the number 0 is falsy, an object is truthy.\<close>

fun truthy :: "hitSlopInput \<Rightarrow> bool" where
  "truthy (HitSlopNumber n) = (n \<noteq> 0)"
| "truthy (HitSlopRect _) = True"

definition newElementData :: "env \<Rightarrow> manager \<Rightarrow> ForesightRegisterOptions \<Rightarrow> ForesightElementData" where
  "newElementData E s opts =
    \<lparr>element = opt_element opts,
     callback = opt_callback opts,
     callbackHits = zeroHits,
     elementBounds =
       \<lparr>originalRect = None,
        expandedRect = \<lparr>rtop = 0, rleft = 0, rright = 0, rbottom = 0\<rparr>,
        hitSlop =
          (case opt_hitSlop opts of
             Some h \<Rightarrow> if truthy h then normalizeHitSlop E h else defaultHitSlop (globalSettings s)
           | None \<Rightarrow> defaultHitSlop (globalSettings s))\<rparr>,
     isHovering = False,
     trajectoryHitData =
       \<lparr>isTrajectoryHit = False, trajectoryHitTime = 0,
        trajectoryHitExpirationTimeoutId = None\<rparr>,
     name = (case opt_name opts of Some n \<Rightarrow> n | None \<Rightarrow> elementId E (opt_element opts)),
     isIntersectingWithViewport = True\<rparr>"

definition observe :: "elem \<Rightarrow> elem list option \<Rightarrow> elem list option" where
  "observe e obs = map_option (\<lambda>ts. if e \<in> set ts then ts else ts @ [e]) obs"

definition unobserve :: "elem \<Rightarrow> elem list option \<Rightarrow> elem list option" where
  "unobserve e obs = map_option (removeAll e) obs"

definition register :: "env \<Rightarrow> manager \<Rightarrow> ForesightRegisterOptions \<Rightarrow> manager \<times> ForesightRegisterResult" where
  "register E s opts =
    (case evaluateRegistrationConditions E of
       (shouldRegister, touch, limited) \<Rightarrow>
         if \<not> shouldRegister then
           (s, \<lparr>isTouchDevice = touch, isLimitedConnection = limited, isRegistered = False\<rparr>)
         else
           (let s1 = (if \<not> isSetup s then initializeGlobalListeners E s else s);
                elementData = newElementData E s1 opts;
                s2 = s1\<lparr>elements := AList.update (opt_element opts) elementData (elements s1)\<rparr>;
                s3 = s2\<lparr>positionObserver := observe (opt_element opts) (positionObserver s2)\<rparr>;
                s4 = emit s3 (ElementRegisteredEvent elementData)
            in (s4, \<lparr>isTouchDevice = touch, isLimitedConnection = limited, isRegistered = True\<rparr>)))"

definition clearPendingTimeout :: "ForesightElementData \<Rightarrow> manager \<Rightarrow> manager" where
  "clearPendingTimeout d s =
    (case trajectoryHitExpirationTimeoutId (trajectoryHitData d) of
       None \<Rightarrow> s
     | Some t \<Rightarrow> if t = 0 then s else s\<lparr>trace := trace s @ [ClearTimeout t]\<rparr>)"

definition unregister :: "manager \<Rightarrow> elem \<Rightarrow> ElementUnregisteredReason \<Rightarrow> manager" where
  "unregister s e unregisterReason =
    (case map_of (elements s) e of
       None \<Rightarrow> s
     | Some foresightElementData \<Rightarrow>
         (let s1 = emit s (ElementUnregisteredEvent foresightElementData unregisterReason);
              s2 = clearPendingTimeout foresightElementData s1;
              s3 = s2\<lparr>positionObserver := unobserve e (positionObserver s2)\<rparr>;
              s4 = s3\<lparr>elements := AList.delete e (elements s3)\<rparr>
          in if length (elements s4) = 0 \<and> isSetup s4 then removeGlobalListeners s4 else s4))"

section \<open>Firing a callback\<close>

text \<open>
  The increments of \<^verbatim>\<open>updateHitCounters\<close> on one counter object. The manager never
  fires with the scroll direction \<^verbatim>\<open>"none"\<close>, which has no counter of its own.
\<close>

fun bump :: "HitType \<Rightarrow> CallbackHits \<Rightarrow> CallbackHits" where
  "bump (Mouse hover) h = h\<lparr>mouse_hover := Suc (mouse_hover h), total := Suc (total h)\<rparr>"
| "bump (Mouse trajectory) h = h\<lparr>mouse_trajectory := Suc (mouse_trajectory h), total := Suc (total h)\<rparr>"
| "bump (Tab forwards) h = h\<lparr>tab_forwards := Suc (tab_forwards h), total := Suc (total h)\<rparr>"
| "bump (Tab reverse) h = h\<lparr>tab_reverse := Suc (tab_reverse h), total := Suc (total h)\<rparr>"
| "bump (Scroll down) h = h\<lparr>scroll_down := Suc (scroll_down h), total := Suc (total h)\<rparr>"
| "bump (Scroll left) h = h\<lparr>scroll_left := Suc (scroll_left h), total := Suc (total h)\<rparr>"
| "bump (Scroll right) h = h\<lparr>scroll_right := Suc (scroll_right h), total := Suc (total h)\<rparr>"
| "bump (Scroll up) h = h\<lparr>scroll_up := Suc (scroll_up h), total := Suc (total h)\<rparr>"
| "bump (Scroll none) h = h\<lparr>total := Suc (total h)\<rparr>"

text \<open>
  \<^verbatim>\<open>updateHitCounters\<close> increments the counters of the object it is given. That
  \<^verbatim>\<open>callbackHits\<close> object is the one of the registry's record of the element: either
  the record itself was passed, or a copy made by object spread, which shares the
  nested \<^verbatim>\<open>callbackHits\<close>. So the registry's record is updated as well.
\<close>

definition updateHitCounters ::
  "manager \<Rightarrow> ForesightElementData \<Rightarrow> HitType \<Rightarrow> manager \<times> ForesightElementData" where
  "updateHitCounters s elementData hitType =
    (let hits = bump hitType (callbackHits elementData)
     in (s\<lparr>elements := AList.map_entry (element elementData) (\<lambda>d. d\<lparr>callbackHits := hits\<rparr>) (elements s),
           globalCallbackHits := bump hitType (globalCallbackHits s)\<rparr>,
         elementData\<lparr>callbackHits := hits\<rparr>))"

text \<open>
  \<^verbatim>\<open>callCallback\<close> has no \<^verbatim>\<open>try\<close>: when the callback throws, the hook, the event and
  \<^verbatim>\<open>unregister\<close> are skipped; when the hook throws, the event and \<^verbatim>\<open>unregister\<close>
  are.
\<close>

definition callCallback ::
  "env \<Rightarrow> manager \<Rightarrow> ForesightElementData option \<Rightarrow> HitType \<Rightarrow> outcome" where
  "callCallback E s elementData hitType =
    (case elementData of
       None \<Rightarrow> Returned s
     | Some d0 \<Rightarrow>
         (case updateHitCounters s d0 hitType of
            (s1, d) \<Rightarrow>
              (let s2 = s1\<lparr>trace := trace s1 @ [CallbackInvoked (element d) (callback d)]\<rparr>
               in if callbackThrows E (callback d) (element d) then Threw s2
                  else
                    (let s3 = s2\<lparr>trace := trace s2 @
                                [AnyCallbackFiredInvoked (onAnyCallbackFired (globalSettings s2))
                                   (element d)]\<rparr>
                     in if hookThrows E (onAnyCallbackFired (globalSettings s2)) (element d)
                        then Threw s3
                        else
                          (let s4 = emit s3 (CallbackFiredEvent d hitType)
                           in Returned (unregister s4 (element d) callbackHit))))))"

section \<open>Settings\<close>

text \<open>
  Modelled from the spec: \<^verbatim>\<open>shouldUpdateSetting\<close> of
  \<^verbatim>\<open>./helpers/shouldUpdateSetting\<close> is not among the sources. The manager calls it
  with the incoming value and the stored value only. The spec calls the writes
  equality-gated: an update that is absent, or whose value equals the stored value,
  is not applied.
\<close>

definition shouldUpdateSetting :: "'a option \<Rightarrow> 'a \<Rightarrow> bool" where
  "shouldUpdateSetting newValue currentValue =
    (case newValue of None \<Rightarrow> False | Some v \<Rightarrow> v \<noteq> currentValue)"

text \<open>
  Modelled from the spec: \<^verbatim>\<open>clampNumber\<close> of \<^verbatim>\<open>./helpers/clampNumber\<close> is not among
  the sources. The spec: a value outside the range yields the nearest bound, a value
  inside is kept. The manager passes the name of the setting as a fourth argument,
  which has no part in the result and is left out.
\<close>

definition clampNumber :: "int \<Rightarrow> int \<Rightarrow> int \<Rightarrow> int" where
  "clampNumber n lowerBound upperBound =
    (if n < lowerBound then lowerBound else if upperBound < n then upperBound else n)"

datatype NumericSettingKeys =
  Key_positionHistorySize | Key_trajectoryPredictionTime | Key_scrollMargin | Key_tabOffset

datatype ManagerBooleanSettingKeys =
  Key_enableMousePrediction | Key_enableScrollPrediction | Key_enableTabPrediction

fun getNumeric :: "ForesightManagerSettings \<Rightarrow> NumericSettingKeys \<Rightarrow> int" where
  "getNumeric g Key_positionHistorySize = positionHistorySize g"
| "getNumeric g Key_trajectoryPredictionTime = trajectoryPredictionTime g"
| "getNumeric g Key_scrollMargin = scrollMargin g"
| "getNumeric g Key_tabOffset = tabOffset g"

fun setNumeric :: "NumericSettingKeys \<Rightarrow> int \<Rightarrow> ForesightManagerSettings \<Rightarrow> ForesightManagerSettings" where
  "setNumeric Key_positionHistorySize v g = g\<lparr>positionHistorySize := v\<rparr>"
| "setNumeric Key_trajectoryPredictionTime v g = g\<lparr>trajectoryPredictionTime := v\<rparr>"
| "setNumeric Key_scrollMargin v g = g\<lparr>scrollMargin := v\<rparr>"
| "setNumeric Key_tabOffset v g = g\<lparr>tabOffset := v\<rparr>"

fun getBoolean :: "ForesightManagerSettings \<Rightarrow> ManagerBooleanSettingKeys \<Rightarrow> bool" where
  "getBoolean g Key_enableMousePrediction = enableMousePrediction g"
| "getBoolean g Key_enableScrollPrediction = enableScrollPrediction g"
| "getBoolean g Key_enableTabPrediction = enableTabPrediction g"

fun setBoolean :: "ManagerBooleanSettingKeys \<Rightarrow> bool \<Rightarrow> ForesightManagerSettings \<Rightarrow> ForesightManagerSettings" where
  "setBoolean Key_enableMousePrediction v g = g\<lparr>enableMousePrediction := v\<rparr>"
| "setBoolean Key_enableScrollPrediction v g = g\<lparr>enableScrollPrediction := v\<rparr>"
| "setBoolean Key_enableTabPrediction v g = g\<lparr>enableTabPrediction := v\<rparr>"

text \<open>Both update functions return whether they wrote, and the new state.\<close>

definition updateNumericSettings ::
  "manager \<Rightarrow> int option \<Rightarrow> NumericSettingKeys \<Rightarrow> int \<Rightarrow> int \<Rightarrow> bool \<times> manager" where
  "updateNumericSettings s newValue setting lo hi =
    (if \<not> shouldUpdateSetting newValue (getNumeric (globalSettings s) setting) then (False, s)
     else
       (case newValue of
          None \<Rightarrow> (False, s)
        | Some v \<Rightarrow>
            (True, s\<lparr>globalSettings := setNumeric setting (clampNumber v lo hi) (globalSettings s)\<rparr>)))"

definition updateBooleanSetting ::
  "manager \<Rightarrow> bool option \<Rightarrow> ManagerBooleanSettingKeys \<Rightarrow> bool \<times> manager" where
  "updateBooleanSetting s newValue setting =
    (if \<not> shouldUpdateSetting newValue (getBoolean (globalSettings s) setting) then (False, s)
     else
       (case newValue of
          None \<Rightarrow> (False, s)
        | Some v \<Rightarrow> (True, s\<lparr>globalSettings := setBoolean setting v (globalSettings s)\<rparr>)))"

definition setBounds :: "rect \<Rightarrow> rect \<Rightarrow> ForesightElementData \<Rightarrow> ForesightElementData" where
  "setBounds newOriginalRect newExpandedRect d =
    d\<lparr>elementBounds := (elementBounds d)\<lparr>originalRect := Some newOriginalRect,
         expandedRect := newExpandedRect\<rparr>\<rparr>"

definition forceUpdateElementBounds :: "env \<Rightarrow> manager \<Rightarrow> ForesightElementData \<Rightarrow> manager" where
  "forceUpdateElementBounds E s elementData =
    (let newOriginalRect = getBoundingClientRect E (element elementData);
         expanded = getExpandedRect E newOriginalRect (hitSlop (elementBounds elementData))
     in if \<not> areRectsEqual E expanded (expandedRect (elementBounds elementData)) then
          (let updatedElementData = setBounds newOriginalRect expanded elementData;
               s1 = s\<lparr>elements := AList.update (element elementData) updatedElementData (elements s)\<rparr>
           in emit s1 (ElementDataUpdatedEvent updatedElementData bounds))
        else s)"

text \<open>
  \<^verbatim>\<open>Map.forEach\<close> visits the entries in insertion order and skips an entry that
  was deleted before its turn; the body sees the record stored at that time.
  \<open>forEach_elements\<close> walks the keys present at the start and looks each one up in
  the current registry.
\<close>

fun forEach_elements ::
  "(manager \<Rightarrow> ForesightElementData \<Rightarrow> manager) \<Rightarrow> elem list \<Rightarrow> manager \<Rightarrow> manager" where
  "forEach_elements f [] s = s"
| "forEach_elements f (k # ks) s =
    forEach_elements f ks (case map_of (elements s) k of None \<Rightarrow> s | Some d \<Rightarrow> f s d)"

text \<open>The same walk with a body that may throw: a throw ends it.\<close>

fun forEach_elements_throwing ::
  "(manager \<Rightarrow> ForesightElementData \<Rightarrow> outcome) \<Rightarrow> elem list \<Rightarrow> manager \<Rightarrow> outcome" where
  "forEach_elements_throwing f [] s = Returned s"
| "forEach_elements_throwing f (k # ks) s =
    (case map_of (elements s) k of
       None \<Rightarrow> forEach_elements_throwing f ks s
     | Some d \<Rightarrow> andThen (f s d) (forEach_elements_throwing f ks))"

definition forceUpdateAllElementBounds :: "env \<Rightarrow> manager \<Rightarrow> manager" where
  "forceUpdateAllElementBounds E s =
    forEach_elements
      (\<lambda>s elementData.
         if isIntersectingWithViewport elementData then forceUpdateElementBounds E s elementData
         else s)
      (map fst (elements s)) s"

record UpdateForsightManagerSettings =
  new_positionHistorySize :: "int option"
  new_trajectoryPredictionTime :: "int option"
  new_scrollMargin :: "int option"
  new_tabOffset :: "int option"
  new_enableMousePrediction :: "bool option"
  new_enableScrollPrediction :: "bool option"
  new_enableTabPrediction :: "bool option"
  new_onAnyCallbackFired :: "nat option"
  new_defaultHitSlop :: "hitSlopInput option"

text \<open>\<^verbatim>\<open>positions.slice(start)\<close> for an integer \<open>start\<close>.\<close>

definition slice_from :: "int \<Rightarrow> 'a list \<Rightarrow> 'a list" where
  "slice_from start xs =
    (if start < 0 then drop (nat (max (int (length xs) + start) 0)) xs
     else drop (nat start) xs)"

definition truncateHistory :: "int \<Rightarrow> bool \<Rightarrow> manager \<Rightarrow> manager" where
  "truncateHistory oldPositionHistorySize positionHistoryChanged s =
    (if positionHistoryChanged \<and> positionHistorySize (globalSettings s) < oldPositionHistorySize then
       (if int (length (positions (trajectoryPositions s))) > positionHistorySize (globalSettings s) then
          s\<lparr>trajectoryPositions := (trajectoryPositions s)\<lparr>positions :=
               slice_from
                 (int (length (positions (trajectoryPositions s))) - positionHistorySize (globalSettings s))
                 (positions (trajectoryPositions s))\<rparr>\<rparr>
        else s)
     else s)"

definition updateDefaultHitSlop :: "env \<Rightarrow> hitSlopInput option \<Rightarrow> manager \<Rightarrow> bool \<times> manager" where
  "updateDefaultHitSlop E newHitSlop s =
    (case newHitSlop of
       None \<Rightarrow> (False, s)
     | Some h \<Rightarrow>
         (let normalizedNewHitSlop = normalizeHitSlop E h
          in if \<not> areRectsEqual E (defaultHitSlop (globalSettings s)) normalizedNewHitSlop then
               (True, forceUpdateAllElementBounds E
                        (s\<lparr>globalSettings := (globalSettings s)\<lparr>defaultHitSlop := normalizedNewHitSlop\<rparr>\<rparr>))
             else (False, s)))"

definition alterGlobalSettings :: "env \<Rightarrow> manager \<Rightarrow> UpdateForsightManagerSettings \<Rightarrow> manager" where
  "alterGlobalSettings E s props =
    (let oldPositionHistorySize = positionHistorySize (globalSettings s);
         (positionHistoryChanged, s1) =
            updateNumericSettings s (new_positionHistorySize props) Key_positionHistorySize
              (MIN_POSITION_HISTORY_SIZE E) (MAX_POSITION_HISTORY_SIZE E);
         s2 = truncateHistory oldPositionHistorySize positionHistoryChanged s1;
         (trajectoryTimeChanged, s3) =
            updateNumericSettings s2 (new_trajectoryPredictionTime props) Key_trajectoryPredictionTime
              (MIN_TRAJECTORY_PREDICTION_TIME E) (MAX_TRAJECTORY_PREDICTION_TIME E);
         (scrollMarginChanged, s4) =
            updateNumericSettings s3 (new_scrollMargin props) Key_scrollMargin
              (MIN_SCROLL_MARGIN E) (MAX_SCROLL_MARGIN E);
         (tabOffsetChanged, s5) =
            updateNumericSettings s4 (new_tabOffset props) Key_tabOffset
              (MIN_TAB_OFFSET E) (MAX_TAB_OFFSET E);
         (mousePredictionChanged, s6) =
            updateBooleanSetting s5 (new_enableMousePrediction props) Key_enableMousePrediction;
         (scrollPredictionChanged, s7) =
            updateBooleanSetting s6 (new_enableScrollPrediction props) Key_enableScrollPrediction;
         (tabPredictionChanged, s8) =
            updateBooleanSetting s7 (new_enableTabPrediction props) Key_enableTabPrediction;
         s9 = (case new_onAnyCallbackFired props of
                 None \<Rightarrow> s8
               | Some f \<Rightarrow> s8\<lparr>globalSettings := (globalSettings s8)\<lparr>onAnyCallbackFired := f\<rparr>\<rparr>);
         (hitSlopChanged, s10) = updateDefaultHitSlop E (new_defaultHitSlop props) s9;
         settingsActuallyChanged =
           (positionHistoryChanged \<or> trajectoryTimeChanged \<or> tabOffsetChanged \<or>
            mousePredictionChanged \<or> tabPredictionChanged \<or> scrollPredictionChanged \<or>
            hitSlopChanged \<or> scrollMarginChanged)
     in if settingsActuallyChanged
        then emit s10 (ManagerSettingsChangedEvent (globalSettings s10))
        else s10)"

section \<open>Pointer moves\<close>

record MouseEvent =
  clientX :: real
  clientY :: real

text \<open>
  Modelled from the spec: \<^verbatim>\<open>predictNextMousePosition\<close> of
  \<^verbatim>\<open>./helpers/predictNextMousePosition\<close> is not among the sources. The manager hands
  it the history array "before the currentPoint was added" and never appends to the
  array itself, so the helper does. The spec: the history is bounded by the
  configured size and the oldest position is evicted. The extrapolation itself is
  the parameter \<open>extrapolate\<close>. The result is the predicted point and the array as
  the call leaves it.
\<close>

definition predictNextMousePosition ::
  "env \<Rightarrow> point \<Rightarrow> point list \<Rightarrow> int \<Rightarrow> int \<Rightarrow> point \<times> point list" where
  "predictNextMousePosition E current history historySize predictionTime =
    (let pushed = history @ [current];
         history' = (if int (length pushed) > historySize then tl pushed else pushed)
     in (extrapolate E current history' historySize predictionTime, history'))"

definition updatePointerState :: "env \<Rightarrow> manager \<Rightarrow> MouseEvent \<Rightarrow> manager" where
  "updatePointerState E s e =
    (let current = \<lparr>xc = clientX e, yc = clientY e\<rparr>;
         tp = trajectoryPositions s
     in if enableMousePrediction (globalSettings s) then
          (case predictNextMousePosition E current (positions tp)
                  (positionHistorySize (globalSettings s))
                  (trajectoryPredictionTime (globalSettings s)) of
             (predicted, history') \<Rightarrow>
               s\<lparr>trajectoryPositions :=
                    \<lparr>positions = history', currentPoint = current, predictedPoint = predicted\<rparr>\<rparr>)
        else
          s\<lparr>trajectoryPositions := tp\<lparr>currentPoint := current, predictedPoint := current\<rparr>\<rparr>)"

definition handleCallbackInteraction :: "env \<Rightarrow> manager \<Rightarrow> ForesightElementData \<Rightarrow> outcome" where
  "handleCallbackInteraction E s elementData =
    (let r = expandedRect (elementBounds elementData)
     in if \<not> enableMousePrediction (globalSettings s) then
          (if isPointInRectangle E (currentPoint (trajectoryPositions s)) r
           then callCallback E s (Some elementData) (Mouse hover)
           else Returned s)
        else if lineSegmentIntersectsRect E (currentPoint (trajectoryPositions s))
                  (predictedPoint (trajectoryPositions s)) r
        then callCallback E s (Some elementData) (Mouse trajectory)
        else Returned s)"

text \<open>A throw inside the \<^verbatim>\<open>forEach\<close> leaves the handler before the event is emitted.\<close>

definition handleMouseMove :: "env \<Rightarrow> manager \<Rightarrow> MouseEvent \<Rightarrow> outcome" where
  "handleMouseMove E s e =
    (let s1 = updatePointerState E s e
     in andThen
          (forEach_elements_throwing
             (\<lambda>s currentData.
                if \<not> isIntersectingWithViewport currentData then Returned s
                else handleCallbackInteraction E s currentData)
             (map fst (elements s1)) s1)
          (\<lambda>s2. Returned
                  (emit s2 (MouseTrajectoryUpdateEvent (enableMousePrediction (globalSettings s2))
                     (trajectoryPositions s2)))))"

section \<open>DOM mutations\<close>

datatype MutationType = childList | attributes | characterData

record MutationRecord =
  mutation_type :: MutationType
  removedNodes_length :: nat

definition unregisterDisconnected :: "env \<Rightarrow> manager \<Rightarrow> manager" where
  "unregisterDisconnected E s =
    foldl (\<lambda>s e. if \<not> isConnected E e then unregister s e disconnected else s) s
      (map fst (elements s))"

definition handleDomMutations :: "env \<Rightarrow> manager \<Rightarrow> MutationRecord list \<Rightarrow> manager" where
  "handleDomMutations E s mutationsList =
    (let s1 = (if mutationsList \<noteq> [] then s\<lparr>tabbableElementsCache := [], lastFocusedIndex := None\<rparr>
               else s)
     in foldl
          (\<lambda>s mutation.
             if mutation_type mutation = childList \<and> removedNodes_length mutation > 0
             then unregisterDisconnected E s else s)
          s1 mutationsList)"

section \<open>Tab prediction\<close>

definition handleKeyDown :: "manager \<Rightarrow> KeyboardEvent \<Rightarrow> manager" where
  "handleKeyDown s e = (if key e = ''Tab'' then s\<lparr>lastKeyDown := Some e\<rparr> else s)"

datatype EventTarget = HTMLElement elem | OtherTarget

text \<open>Reading an array at an integer index: \<^verbatim>\<open>undefined\<close> outside the array.\<close>

definition at_index :: "'a list \<Rightarrow> int \<Rightarrow> 'a option" where
  "at_index xs i = (if 0 \<le> i \<and> i < int (length xs) then Some (xs ! nat i) else None)"

text \<open>
  The \<^verbatim>\<open>for\<close> loop of \<^verbatim>\<open>handleFocusIn\<close>: \<open>i\<close> runs from 0 up to \<open>tabOffset\<close>; the
  registry does not change while it runs.
\<close>

definition elementsToPredict :: "manager \<Rightarrow> bool \<Rightarrow> int \<Rightarrow> elem list" where
  "elementsToPredict s isReversed currentIndex =
    concat (map
      (\<lambda>i. case at_index (tabbableElementsCache s)
                  (if isReversed then currentIndex - i else currentIndex + i) of
              None \<Rightarrow> []
            | Some el \<Rightarrow> if map_of (elements s) el \<noteq> None then [el] else [])
      [0 .. tabOffset (globalSettings s)])"

definition handleFocusIn :: "env \<Rightarrow> manager \<Rightarrow> EventTarget \<Rightarrow> outcome" where
  "handleFocusIn E s target =
    (case lastKeyDown s of
       None \<Rightarrow> Returned s
     | Some lastKey \<Rightarrow>
         if \<not> enableTabPrediction (globalSettings s) then Returned s
         else
           (case target of
              OtherTarget \<Rightarrow> Returned s
            | HTMLElement targetElement \<Rightarrow>
                (let s1 = (if tabbableElementsCache s = [] then s\<lparr>tabbableElementsCache := tabbable E\<rparr>
                           else s);
                     isReversed = shiftKey lastKey;
                     currentIndex = getFocusedElementIndex E isReversed (lastFocusedIndex s1)
                                      (tabbableElementsCache s1) targetElement;
                     s2 = s1\<lparr>lastFocusedIndex := Some currentIndex, lastKeyDown := None\<rparr>
                 in forEach
                      (\<lambda>s el. callCallback E s (map_of (elements s) el)
                                 (Tab (if isReversed then reverse else forwards)))
                      s2 (elementsToPredict s2 isReversed currentIndex))))"

section \<open>Position changes and scroll prediction\<close>

definition updateElementBounds :: "env \<Rightarrow> manager \<Rightarrow> rect \<Rightarrow> ForesightElementData \<Rightarrow> manager" where
  "updateElementBounds E s newRect elementData =
    (let updatedElementData =
           setBounds newRect (getExpandedRect E newRect (hitSlop (elementBounds elementData))) elementData;
         s1 = s\<lparr>elements := AList.update (element elementData) updatedElementData (elements s)\<rparr>
     in emit s1 (ElementDataUpdatedEvent updatedElementData bounds))"

text \<open>
  The two \<^verbatim>\<open>??\<close> assignments: the helper is evaluated only when the field is null.
  Both return the value the field holds afterwards; \<^verbatim>\<open>callCallback\<close> writes to neither
  field, so \<^verbatim>\<open>handleScrollPrefetch\<close> reads the same values later on. A throw of
  \<^verbatim>\<open>callCallback\<close> leaves \<^verbatim>\<open>handleScrollPrefetch\<close> before its event is emitted.
\<close>

definition decideScrollDirection :: "env \<Rightarrow> manager \<Rightarrow> rect \<Rightarrow> rect \<Rightarrow> manager \<times> ScrollDirection" where
  "decideScrollDirection E s oldRect newRect =
    (case scrollDirection s of
       Some d \<Rightarrow> (s, d)
     | None \<Rightarrow>
         (let d = getScrollDirection E oldRect newRect
          in (s\<lparr>scrollDirection := Some d,
                 trace := trace s @ [ScrollDirectionComputed oldRect newRect]\<rparr>, d)))"

definition decidePredictedScrollPoint :: "env \<Rightarrow> manager \<Rightarrow> ScrollDirection \<Rightarrow> manager \<times> point" where
  "decidePredictedScrollPoint E s direction =
    (case predictedScrollPoint s of
       Some p \<Rightarrow> (s, p)
     | None \<Rightarrow>
         (let p = predictNextScrollPosition E (currentPoint (trajectoryPositions s)) direction
                    (scrollMargin (globalSettings s))
          in (s\<lparr>predictedScrollPoint := Some p,
                 trace := trace s @ [ScrollPointComputed (currentPoint (trajectoryPositions s))
                            direction (scrollMargin (globalSettings s))]\<rparr>, p)))"

definition handleScrollPrefetch :: "env \<Rightarrow> manager \<Rightarrow> ForesightElementData \<Rightarrow> rect \<Rightarrow> outcome" where
  "handleScrollPrefetch E s elementData newRect =
    (if enableScrollPrediction (globalSettings s) then
       (case originalRect (elementBounds elementData) of
          None \<Rightarrow> Returned s
        | Some oldRect \<Rightarrow>
            (case decideScrollDirection E s oldRect newRect of
               (s1, direction) \<Rightarrow>
                 if direction = none then Returned s1
                 else
                   (case decidePredictedScrollPoint E s1 direction of
                      (s2, predicted) \<Rightarrow>
                        andThen
                          (if lineSegmentIntersectsRect E (currentPoint (trajectoryPositions s2))
                                predicted (expandedRect (elementBounds elementData))
                           then callCallback E s2 (Some elementData) (Scroll direction)
                           else Returned s2)
                          (\<lambda>s3. Returned
                                  (emit s3 (ScrollTrajectoryUpdateEvent
                                     (currentPoint (trajectoryPositions s3)) predicted))))))
     else
       (if isPointInRectangle E (currentPoint (trajectoryPositions s))
             (expandedRect (elementBounds elementData))
        then callCallback E s (Some elementData) (Mouse hover)
        else Returned s))"

record PositionObserverEntry =
  target :: elem
  isIntersecting :: bool
  boundingClientRect :: rect

text \<open>
  One turn of the \<^verbatim>\<open>for\<close> loop of \<^verbatim>\<open>handlePositionChange\<close>. The assignment to
  \<^verbatim>\<open>isIntersectingWithViewport\<close> writes to the registry's record; \<open>elementData\<close>, with
  the bounds it had before \<^verbatim>\<open>updateElementBounds\<close> stored a copy, is what
  \<^verbatim>\<open>handleScrollPrefetch\<close> receives.
\<close>

definition processEntry :: "env \<Rightarrow> manager \<Rightarrow> PositionObserverEntry \<Rightarrow> outcome" where
  "processEntry E s entry =
    (case map_of (elements s) (target entry) of
       None \<Rightarrow> Returned s
     | Some stored \<Rightarrow>
         (let wasPreviouslyIntersecting = isIntersectingWithViewport stored;
              isNowIntersecting = isIntersecting entry;
              elementData = stored\<lparr>isIntersectingWithViewport := isNowIntersecting\<rparr>;
              s1 = s\<lparr>elements := AList.update (target entry) elementData (elements s)\<rparr>;
              s2 = (if wasPreviouslyIntersecting \<noteq> isNowIntersecting
                    then emit s1 (ElementDataUpdatedEvent elementData visibility)
                    else s1)
          in if isNowIntersecting then
               handleScrollPrefetch E
                 (updateElementBounds E s2 (boundingClientRect entry) elementData)
                 elementData (boundingClientRect entry)
             else Returned s2))"

text \<open>
  The two assignments of \<^verbatim>\<open>null\<close> follow the loop and are not in a \<^verbatim>\<open>finally\<close>: a
  throw inside the loop skips them.
\<close>

definition handlePositionChange :: "env \<Rightarrow> manager \<Rightarrow> PositionObserverEntry list \<Rightarrow> outcome" where
  "handlePositionChange E s entries =
    andThen (forEach (processEntry E) s entries)
      (\<lambda>s1. Returned (s1\<lparr>scrollDirection := None, predictedScrollPoint := None\<rparr>))"

section \<open>The manager as a state machine\<close>

text \<open>
  What can happen to the manager: a call of its public interface, or an event of
  one of the collaborators. A DOM event reaches its handler only while the
  listener is attached to the document, a mutation or position batch only while
  the observer exists. Each stimulus comes with the environment of that moment.
  An exception that leaves a handler goes to the browser, which reports it; the
  manager goes on from the state the handler left.
\<close>

datatype stimulus =
  RegisterCall ForesightRegisterOptions
  | UnregisterCall elem
  | AlterGlobalSettingsCall UpdateForsightManagerSettings
  | AddEventListenerCall ForesightEventType listener bool
  | RemoveEventListenerCall ForesightEventType listener
  | MouseMoveEvent MouseEvent
  | KeyDownEvent KeyboardEvent
  | FocusInEvent EventTarget
  | MutationBatch "MutationRecord list"
  | PositionBatch "PositionObserverEntry list"

definition attached :: "domEventType \<Rightarrow> manager \<Rightarrow> bool" where
  "attached ty s = (ty \<in> fst ` set (documentListeners s))"

fun step :: "manager \<Rightarrow> env \<times> stimulus \<Rightarrow> manager" where
  "step s (E, RegisterCall opts) = fst (register E s opts)"
| "step s (E, UnregisterCall e) = unregister s e apiCall"
| "step s (E, AlterGlobalSettingsCall props) = alterGlobalSettings E s props"
| "step s (E, AddEventListenerCall ty l aborted) = addEventListener s ty l aborted"
| "step s (E, RemoveEventListenerCall ty l) = removeEventListener s ty l"
| "step s (E, MouseMoveEvent e) =
     (if attached mousemove s then state_of (handleMouseMove E s e) else s)"
| "step s (E, KeyDownEvent e) = (if attached keydown s then handleKeyDown s e else s)"
| "step s (E, FocusInEvent t) =
     (if attached focusin s then state_of (handleFocusIn E s t) else s)"
| "step s (E, MutationBatch ms) = (if domObserver s then handleDomMutations E s ms else s)"
| "step s (E, PositionBatch entries) =
     (if positionObserver s \<noteq> None then state_of (handlePositionChange E s entries) else s)"

definition run :: "manager \<Rightarrow> (env \<times> stimulus) list \<Rightarrow> manager" where
  "run s stimuli = foldl step s stimuli"

section \<open>Notions used in the statements\<close>

definition subscribers :: "manager \<Rightarrow> ForesightEventType \<Rightarrow> listener list" where
  "subscribers s ty = (case map_of (eventListeners s) ty of None \<Rightarrow> [] | Some ls \<Rightarrow> ls)"

text \<open>What one subscriber adds to the trace when an event is delivered to it.\<close>

definition delivery :: "ForesightEvent \<Rightarrow> listener \<Rightarrow> effect list" where
  "delivery ev l =
     ListenerInvoked (listener_id l) ev #
       (if throws l ev then [ConsoleError (listener_id l) (event_type ev)] else [])"

fun isCallbackOf :: "elem \<Rightarrow> effect \<Rightarrow> bool" where
  "isCallbackOf e (CallbackInvoked e' _) = (e' = e)"
| "isCallbackOf e _ = False"

text \<open>How often the callback of element \<open>e\<close> has been invoked so far.\<close>

definition callbackInvocations :: "elem \<Rightarrow> manager \<Rightarrow> nat" where
  "callbackInvocations e s = length (filter (isCallbackOf e) (trace s))"

definition registered :: "elem \<Rightarrow> manager \<Rightarrow> bool" where
  "registered e s = (map_of (elements s) e \<noteq> None)"

text \<open>
  Every record of the registry is stored under its own element. \<^verbatim>\<open>register\<close> creates
  records that way and every later write keeps it.
\<close>

definition keyed :: "(elem \<times> ForesightElementData) list \<Rightarrow> bool" where
  "keyed al = list_all (\<lambda>(k, d). element d = k) al"

definition wellFormed :: "manager \<Rightarrow> bool" where
  "wellFormed s = keyed (elements s)"


definition zeroRect :: rect where
  "zeroRect = \<lparr>rtop = 0, rleft = 0, rright = 0, rbottom = 0\<rparr>"

section \<open>An example environment\<close>

text \<open>
  Modelled from the spec: the constants of \<^verbatim>\<open>./constants\<close> and the helpers of
  \<^verbatim>\<open>./helpers\<close> (\<^verbatim>\<open>rectAndHitSlop\<close>, \<^verbatim>\<open>lineSigmentIntersectsRect\<close>,
  \<^verbatim>\<open>getScrollDirection\<close>, \<^verbatim>\<open>predictNextScrollPosition\<close>,
  \<^verbatim>\<open>getFocusedElementIndex\<close>, \<^verbatim>\<open>predictNextMousePosition\<close>) are not among the
  sources. The operations take them as the parameter \<open>env\<close>. This section gives one
  concrete environment, used to evaluate the operations on concrete inputs; no
  statement about all environments depends on it. Its constants are the defaults
  and ranges of the configuration table of \<^verbatim>\<open>getting_started/config.md\<close>; the
  scroll margin is not in that table and is given a range here. Its helpers follow
  the descriptions of the spec: the point test is inclusive, a segment meets a
  rectangle when clipping it against the four sides leaves something, expansion
  grows each side by the slop, a hit-slop is clamped side by side, rectangles are
  equal when their sides are, a scroll direction is inferred from the displacement
  of the rectangle and the predicted scroll point lies at the distance of the
  margin in that direction. No callback and no hook throws in it.
\<close>

definition ex_isPointInRectangle :: "point \<Rightarrow> rect \<Rightarrow> bool" where
  "ex_isPointInRectangle p r =
    (rleft r \<le> xc p \<and> xc p \<le> rright r \<and> rtop r \<le> yc p \<and> yc p \<le> rbottom r)"

definition clipTest :: "real \<Rightarrow> real \<Rightarrow> real \<times> real \<Rightarrow> (real \<times> real) option" where
  "clipTest p q t =
    (case t of (t0, t1) \<Rightarrow>
       if p = 0 then (if q < 0 then None else Some (t0, t1))
       else
         (let r = q / p
          in if p < 0 then (if r > t1 then None else Some (max r t0, t1))
             else (if r < t0 then None else Some (t0, min r t1))))"

definition ex_lineSegmentIntersectsRect :: "point \<Rightarrow> point \<Rightarrow> rect \<Rightarrow> bool" where
  "ex_lineSegmentIntersectsRect p1 p2 r =
    (let dx = xc p2 - xc p1; dy = yc p2 - yc p1
     in case Option.bind (Option.bind (Option.bind (clipTest (- dx) (xc p1 - rleft r) (0, 1))
               (clipTest dx (rright r - xc p1)))
               (clipTest (- dy) (yc p1 - rtop r)))
               (clipTest dy (rbottom r - yc p1)) of
          None \<Rightarrow> False
        | Some (t0, t1) \<Rightarrow> t0 \<le> t1)"

definition ex_getExpandedRect :: "rect \<Rightarrow> rect \<Rightarrow> rect" where
  "ex_getExpandedRect r slop =
    \<lparr>rtop = rtop r - rtop slop, rleft = rleft r - rleft slop,
     rright = rright r + rright slop, rbottom = rbottom r + rbottom slop\<rparr>"

definition clampSlop :: "real \<Rightarrow> real" where
  "clampSlop v = min (max v 0) 2000"

fun ex_normalizeHitSlop :: "hitSlopInput \<Rightarrow> rect" where
  "ex_normalizeHitSlop (HitSlopNumber n) =
     \<lparr>rtop = clampSlop n, rleft = clampSlop n, rright = clampSlop n, rbottom = clampSlop n\<rparr>"
| "ex_normalizeHitSlop (HitSlopRect r) =
     \<lparr>rtop = clampSlop (rtop r), rleft = clampSlop (rleft r),
      rright = clampSlop (rright r), rbottom = clampSlop (rbottom r)\<rparr>"

definition ex_getScrollDirection :: "rect \<Rightarrow> rect \<Rightarrow> ScrollDirection" where
  "ex_getScrollDirection oldRect newRect =
    (let deltaY = rtop newRect - rtop oldRect; deltaX = rleft newRect - rleft oldRect
     in if deltaY < - 1 then down else if deltaY > 1 then up
        else if deltaX < - 1 then right else if deltaX > 1 then left else none)"

fun ex_predictNextScrollPosition :: "point \<Rightarrow> ScrollDirection \<Rightarrow> int \<Rightarrow> point" where
  "ex_predictNextScrollPosition p down m = p\<lparr>yc := yc p + real_of_int m\<rparr>"
| "ex_predictNextScrollPosition p up m = p\<lparr>yc := yc p - real_of_int m\<rparr>"
| "ex_predictNextScrollPosition p left m = p\<lparr>xc := xc p - real_of_int m\<rparr>"
| "ex_predictNextScrollPosition p right m = p\<lparr>xc := xc p + real_of_int m\<rparr>"
| "ex_predictNextScrollPosition p none m = p"

text \<open>\<^verbatim>\<open>Array.findIndex\<close>: the first position of the element, or -1.\<close>

fun findIndex :: "'a \<Rightarrow> 'a list \<Rightarrow> int" where
  "findIndex x [] = - 1"
| "findIndex x (y # ys) =
     (if x = y then 0 else (let i = findIndex x ys in if i < 0 then - 1 else i + 1))"

text \<open>
  The sample times of the history are not part of the model; the example
  extrapolates by the last displacement, and not at all from fewer than two
  samples.
\<close>

definition ex_extrapolate :: "point \<Rightarrow> point list \<Rightarrow> int \<Rightarrow> int \<Rightarrow> point" where
  "ex_extrapolate current history n t =
    (if length history < 2 then current
     else (let prev = history ! (length history - 2)
           in \<lparr>xc = 2 * xc current - xc prev, yc = 2 * yc current - yc prev\<rparr>))"

definition exampleEnv :: env where
  "exampleEnv =
    \<lparr>DEFAULT_ENABLE_MOUSE_PREDICTION = True,
     DEFAULT_ENABLE_SCROLL_PREDICTION = True,
     DEFAULT_ENABLE_TAB_PREDICTION = True,
     DEFAULT_HITSLOP = 0,
     DEFAULT_POSITION_HISTORY_SIZE = 8,
     DEFAULT_SCROLL_MARGIN = 150,
     DEFAULT_TAB_OFFSET = 2,
     DEFAULT_TRAJECTORY_PREDICTION_TIME = 120,
     MAX_POSITION_HISTORY_SIZE = 30,
     MAX_SCROLL_MARGIN = 300,
     MAX_TAB_OFFSET = 20,
     MAX_TRAJECTORY_PREDICTION_TIME = 200,
     MIN_POSITION_HISTORY_SIZE = 0,
     MIN_SCROLL_MARGIN = 30,
     MIN_TAB_OFFSET = 0,
     MIN_TRAJECTORY_PREDICTION_TIME = 10,
     evaluateRegistrationConditions = (True, False, False),
     hasWindowAndDocument = True,
     elementId = (\<lambda>_. []),
     getBoundingClientRect = (\<lambda>_. \<lparr>rtop = 100, rleft = 100, rright = 200, rbottom = 200\<rparr>),
     isConnected = (\<lambda>_. True),
     tabbable = [10, 11, 12, 13, 14, 15, 16, 17, 18, 19],
     normalizeHitSlop = ex_normalizeHitSlop,
     areRectsEqual = (\<lambda>a b. a = b),
     getExpandedRect = ex_getExpandedRect,
     isPointInRectangle = ex_isPointInRectangle,
     lineSegmentIntersectsRect = ex_lineSegmentIntersectsRect,
     extrapolate = ex_extrapolate,
     getFocusedElementIndex = (\<lambda>isReversed lastIndex cache el. findIndex el cache),
     getScrollDirection = ex_getScrollDirection,
     predictNextScrollPosition = ex_predictNextScrollPosition,
     callbackThrows = (\<lambda>_ _. False),
     hookThrows = (\<lambda>_ _. False)\<rparr>"

definition exampleRect :: rect where
  "exampleRect = \<lparr>rtop = 100, rleft = 100, rright = 200, rbottom = 200\<rparr>"

text \<open>Two subscribers: the first throws on every event, the second never does.\<close>

definition faultyListener :: listener where
  "faultyListener = \<lparr>listener_id = 1, throws = (\<lambda>_. True)\<rparr>"

definition soundListener :: listener where
  "soundListener = \<lparr>listener_id = 2, throws = (\<lambda>_. False)\<rparr>"

definition twoSubscribers :: manager where
  "twoSubscribers =
    addEventListener
      (addEventListener (initialManager exampleEnv) mouseTrajectoryUpdate faultyListener False)
      mouseTrajectoryUpdate soundListener False"

definition exampleUpdate :: ForesightEvent where
  "exampleUpdate =
    MouseTrajectoryUpdateEvent True (trajectoryPositions (initialManager exampleEnv))"

text \<open>
  An element registered with \<open>unregisterOnCallback: false\<close>, its bounds reported by the
  position observer, and the pointer moving onto it.
\<close>

definition keepOptions :: ForesightRegisterOptions where
  "keepOptions =
    \<lparr>opt_element = 7, opt_callback = 70, opt_hitSlop = None, opt_name = None,
     opt_unregisterOnCallback = Some False\<rparr>"


definition onElementMove :: MouseEvent where
  "onElementMove = \<lparr>clientX = 150, clientY = 150\<rparr>"



section \<open>Throwing and qualifying events\<close>

text \<open>
  \<open>spares E e\<close>: no call made for the element \<open>e\<close> throws, neither of a callback nor
  of the hook. \<open>quiet E\<close>: no call throws at all.
\<close>

definition spares :: "env \<Rightarrow> elem \<Rightarrow> bool" where
  "spares E e = ((\<forall>c. \<not> callbackThrows E c e) \<and> (\<forall>f. \<not> hookThrows E f e))"

definition quiet :: "env \<Rightarrow> bool" where
  "quiet E = (\<forall>e. spares E e)"



subsection \<open>A pointer move that hits an element\<close>

text \<open>
  The test of \<^verbatim>\<open>handleCallbackInteraction\<close> for a rectangle and the pointer state of
  \<open>s\<close>: the trajectory with mouse prediction, the position without.
\<close>

definition pointerTest :: "env \<Rightarrow> manager \<Rightarrow> rect \<Rightarrow> bool" where
  "pointerTest E s r =
    (if enableMousePrediction (globalSettings s)
     then lineSegmentIntersectsRect E (currentPoint (trajectoryPositions s))
            (predictedPoint (trajectoryPositions s)) r
     else isPointInRectangle E (currentPoint (trajectoryPositions s)) r)"

text \<open>
  The element \<open>e\<close> is registered, marked as intersecting the viewport, and the pointer
  state of \<open>s\<close> passes the test against its expanded rectangle.
\<close>

definition mouseHit :: "env \<Rightarrow> manager \<Rightarrow> elem \<Rightarrow> bool" where
  "mouseHit E s e =
    (case map_of (elements s) e of
       None \<Rightarrow> False
     | Some d \<Rightarrow> isIntersectingWithViewport d \<and> pointerTest E s (expandedRect (elementBounds d)))"

subsection \<open>A focus change that hits an element\<close>


text \<open>The same elements as a set, counted from the lower end of the window.\<close>

definition tabWindow :: "elem list \<Rightarrow> bool \<Rightarrow> int \<Rightarrow> int \<Rightarrow> elem set" where
  "tabWindow cache isReversed i n =
    set (map (\<lambda>j. cache ! nat j)
          (filter (\<lambda>j. 0 \<le> j \<and> j < int (length cache))
             (if isReversed then [i - n .. i] else [i .. i + n])))"

text \<open>The list of tabbable elements that \<^verbatim>\<open>handleFocusIn\<close> works with.\<close>

definition tabbableNow :: "env \<Rightarrow> manager \<Rightarrow> elem list" where
  "tabbableNow E s = (if tabbableElementsCache s = [] then tabbable E else tabbableElementsCache s)"

text \<open>
  A Tab key press is pending, tab prediction is on, the focus went to an element,
  and \<open>e\<close> is registered and inside the window that starts at the resolved index of
  that element.
\<close>

definition tabHit :: "env \<Rightarrow> manager \<Rightarrow> EventTarget \<Rightarrow> elem \<Rightarrow> bool" where
  "tabHit E s t e =
    (case lastKeyDown s of
       None \<Rightarrow> False
     | Some lastKey \<Rightarrow>
         enableTabPrediction (globalSettings s) \<and>
         (case t of
            OtherTarget \<Rightarrow> False
          | HTMLElement x \<Rightarrow>
              registered e s \<and>
              e \<in> tabWindow (tabbableNow E s) (shiftKey lastKey)
                    (getFocusedElementIndex E (shiftKey lastKey) (lastFocusedIndex s)
                       (tabbableNow E s) x)
                    (tabOffset (globalSettings s))))"

subsection \<open>A position entry that hits an element\<close>

text \<open>
  The scroll direction and the predicted scroll point that a hit test works with:
  the cached value if there is one, a newly computed one otherwise.
\<close>

definition usedDirection :: "env \<Rightarrow> manager \<Rightarrow> rect \<Rightarrow> rect \<Rightarrow> ScrollDirection" where
  "usedDirection E s oldRect newRect =
    (case scrollDirection s of
       Some cached \<Rightarrow> cached
     | None \<Rightarrow> getScrollDirection E oldRect newRect)"

definition usedPoint :: "env \<Rightarrow> manager \<Rightarrow> ScrollDirection \<Rightarrow> point" where
  "usedPoint E s direction =
    (case predictedScrollPoint s of
       Some cached \<Rightarrow> cached
     | None \<Rightarrow>
         predictNextScrollPosition E (currentPoint (trajectoryPositions s)) direction
           (scrollMargin (globalSettings s)))"

text \<open>
  The test of \<^verbatim>\<open>handleScrollPrefetch\<close> for a record \<open>d\<close> and the rectangle reported for
  it. With scroll prediction the record needs an original rectangle, the direction
  must not be \<^verbatim>\<open>"none"\<close> and the segment from the pointer to the predicted scroll
  point must meet the expanded rectangle; without, the pointer must be inside the
  expanded rectangle.
\<close>

definition scrollTest :: "env \<Rightarrow> manager \<Rightarrow> ForesightElementData \<Rightarrow> rect \<Rightarrow> bool" where
  "scrollTest E s d newRect =
    (if enableScrollPrediction (globalSettings s) then
       (case originalRect (elementBounds d) of
          None \<Rightarrow> False
        | Some oldRect \<Rightarrow>
            usedDirection E s oldRect newRect \<noteq> none \<and>
            lineSegmentIntersectsRect E (currentPoint (trajectoryPositions s))
              (usedPoint E s (usedDirection E s oldRect newRect))
              (expandedRect (elementBounds d)))
     else isPointInRectangle E (currentPoint (trajectoryPositions s))
            (expandedRect (elementBounds d)))"

text \<open>
  The entry reports its target as intersecting, the target is registered, and the
  record it has in \<open>s\<close>, with the bounds of before the entry, passes the test.
\<close>

definition entryHit :: "env \<Rightarrow> manager \<Rightarrow> PositionObserverEntry \<Rightarrow> bool" where
  "entryHit E s entry =
    (isIntersecting entry \<and>
     (case map_of (elements s) (target entry) of
        None \<Rightarrow> False
      | Some stored \<Rightarrow> scrollTest E s stored (boundingClientRect entry)))"

text \<open>Some entry of the batch, when its turn comes, hits the element \<open>e\<close>.\<close>

fun scrollHit :: "env \<Rightarrow> manager \<Rightarrow> PositionObserverEntry list \<Rightarrow> elem \<Rightarrow> bool" where
  "scrollHit E s [] e = False"
| "scrollHit E s (entry # rest) e =
    ((target entry = e \<and> entryHit E s entry) \<or>
     (case processEntry E s entry of
        Returned s' \<Rightarrow> scrollHit E s' rest e
      | Threw s' \<Rightarrow> False))"

subsection \<open>Qualifying events\<close>

text \<open>
  The stimulus is an event that reaches its handler, and the handler's own test for
  the element \<open>e\<close> succeeds: a pointer move, a focus change after Tab, or a batch of
  position entries.
\<close>

fun hits :: "env \<Rightarrow> manager \<Rightarrow> stimulus \<Rightarrow> elem \<Rightarrow> bool" where
  "hits E s (MouseMoveEvent m) e = (attached mousemove s \<and> mouseHit E (updatePointerState E s m) e)"
| "hits E s (FocusInEvent t) e = (attached focusin s \<and> tabHit E s t e)"
| "hits E s (PositionBatch entries) e = (positionObserver s \<noteq> None \<and> scrollHit E s entries e)"
| "hits E s _ e = False"

text \<open>
  The step from \<open>s\<close> to \<open>s'\<close> keeps the registry well formed, never takes an
  invocation of the callback of \<open>e\<close> back, and pays for each new invocation by the
  removal of \<open>e\<close> from the registry.
\<close>

definition advances :: "elem \<Rightarrow> manager \<Rightarrow> manager \<Rightarrow> bool" where
  "advances e s s' =
    (wellFormed s' \<and> callbackInvocations e s \<le> callbackInvocations e s' \<and>
     callbackInvocations e s' + (if registered e s' then 1 else 0)
       \<le> callbackInvocations e s + (if registered e s then 1 else 0))"

section \<open>A fresh record and its window\<close>

text \<open>
  A record as \<^verbatim>\<open>register\<close> creates it: marked as intersecting, without an original
  rectangle, and with the zero rectangle as its expanded rectangle.
\<close>

definition fresh :: "elem \<Rightarrow> manager \<Rightarrow> bool" where
  "fresh e s =
    (case map_of (elements s) e of
       None \<Rightarrow> False
     | Some d \<Rightarrow>
         isIntersectingWithViewport d \<and> originalRect (elementBounds d) = None \<and>
         expandedRect (elementBounds d) = zeroRect)"

text \<open>The pointer test against the zero rectangle.\<close>

definition hitsZeroRect :: "env \<Rightarrow> manager \<Rightarrow> bool" where
  "hitsZeroRect E s = pointerTest E s zeroRect"

text \<open>
  A record that has the bounds of a fresh one but is marked as not intersecting the
  viewport.
\<close>

definition hiddenFresh :: "elem \<Rightarrow> manager \<Rightarrow> bool" where
  "hiddenFresh e s =
    (case map_of (elements s) e of
       None \<Rightarrow> False
     | Some d \<Rightarrow>
         \<not> isIntersectingWithViewport d \<and> originalRect (elementBounds d) = None \<and>
         expandedRect (elementBounds d) = zeroRect)"

text \<open>
  The record of \<open>e\<close> is marked as intersecting and has the bounds that follow from
  the reported rectangle \<open>r\<close>.
\<close>

definition reported :: "env \<Rightarrow> elem \<Rightarrow> rect \<Rightarrow> manager \<Rightarrow> bool" where
  "reported E e r s =
    (case map_of (elements s) e of
       None \<Rightarrow> False
     | Some d \<Rightarrow>
         isIntersectingWithViewport d \<and> originalRect (elementBounds d) = Some r \<and>
         expandedRect (elementBounds d) = getExpandedRect E r (hitSlop (elementBounds d)))"

text \<open>
  What does not end the window of \<open>e\<close>: anything but a position batch with an entry
  for \<open>e\<close> and a settings update that changes the default hit-slop (which refreshes
  the bounds of every element marked as intersecting).
\<close>

fun inWindow :: "elem \<Rightarrow> manager \<Rightarrow> env \<times> stimulus \<Rightarrow> bool" where
  "inWindow e s (E, PositionBatch entries) = (e \<notin> set (map target entries))"
| "inWindow e s (E, AlterGlobalSettingsCall props) =
    (case new_defaultHitSlop props of
       None \<Rightarrow> True
     | Some h \<Rightarrow> areRectsEqual E (defaultHitSlop (globalSettings s)) (normalizeHitSlop E h))"
| "inWindow e s (E, _) = True"

fun window :: "elem \<Rightarrow> manager \<Rightarrow> (env \<times> stimulus) list \<Rightarrow> bool" where
  "window e s [] = True"
| "window e s (x # xs) = (inWindow e s x \<and> window e (step s x) xs)"

section \<open>The scroll cache\<close>

text \<open>How often the two scroll helpers have been evaluated so far.\<close>

fun isDirectionComputed :: "effect \<Rightarrow> bool" where
  "isDirectionComputed (ScrollDirectionComputed _ _) = True"
| "isDirectionComputed _ = False"

fun isPointComputed :: "effect \<Rightarrow> bool" where
  "isPointComputed (ScrollPointComputed _ _ _) = True"
| "isPointComputed _ = False"

definition directionComputations :: "manager \<Rightarrow> nat" where
  "directionComputations s = length (filter isDirectionComputed (trace s))"

definition pointComputations :: "manager \<Rightarrow> nat" where
  "pointComputations s = length (filter isPointComputed (trace s))"


text \<open>The scroll cache and the two counters.\<close>

definition scrollView :: "manager \<Rightarrow> ScrollDirection option \<times> point option \<times> nat \<times> nat" where
  "scrollView s =
    (scrollDirection s, predictedScrollPoint s, directionComputations s, pointComputations s)"

text \<open>The settings and the pointer state.\<close>

definition pointerView :: "manager \<Rightarrow> ForesightManagerSettings \<times> TrajectoryPositions" where
  "pointerView s = (globalSettings s, trajectoryPositions s)"

section \<open>The listeners of the document\<close>

text \<open>
  The shape of the document's listeners, as it follows \<^verbatim>\<open>isSetup\<close>. While the
  manager is set up, the registry is not empty and the document carries the
  mousemove listener without a signal and the keydown and focusin listeners with the
  signal of the current controller. While it is not, there is no controller and at
  most the mousemove listener is attached; with \<open>armed\<close>, the mousemove listener is
  attached.
\<close>

definition listenersScoped :: "bool \<Rightarrow> manager \<Rightarrow> bool" where
  "listenersScoped armed s =
    (if isSetup s then
       (case globalListenersController s of
          None \<Rightarrow> False
        | Some c \<Rightarrow>
            documentListeners s = [(mousemove, None), (keydown, Some c), (focusin, Some c)] \<and>
            elements s \<noteq> [])
     else
       globalListenersController s = None \<and>
       (documentListeners s = [(mousemove, None)] \<or> (\<not> armed \<and> documentListeners s = [])))"

section \<open>Invariants used in the proofs\<close>


text \<open>The record of \<open>e\<close> is as \<^verbatim>\<open>register\<close> made it, or \<open>e\<close> is not registered.\<close>

definition freshOrGone :: "elem \<Rightarrow> manager \<Rightarrow> bool" where
  "freshOrGone e s = (wellFormed s \<and> (fresh e s \<or> \<not> registered e s))"


section \<open>Example states\<close>



definition farRect :: rect where
  "farRect = \<lparr>rtop = 1000, rleft = 1000, rright = 1100, rbottom = 1100\<rparr>"








text \<open>
  Element 7 has just been registered. The pointer moves to (300, 300), away from
  the origin, and then to the origin; the element's own bounds are
  \<open>exampleRect\<close>, which neither move touches. In between, the position observer
  reports another element.
\<close>

definition awayMove :: MouseEvent where
  "awayMove = \<lparr>clientX = 300, clientY = 300\<rparr>"

definition originMove :: MouseEvent where
  "originMove = \<lparr>clientX = 0, clientY = 0\<rparr>"

definition justRegistered :: manager where
  "justRegistered = fst (register exampleEnv (initialManager exampleEnv) keepOptions)"

definition earlyEvents :: "(env \<times> stimulus) list" where
  "earlyEvents =
    [(exampleEnv, MouseMoveEvent awayMove),
     (exampleEnv, PositionBatch [\<lparr>target = 8, isIntersecting = True, boundingClientRect = farRect\<rparr>])]"

text \<open>The first entry for element 7 reports it as not intersecting the viewport.\<close>

definition outOfView :: PositionObserverEntry where
  "outOfView = \<lparr>target = 7, isIntersecting = False, boundingClientRect = exampleRect\<rparr>"

text \<open>A change of the default hit-slop right after the registration of element 7.\<close>

definition slopTen :: UpdateForsightManagerSettings where
  "slopTen =
    \<lparr>new_positionHistorySize = None, new_trajectoryPredictionTime = None,
     new_scrollMargin = None, new_tabOffset = None, new_enableMousePrediction = None,
     new_enableScrollPrediction = None, new_enableTabPrediction = None,
     new_onAnyCallbackFired = None, new_defaultHitSlop = Some (HitSlopNumber 10)\<rparr>"

definition refreshed :: manager where
  "refreshed = alterGlobalSettings exampleEnv justRegistered slopTen"







text \<open>Element 7 is registered and unregistered again: the registry is empty.\<close>

definition emptied :: manager where
  "emptied =
    run (initialManager exampleEnv)
      [(exampleEnv, RegisterCall keepOptions), (exampleEnv, UnregisterCall 7)]"

text \<open>The range of a numeric setting and the value an update carries for it.\<close>

fun lowerBound :: "env \<Rightarrow> NumericSettingKeys \<Rightarrow> int" where
  "lowerBound E Key_positionHistorySize = MIN_POSITION_HISTORY_SIZE E"
| "lowerBound E Key_trajectoryPredictionTime = MIN_TRAJECTORY_PREDICTION_TIME E"
| "lowerBound E Key_scrollMargin = MIN_SCROLL_MARGIN E"
| "lowerBound E Key_tabOffset = MIN_TAB_OFFSET E"

fun upperBound :: "env \<Rightarrow> NumericSettingKeys \<Rightarrow> int" where
  "upperBound E Key_positionHistorySize = MAX_POSITION_HISTORY_SIZE E"
| "upperBound E Key_trajectoryPredictionTime = MAX_TRAJECTORY_PREDICTION_TIME E"
| "upperBound E Key_scrollMargin = MAX_SCROLL_MARGIN E"
| "upperBound E Key_tabOffset = MAX_TAB_OFFSET E"

fun incoming :: "UpdateForsightManagerSettings \<Rightarrow> NumericSettingKeys \<Rightarrow> int option" where
  "incoming props Key_positionHistorySize = new_positionHistorySize props"
| "incoming props Key_trajectoryPredictionTime = new_trajectoryPredictionTime props"
| "incoming props Key_scrollMargin = new_scrollMargin props"
| "incoming props Key_tabOffset = new_tabOffset props"

definition inRange :: "env \<Rightarrow> ForesightManagerSettings \<Rightarrow> NumericSettingKeys \<Rightarrow> bool" where
  "inRange E g k = (lowerBound E k \<le> getNumeric g k \<and> getNumeric g k \<le> upperBound E k)"

text \<open>The invariant of the position history.\<close>

definition historyBounded :: "manager \<Rightarrow> bool" where
  "historyBounded s =
    (int (length (positions (trajectoryPositions s))) \<le> positionHistorySize (globalSettings s))"

text \<open>A range of history sizes that is not empty and has no negative size.\<close>

definition saneHistoryRange :: "env \<Rightarrow> bool" where
  "saneHistoryRange E =
    (0 \<le> MIN_POSITION_HISTORY_SIZE E \<and> MIN_POSITION_HISTORY_SIZE E \<le> MAX_POSITION_HISTORY_SIZE E)"

text \<open>An update that asks for a tab offset of 100, above the range.\<close>

definition tooLarge :: UpdateForsightManagerSettings where
  "tooLarge =
    \<lparr>new_positionHistorySize = None, new_trajectoryPredictionTime = None,
     new_scrollMargin = None, new_tabOffset = Some 100, new_enableMousePrediction = None,
     new_enableScrollPrediction = None, new_enableTabPrediction = None,
     new_onAnyCallbackFired = None, new_defaultHitSlop = None\<rparr>"

text \<open>
  Three pointer moves after the registration of element 7, and an update that
  shrinks the history size from 8 to 2.
\<close>

definition nearbyMoves :: "(env \<times> stimulus) list" where
  "nearbyMoves =
    [(exampleEnv, MouseMoveEvent \<lparr>clientX = 300, clientY = 300\<rparr>),
     (exampleEnv, MouseMoveEvent \<lparr>clientX = 310, clientY = 300\<rparr>),
     (exampleEnv, MouseMoveEvent \<lparr>clientX = 320, clientY = 300\<rparr>)]"

definition moved :: manager where
  "moved = run justRegistered nearbyMoves"

definition shrinkToTwo :: UpdateForsightManagerSettings where
  "shrinkToTwo =
    \<lparr>new_positionHistorySize = Some 2, new_trajectoryPredictionTime = None,
     new_scrollMargin = None, new_tabOffset = None, new_enableMousePrediction = None,
     new_enableScrollPrediction = None, new_enableTabPrediction = None,
     new_onAnyCallbackFired = None, new_defaultHitSlop = None\<rparr>"

text \<open>
  A manager with one subscriber of \<^verbatim>\<open>managerSettingsChanged\<close>, and the same manager
  after the tab offset of 100 has been applied once.
\<close>

definition subscribed :: manager where
  "subscribed = addEventListener (initialManager exampleEnv) managerSettingsChanged soundListener False"

definition appliedOnce :: manager where
  "appliedOnce = alterGlobalSettings exampleEnv subscribed tooLarge"

section \<open>The event bus isolates a throwing subscriber\<close>

lemma notify_trace: "trace (notify ev s l) = trace s @ delivery ev l"
  by (simp add: notify_def call_listener_def delivery_def Let_def)

lemma notify_rest: "(notify ev s l)\<lparr>trace := t\<rparr> = s\<lparr>trace := t\<rparr>"
  by (simp add: notify_def call_listener_def Let_def)

lemma foldl_notify_trace:
  "trace (foldl (notify ev) s ls) = trace s @ concat (map (delivery ev) ls)"
  by (induction ls arbitrary: s) (simp_all add: notify_trace)

lemma foldl_notify_rest: "(foldl (notify ev) s ls)\<lparr>trace := t\<rparr> = s\<lparr>trace := t\<rparr>"
  by (induction ls arbitrary: s) (simp_all add: notify_rest)

lemma emit_trace:
  "trace (emit s ev) = trace s @ concat (map (delivery ev) (subscribers s (event_type ev)))"
  by (simp add: emit_def subscribers_def foldl_notify_trace split: option.splits)

lemma emit_rest: "(emit s ev)\<lparr>trace := t\<rparr> = s\<lparr>trace := t\<rparr>"
  by (simp add: emit_def foldl_notify_rest split: option.splits)

text \<open>
  Claim C9. Publishing an event calls every subscriber of its type, in order of
  subscription, whichever of them throw: the trace grows by the delivery to each
  subscriber, with a \<^verbatim>\<open>console.error\<close> entry after each one that throws. \<^verbatim>\<open>emit\<close>
  returns normally, and apart from the trace the state of the manager is what it was.
\<close>

theorem emit_isolates_throwing_listener:
  "trace (emit s ev) = trace s @ concat (map (delivery ev) (subscribers s (event_type ev)))
   \<and> (emit s ev)\<lparr>trace := trace s\<rparr> = s"
  using emit_trace[of s ev] emit_rest[where s = s and ev = ev and t = "trace s"] by simp

theorem emit_isolates_throwing_listener_witness:
  "trace (emit twoSubscribers exampleUpdate) =
     [ListenerInvoked 1 exampleUpdate, ConsoleError 1 mouseTrajectoryUpdate,
      ListenerInvoked 2 exampleUpdate]
   \<and> (emit twoSubscribers exampleUpdate)\<lparr>trace := []\<rparr> = twoSubscribers"
proof -
  have ty: "event_type exampleUpdate = mouseTrajectoryUpdate"
    by (simp add: exampleUpdate_def)
  have subs: "subscribers twoSubscribers mouseTrajectoryUpdate = [faultyListener, soundListener]"
    by (simp add: subscribers_def twoSubscribers_def addEventListener_def initialManager_def)
  have tr: "trace twoSubscribers = []"
    by (simp add: twoSubscribers_def addEventListener_def initialManager_def)
  show ?thesis
    using emit_isolates_throwing_listener[of twoSubscribers exampleUpdate]
    by (simp add: ty subs tr delivery_def faultyListener_def soundListener_def)
qed

section \<open>Frame facts\<close>

lemma foldl_keeps:
  assumes "\<And>s x. V (f s x) = V s"
  shows "V (foldl f s xs) = V s"
  by (induction xs arbitrary: s) (simp_all add: assms)

lemma forEach_keeps:
  assumes "\<And>s d. V (f s d) = V s"
  shows "V (forEach_elements f ks s) = V s"
  by (induction ks arbitrary: s) (simp_all add: assms split: option.splits)

lemma foldl_inv:
  assumes "\<And>s x. I s \<Longrightarrow> I (f s x)" and "I s"
  shows "I (foldl f s xs)"
  using assms(2) by (induction xs arbitrary: s) (simp_all add: assms(1))

lemma forEach_inv:
  assumes "\<And>s k d. I s \<Longrightarrow> map_of (elements s) k = Some d \<Longrightarrow> I (f s d)" and "I s"
  shows "I (forEach_elements f ks s)"
  using assms(2) by (induction ks arbitrary: s) (simp_all add: assms(1) split: option.splits)

lemma emit_keeps:
  assumes "\<And>s t. V (s\<lparr>trace := t\<rparr>) = V s"
  shows "V (emit s ev) = V s"
proof -
  have "V (emit s ev) = V ((emit s ev)\<lparr>trace := []\<rparr>)" by (simp add: assms)
  also have "\<dots> = V (s\<lparr>trace := []\<rparr>)" by (simp only: emit_rest)
  also have "\<dots> = V s" by (simp add: assms)
  finally show ?thesis .
qed

lemma emit_fields [simp]:
  "elements (emit s ev) = elements s"
  "isSetup (emit s ev) = isSetup s"
  "globalCallbackHits (emit s ev) = globalCallbackHits s"
  "globalSettings (emit s ev) = globalSettings s"
  "trajectoryPositions (emit s ev) = trajectoryPositions s"
  "tabbableElementsCache (emit s ev) = tabbableElementsCache s"
  "lastFocusedIndex (emit s ev) = lastFocusedIndex s"
  "predictedScrollPoint (emit s ev) = predictedScrollPoint s"
  "scrollDirection (emit s ev) = scrollDirection s"
  "domObserver (emit s ev) = domObserver s"
  "positionObserver (emit s ev) = positionObserver s"
  "lastKeyDown (emit s ev) = lastKeyDown s"
  "globalListenersController (emit s ev) = globalListenersController s"
  "eventListeners (emit s ev) = eventListeners s"
  "documentListeners (emit s ev) = documentListeners s"
  "nextControllerId (emit s ev) = nextControllerId s"
  by (rule emit_keeps, simp)+

lemma filter_deliveries:
  assumes "\<And>i ev. \<not> P (ListenerInvoked i ev)" and "\<And>i t. \<not> P (ConsoleError i t)"
  shows "filter P (concat (map (delivery ev) ls)) = []"
  by (induction ls) (simp_all add: delivery_def assms)

lemma emit_callbackInvocations [simp]:
  "callbackInvocations e (emit s ev) = callbackInvocations e s"
  by (simp add: callbackInvocations_def emit_trace filter_deliveries)

lemma emit_registered [simp]: "registered e (emit s ev) = registered e s"
  by (simp add: registered_def)

lemma emit_wellFormed [simp]: "wellFormed (emit s ev) = wellFormed s"
  by (simp add: wellFormed_def)

subsection \<open>Outcomes and loops that may be left by a throw\<close>

lemma andThen_inv:
  assumes "I (state_of a)" and "\<And>t. a = Returned t \<Longrightarrow> I (state_of (f t))"
  shows "I (state_of (andThen a f))"
  using assms by (cases a) simp_all

lemma andThen_returned: "returned (andThen a f) = (returned a \<and> returned (f (state_of a)))"
  by (cases a) simp_all

lemma andThen_of_returned: "returned a \<Longrightarrow> andThen a f = f (state_of a)"
  by (cases a) simp_all



lemma forEach_throwing_inv:
  assumes "\<And>s x. I s \<Longrightarrow> x \<in> set xs \<Longrightarrow> I (state_of (f s x))" and "I s"
  shows "I (state_of (forEach f s xs))"
proof -
  have "I (state_of (forEach f s ys))" if "set ys \<subseteq> set xs" "I s" for ys s
    using that
  proof (induction ys arbitrary: s)
    case Nil
    then show ?case by simp
  next
    case (Cons y ys)
    have 1: "I (state_of (f s y))" using Cons.prems assms(1) by simp
    show ?case
    proof (cases "f s y")
      case (Returned t)
      then show ?thesis using Cons 1 by simp
    next
      case (Threw t)
      then show ?thesis using 1 by simp
    qed
  qed
  then show ?thesis using assms(2) by blast
qed

lemma forEach_throwing_returned:
  assumes "\<And>s x. returned (f s x)"
  shows "returned (forEach f s xs)"
proof (induction xs arbitrary: s)
  case Nil
  then show ?case by simp
next
  case (Cons x xs)
  then show ?case using assms[of s x] by (cases "f s x") simp_all
qed

lemma forEach_elements_throwing_inv:
  assumes "\<And>s k d. I s \<Longrightarrow> map_of (elements s) k = Some d \<Longrightarrow> I (state_of (f s d))" and "I s"
  shows "I (state_of (forEach_elements_throwing f ks s))"
  using assms(2)
proof (induction ks arbitrary: s)
  case Nil
  then show ?case by simp
next
  case (Cons k ks)
  show ?case
  proof (cases "map_of (elements s) k")
    case None
    then show ?thesis using Cons by simp
  next
    case (Some d)
    have 1: "I (state_of (f s d))" using Cons.prems Some by (rule assms(1))
    show ?thesis
    proof (cases "f s d")
      case (Returned t)
      then show ?thesis using Some Cons.IH 1 by simp
    next
      case (Threw t)
      then show ?thesis using Some 1 by simp
    qed
  qed
qed

lemma forEach_elements_throwing_returned:
  assumes "\<And>s d. returned (f s d)"
  shows "returned (forEach_elements_throwing f ks s)"
proof (induction ks arbitrary: s)
  case Nil
  then show ?case by simp
next
  case (Cons k ks)
  show ?case
  proof (cases "map_of (elements s) k")
    case None
    then show ?thesis using Cons by simp
  next
    case (Some d)
    then show ?thesis using Cons assms[of s d] by (cases "f s d") simp_all
  qed
qed

subsection \<open>Records are stored under their own element\<close>

lemma keyed_lookup: "keyed al \<Longrightarrow> map_of al k = Some d \<Longrightarrow> element d = k"
  by (induction al) (auto simp: keyed_def split: if_splits)

lemma keyed_delete: "keyed al \<Longrightarrow> keyed (AList.delete k al)"
  by (induction al) (auto simp: keyed_def AList.delete_eq)

lemma keyed_update: "keyed al \<Longrightarrow> element d = k \<Longrightarrow> keyed (AList.update k d al)"
  by (induction al) (auto simp: keyed_def)

lemma keyed_map_entry:
  "keyed al \<Longrightarrow> (\<And>d. element (f d) = element d) \<Longrightarrow> keyed (AList.map_entry k f al)"
  by (induction al) (auto simp: keyed_def)

lemma delete_map_entry: "AList.delete k (AList.map_entry k f al) = AList.delete k al"
  by (induction al) (auto simp: AList.delete_eq)

lemma map_of_delete: "map_of (AList.delete k al) k' = (if k' = k then None else map_of al k')"
  by (simp add: AList.delete_conv')

lemma map_of_update: "map_of (AList.update k v al) k' = (if k' = k then Some v else map_of al k')"
  by (simp add: AList.update_conv')

lemma map_of_map_entry:
  "map_of (AList.map_entry k f al) k' =
     (if k' = k then map_option f (map_of al k) else map_of al k')"
  by (induction al) auto

lemma map_entry_Nil [simp]: "(AList.map_entry k f al = []) = (al = [])"
  by (cases al) auto

lemma wellFormed_lookup: "wellFormed s \<Longrightarrow> map_of (elements s) k = Some d \<Longrightarrow> element d = k"
  unfolding wellFormed_def by (rule keyed_lookup)

subsection \<open>The registry and the trace after unregister and callCallback\<close>

lemma removeGlobalListeners_elements [simp]:
  "elements (removeGlobalListeners s) = elements s" "trace (removeGlobalListeners s) = trace s"
  by (simp_all add: removeGlobalListeners_def)

lemma clearPendingTimeout_elements [simp]:
  "elements (clearPendingTimeout d s) = elements s"
  by (simp add: clearPendingTimeout_def split: option.splits)

lemma clearPendingTimeout_count [simp]:
  "callbackInvocations e (clearPendingTimeout d s) = callbackInvocations e s"
  by (simp add: clearPendingTimeout_def callbackInvocations_def split: option.splits)

lemma unregister_elements: "elements (unregister s x r) = AList.delete x (elements s)"
proof (cases "map_of (elements s) x")
  case None
  then have "x \<notin> fst ` set (elements s)" by (simp add: map_of_eq_None_iff)
  with None show ?thesis by (simp add: unregister_def)
next
  case (Some d)
  then show ?thesis by (simp add: unregister_def Let_def)
qed

lemma unregister_count [simp]:
  "callbackInvocations e (unregister s x r) = callbackInvocations e s"
proof -
  have a: "callbackInvocations e (removeGlobalListeners t) = callbackInvocations e t" for t
    by (simp add: callbackInvocations_def)
  have b: "callbackInvocations e (t\<lparr>positionObserver := p\<rparr>) = callbackInvocations e t" for t p
    by (simp add: callbackInvocations_def)
  have c: "callbackInvocations e (t\<lparr>elements := p\<rparr>) = callbackInvocations e t" for t p
    by (simp add: callbackInvocations_def)
  show ?thesis
    by (simp add: unregister_def Let_def a b c split: option.splits)
qed

lemma unregister_keeps:
  assumes "\<And>s t. V (s\<lparr>trace := t\<rparr>) = V s"
    and "\<And>s x. V (s\<lparr>elements := x\<rparr>) = V s"
    and "\<And>s x. V (s\<lparr>positionObserver := x\<rparr>) = V s"
    and "\<And>s. V (removeGlobalListeners s) = V s"
  shows "V (unregister s e r) = V s"
proof -
  have em: "V (emit s ev) = V s" for s ev by (rule emit_keeps) (rule assms(1))
  have ct: "V (clearPendingTimeout d s) = V s" for d s
    by (simp add: clearPendingTimeout_def assms(1) split: option.splits)
  show ?thesis
    by (simp add: unregister_def Let_def assms em ct split: option.splits)
qed

text \<open>Whether a call of \<^verbatim>\<open>callCallback\<close> returns, and the state it leaves.\<close>

lemma callCallback_None [simp]: "callCallback E s None h = Returned s"
  by (simp add: callCallback_def)

lemma callCallback_returned:
  "returned (callCallback E s (Some d) h) =
     (\<not> callbackThrows E (callback d) (element d) \<and>
      \<not> hookThrows E (onAnyCallbackFired (globalSettings s)) (element d))"
  by (simp add: callCallback_def updateHitCounters_def Let_def)

lemma callCallback_elements:
  "elements (state_of (callCallback E s (Some d) h)) =
     (if returned (callCallback E s (Some d) h) then AList.delete (element d) (elements s)
      else AList.map_entry (element d) (\<lambda>x. x\<lparr>callbackHits := bump h (callbackHits d)\<rparr>)
             (elements s))"
  by (simp add: callCallback_def updateHitCounters_def Let_def unregister_elements
      delete_map_entry)

lemma callCallback_count:
  "callbackInvocations e (state_of (callCallback E s (Some d) h)) =
     callbackInvocations e s + (if element d = e then 1 else 0)"
  by (simp add: callCallback_def updateHitCounters_def Let_def)
     (simp add: callbackInvocations_def)

lemma callCallback_keeps:
  assumes "\<And>s t. V (s\<lparr>trace := t\<rparr>) = V s"
    and "\<And>s x. V (s\<lparr>elements := x\<rparr>) = V s"
    and "\<And>s x. V (s\<lparr>positionObserver := x\<rparr>) = V s"
    and "\<And>s x. V (s\<lparr>globalCallbackHits := x\<rparr>) = V s"
    and "\<And>s. V (removeGlobalListeners s) = V s"
  shows "V (state_of (callCallback E s d h)) = V s"
proof -
  have em: "V (emit s ev) = V s" for s ev by (rule emit_keeps) (rule assms(1))
  have un: "V (unregister s e r) = V s" for s e r
    by (rule unregister_keeps) (rule assms)+
  show ?thesis
    by (simp add: callCallback_def updateHitCounters_def Let_def assms em un split: option.splits)
qed

lemma callCallback_wellFormed:
  "wellFormed s \<Longrightarrow> wellFormed (state_of (callCallback E s d h))"
  by (cases d) (simp_all add: wellFormed_def callCallback_elements keyed_delete keyed_map_entry)

lemma callCallback_lookup:
  "map_of (elements (state_of (callCallback E s (Some d) h))) k =
     (if k = element d
      then (if returned (callCallback E s (Some d) h) then None
            else map_option (\<lambda>x. x\<lparr>callbackHits := bump h (callbackHits d)\<rparr>)
                   (map_of (elements s) k))
      else map_of (elements s) k)"
  by (simp add: callCallback_elements map_of_delete map_of_map_entry)

lemma callCallback_registered:
  "registered k (state_of (callCallback E s (Some d) h)) =
     (registered k s \<and> \<not> (k = element d \<and> returned (callCallback E s (Some d) h)))"
  by (auto simp: registered_def callCallback_lookup)

lemma updatePointerState_same [simp]:
  "elements (updatePointerState E s m) = elements s"
  "trace (updatePointerState E s m) = trace s"
  by (simp_all add: updatePointerState_def Let_def split: prod.splits)

lemma updatePointerState_view [simp]:
  "wellFormed (updatePointerState E s m) = wellFormed s"
  "registered e (updatePointerState E s m) = registered e s"
  "callbackInvocations e (updatePointerState E s m) = callbackInvocations e s"
  by (simp_all add: wellFormed_def registered_def callbackInvocations_def)

lemma decide_same [simp]:
  "elements (fst (decideScrollDirection E s a b)) = elements s"
  "elements (fst (decidePredictedScrollPoint E s dir)) = elements s"
  by (simp_all add: decideScrollDirection_def decidePredictedScrollPoint_def Let_def
      split: option.splits)


lemma decide_registered [simp]:
  "registered k (fst (decideScrollDirection E s a b)) = registered k s"
  "registered k (fst (decidePredictedScrollPoint E s dir)) = registered k s"
  by (simp_all add: registered_def)

lemma decide_wellFormed [simp]:
  "wellFormed (fst (decideScrollDirection E s a b)) = wellFormed s"
  "wellFormed (fst (decidePredictedScrollPoint E s dir)) = wellFormed s"
  by (simp_all add: wellFormed_def)

lemma updateElementBounds_registered:
  "registered k (updateElementBounds E s r d) = (k = element d \<or> registered k s)"
  by (auto simp: updateElementBounds_def Let_def registered_def map_of_update)

section \<open>Invariants of the handlers\<close>

text \<open>
  A property \<open>I\<close> of the state that the pieces of a handler keep is kept by the
  handler, whether it returns or is left by a throw. The pieces are named by the
  assumptions. \<open>Q k d\<close> is what \<open>I\<close> tells about a record \<open>d\<close> stored under the key
  \<open>k\<close>; the assumptions on firing and on writing a record may use it.
\<close>

lemma handleCallbackInteraction_inv:
  assumes "I s" and "\<And>h. I (state_of (callCallback E s (Some d) h))"
  shows "I (state_of (handleCallbackInteraction E s d))"
  using assms by (simp add: handleCallbackInteraction_def Let_def)

lemma handleMouseMove_inv_base:
  assumes L: "\<And>t k d. I t \<Longrightarrow> map_of (elements t) k = Some d \<Longrightarrow> Q k d"
    and P: "I (updatePointerState E s m)"
    and C: "\<And>t k d h. I t \<Longrightarrow> registered k t \<Longrightarrow> Q k d \<Longrightarrow>
              I (state_of (callCallback E t (Some d) h))"
    and Em: "\<And>t ev. I t \<Longrightarrow> I (emit t ev)"
  shows "I (state_of (handleMouseMove E s m))"
proof -
  let ?body = "\<lambda>s currentData. if \<not> isIntersectingWithViewport currentData then Returned s
                 else handleCallbackInteraction E s currentData"
  let ?s1 = "updatePointerState E s m"
  have body: "I (state_of (?body t d))" if t: "I t" and l: "map_of (elements t) k = Some d" for t k d
  proof -
    have r: "registered k t" using l by (simp add: registered_def)
    have q: "Q k d" using t l by (rule L)
    have "I (state_of (handleCallbackInteraction E t d))"
    proof (rule handleCallbackInteraction_inv[where I = I, OF t])
      fix h show "I (state_of (callCallback E t (Some d) h))" using t r q by (rule C)
    qed
    then show ?thesis using t by simp
  qed
  have loop: "I (state_of (forEach_elements_throwing ?body ks ?s1))" for ks
  proof (rule forEach_elements_throwing_inv[where I = I])
    show "I ?s1" by (rule P)
  next
    fix t k d
    assume "I t" "map_of (elements t) k = Some d"
    then show "I (state_of (?body t d))" by (rule body)
  qed
  show ?thesis
    unfolding handleMouseMove_def Let_def
  proof (rule andThen_inv[where I = I])
    show "I (state_of (forEach_elements_throwing ?body (map fst (elements ?s1)) ?s1))"
      by (rule loop)
  next
    fix t
    assume "forEach_elements_throwing ?body (map fst (elements ?s1)) ?s1 = Returned t"
    then have "I t" using loop[of "map fst (elements ?s1)"] by simp
    then have "I (emit t (MouseTrajectoryUpdateEvent
                 (enableMousePrediction (globalSettings t)) (trajectoryPositions t)))"
      by (rule Em)
    then show "I (state_of (Returned (emit t (MouseTrajectoryUpdateEvent
                 (enableMousePrediction (globalSettings t)) (trajectoryPositions t)))))"
      by simp
  qed
qed

lemma fire_lookup_inv:
  assumes L: "\<And>t k d. I t \<Longrightarrow> map_of (elements t) k = Some d \<Longrightarrow> Q k d"
    and C: "\<And>t k d h. I t \<Longrightarrow> registered k t \<Longrightarrow> Q k d \<Longrightarrow>
              I (state_of (callCallback E t (Some d) h))"
    and t: "I t"
  shows "I (state_of (callCallback E t (map_of (elements t) el) h))"
proof (cases "map_of (elements t) el")
  case None
  then show ?thesis using t by simp
next
  case (Some d)
  have r: "registered el t" using Some by (simp add: registered_def)
  have q: "Q el d" using t Some by (rule L)
  from t r q have "I (state_of (callCallback E t (Some d) h))" by (rule C)
  then show ?thesis using Some by simp
qed

lemma handleFocusIn_inv_base:
  assumes L: "\<And>t k d. I t \<Longrightarrow> map_of (elements t) k = Some d \<Longrightarrow> Q k d"
    and I0: "I s"
    and F1: "\<And>t c. I t \<Longrightarrow> I (t\<lparr>tabbableElementsCache := c\<rparr>)"
    and F2: "\<And>t i k. I t \<Longrightarrow> I (t\<lparr>lastFocusedIndex := i, lastKeyDown := k\<rparr>)"
    and C: "\<And>t k d h. I t \<Longrightarrow> registered k t \<Longrightarrow> Q k d \<Longrightarrow>
              I (state_of (callCallback E t (Some d) h))"
  shows "I (state_of (handleFocusIn E s tg))"
proof (cases "lastKeyDown s")
  case None
  then show ?thesis using I0 by (simp add: handleFocusIn_def)
next
  case (Some lastKey)
  show ?thesis
  proof (cases "enableTabPrediction (globalSettings s)")
    case False
    then show ?thesis using I0 Some by (simp add: handleFocusIn_def)
  next
    case True
    show ?thesis
    proof (cases tg)
      case OtherTarget
      then show ?thesis using I0 Some by (simp add: handleFocusIn_def)
    next
      case (HTMLElement targetElement)
      let ?s1 = "if tabbableElementsCache s = [] then s\<lparr>tabbableElementsCache := tabbable E\<rparr> else s"
      let ?i = "getFocusedElementIndex E (shiftKey lastKey) (lastFocusedIndex ?s1)
                  (tabbableElementsCache ?s1) targetElement"
      let ?s2 = "?s1\<lparr>lastFocusedIndex := Some ?i, lastKeyDown := None\<rparr>"
      let ?f = "\<lambda>s el. callCallback E s (map_of (elements s) el)
                          (Tab (if shiftKey lastKey then reverse else forwards))"
      have "I ?s1" using I0 F1[OF I0] by simp
      then have 2: "I ?s2" by (rule F2)
      have loop: "I (state_of (forEach ?f ?s2 xs))" for xs
      proof (rule forEach_throwing_inv[where I = I])
        show "I ?s2" by (rule 2)
      next
        fix t x
        assume "I t"
        with L C show "I (state_of (?f t x))" by (rule fire_lookup_inv[where I = I and Q = Q])
      qed
      have eq: "handleFocusIn E s tg = forEach ?f ?s2 (elementsToPredict ?s2 (shiftKey lastKey) ?i)"
        using Some True HTMLElement by (simp add: handleFocusIn_def Let_def)
      show ?thesis unfolding eq by (rule loop)
    qed
  qed
qed

lemma handleScrollPrefetch_inv:
  assumes I0: "I s" and reg: "registered k s"
    and C: "\<And>t h. I t \<Longrightarrow> registered k t \<Longrightarrow> I (state_of (callCallback E t (Some d) h))"
    and Em: "\<And>t ev. I t \<Longrightarrow> I (emit t ev)"
    and D1: "\<And>t a b. I t \<Longrightarrow> I (fst (decideScrollDirection E t a b))"
    and D2: "\<And>t dir. I t \<Longrightarrow> I (fst (decidePredictedScrollPoint E t dir))"
  shows "I (state_of (handleScrollPrefetch E s d r))"
proof (cases "enableScrollPrediction (globalSettings s)")
  case False
  then show ?thesis using I0 C[OF I0 reg] by (simp add: handleScrollPrefetch_def)
next
  case True
  show ?thesis
  proof (cases "originalRect (elementBounds d)")
    case None
    then show ?thesis using True I0 by (simp add: handleScrollPrefetch_def)
  next
    case (Some oldRect)
    obtain s1 dir where sd: "decideScrollDirection E s oldRect r = (s1, dir)" by force
    have 1: "I s1" using D1[OF I0, of oldRect r] sd by simp
    have r1: "registered k s1"
      using decide_registered(1)[of k E s oldRect r] sd reg by simp
    show ?thesis
    proof (cases "dir = none")
      case True
      then show ?thesis using \<open>enableScrollPrediction (globalSettings s)\<close> Some sd 1
        by (simp add: handleScrollPrefetch_def)
    next
      case False
      obtain s2 p where sp: "decidePredictedScrollPoint E s1 dir = (s2, p)" by force
      have 2: "I s2" using D2[OF 1, of dir] sp by simp
      have r2: "registered k s2"
        using decide_registered(2)[of k E s1 dir] sp r1 by simp
      let ?a = "if lineSegmentIntersectsRect E (currentPoint (trajectoryPositions s2)) p
                      (expandedRect (elementBounds d))
                then callCallback E s2 (Some d) (Scroll dir) else Returned s2"
      have 3: "I (state_of ?a)" using 2 C[OF 2 r2] by simp
      have "I (state_of (andThen ?a (\<lambda>s3. Returned (emit s3 (ScrollTrajectoryUpdateEvent
                (currentPoint (trajectoryPositions s3)) p)))))"
      proof (rule andThen_inv[where I = I, OF 3])
        fix t
        assume "?a = Returned t"
        then have "I t" using 3 by simp
        then show "I (state_of (Returned (emit t (ScrollTrajectoryUpdateEvent
                (currentPoint (trajectoryPositions t)) p))))"
          by (simp add: Em)
      qed
      then show ?thesis
        using \<open>enableScrollPrediction (globalSettings s)\<close> Some sd sp False
        by (simp add: handleScrollPrefetch_def)
    qed
  qed
qed

text \<open>
  In \<^verbatim>\<open>handlePositionChange\<close> the registry is written under the target of the entry
  and, by \<^verbatim>\<open>updateElementBounds\<close>, under the element of the record.
\<close>

lemma processEntry_inv_base:
  assumes L: "\<And>t k d. I t \<Longrightarrow> map_of (elements t) k = Some d \<Longrightarrow> Q k d"
    and QS: "\<And>k d d'. Q k d \<Longrightarrow> element d' = element d \<Longrightarrow> Q k d'"
    and I0: "I s"
    and U: "\<And>t k' d. I t \<Longrightarrow> registered (target entry) t \<Longrightarrow> Q (target entry) d \<Longrightarrow>
              k' = target entry \<or> k' = element d \<Longrightarrow>
              I (t\<lparr>elements := AList.update k' d (elements t)\<rparr>)"
    and C: "\<And>t d h. I t \<Longrightarrow> registered (target entry) t \<Longrightarrow> Q (target entry) d \<Longrightarrow>
              I (state_of (callCallback E t (Some d) h))"
    and Em: "\<And>t ev. I t \<Longrightarrow> I (emit t ev)"
    and D1: "\<And>t a b. I t \<Longrightarrow> I (fst (decideScrollDirection E t a b))"
    and D2: "\<And>t dir. I t \<Longrightarrow> I (fst (decidePredictedScrollPoint E t dir))"
  shows "I (state_of (processEntry E s entry))"
proof (cases "map_of (elements s) (target entry)")
  case None
  then show ?thesis using I0 by (simp add: processEntry_def)
next
  case (Some stored)
  have q0: "Q (target entry) stored" using I0 Some by (rule L)
  have r0: "registered (target entry) s" using Some by (simp add: registered_def)
  let ?d = "stored\<lparr>isIntersectingWithViewport := isIntersecting entry\<rparr>"
  let ?s1 = "s\<lparr>elements := AList.update (target entry) ?d (elements s)\<rparr>"
  let ?s2 = "if isIntersectingWithViewport stored \<noteq> isIntersecting entry
             then emit ?s1 (ElementDataUpdatedEvent ?d visibility) else ?s1"
  have q: "Q (target entry) ?d" using q0 by (rule QS) simp
  have 1: "I ?s1" using I0 r0 q by (rule U) simp
  have 2: "I ?s2" using 1 Em by simp
  have r2: "registered (target entry) ?s2" by (simp add: registered_def map_of_update)
  show ?thesis
  proof (cases "isIntersecting entry")
    case False
    then have "processEntry E s entry = Returned ?s2"
      using Some by (simp add: processEntry_def Let_def)
    then show ?thesis using 2 by (simp only: state_of.simps)
  next
    case True
    let ?r = "boundingClientRect entry"
    let ?d' = "setBounds ?r (getExpandedRect E ?r (hitSlop (elementBounds ?d))) ?d"
    let ?s3 = "updateElementBounds E ?s2 ?r ?d"
    have e': "element ?d' = element ?d" by (simp add: setBounds_def)
    have q': "Q (target entry) ?d'" using q e' by (rule QS)
    have "I (?s2\<lparr>elements := AList.update (element ?d) ?d' (elements ?s2)\<rparr>)"
      using 2 r2 q' by (rule U) (simp add: setBounds_def)
    then have "I (emit (?s2\<lparr>elements := AList.update (element ?d) ?d' (elements ?s2)\<rparr>)
                 (ElementDataUpdatedEvent ?d' bounds))"
      by (rule Em)
    then have 3: "I ?s3" by (simp only: updateElementBounds_def Let_def)
    have r3: "registered (target entry) ?s3" using r2 by (simp add: updateElementBounds_registered)
    have c: "I (state_of (callCallback E t (Some ?d) h))"
      if "I t" "registered (target entry) t" for t h
      using that q by (rule C)
    have "I (state_of (handleScrollPrefetch E ?s3 ?d ?r))"
      using 3 r3 c Em D1 D2 by (rule handleScrollPrefetch_inv[where I = I])
    moreover have "processEntry E s entry = handleScrollPrefetch E ?s3 ?d ?r"
      using Some True by (simp add: processEntry_def Let_def)
    ultimately show ?thesis by (simp only:)
  qed
qed

lemma processEntries_inv_base:
  assumes L: "\<And>t k d. I t \<Longrightarrow> map_of (elements t) k = Some d \<Longrightarrow> Q k d"
    and QS: "\<And>k d d'. Q k d \<Longrightarrow> element d' = element d \<Longrightarrow> Q k d'"
    and I0: "I s"
    and U: "\<And>t k k' d. I t \<Longrightarrow> k \<in> set (map target entries) \<Longrightarrow> registered k t \<Longrightarrow> Q k d \<Longrightarrow>
              k' = k \<or> k' = element d \<Longrightarrow>
              I (t\<lparr>elements := AList.update k' d (elements t)\<rparr>)"
    and C: "\<And>t k d h. I t \<Longrightarrow> k \<in> set (map target entries) \<Longrightarrow> registered k t \<Longrightarrow> Q k d \<Longrightarrow>
              I (state_of (callCallback E t (Some d) h))"
    and Em: "\<And>t ev. I t \<Longrightarrow> I (emit t ev)"
    and D1: "\<And>t a b. I t \<Longrightarrow> I (fst (decideScrollDirection E t a b))"
    and D2: "\<And>t dir. I t \<Longrightarrow> I (fst (decidePredictedScrollPoint E t dir))"
  shows "I (state_of (forEach (processEntry E) s entries))"
proof (rule forEach_throwing_inv[where I = I, OF _ I0])
  fix t entry
  assume t: "I t" and mem: "entry \<in> set entries"
  have in_batch: "target entry \<in> set (map target entries)" using mem by simp
  have u: "I (t'\<lparr>elements := AList.update k' d (elements t')\<rparr>)"
    if "I t'" "registered (target entry) t'" "Q (target entry) d"
       "k' = target entry \<or> k' = element d"
    for t' :: manager and d :: ForesightElementData and k'
    using that(1) in_batch that(2,3,4) by (rule U)
  have c: "I (state_of (callCallback E t' (Some d) h))"
    if "I t'" "registered (target entry) t'" "Q (target entry) d"
    for t' :: manager and d :: ForesightElementData and h
    using that(1) in_batch that(2,3) by (rule C)
  show "I (state_of (processEntry E t entry))"
    using L QS t u c Em D1 D2 by (rule processEntry_inv_base[where I = I and Q = Q])
qed

lemma handlePositionChange_inv_base:
  assumes L: "\<And>t k d. I t \<Longrightarrow> map_of (elements t) k = Some d \<Longrightarrow> Q k d"
    and QS: "\<And>k d d'. Q k d \<Longrightarrow> element d' = element d \<Longrightarrow> Q k d'"
    and I0: "I s"
    and U: "\<And>t k k' d. I t \<Longrightarrow> k \<in> set (map target entries) \<Longrightarrow> registered k t \<Longrightarrow> Q k d \<Longrightarrow>
              k' = k \<or> k' = element d \<Longrightarrow>
              I (t\<lparr>elements := AList.update k' d (elements t)\<rparr>)"
    and C: "\<And>t k d h. I t \<Longrightarrow> k \<in> set (map target entries) \<Longrightarrow> registered k t \<Longrightarrow> Q k d \<Longrightarrow>
              I (state_of (callCallback E t (Some d) h))"
    and Em: "\<And>t ev. I t \<Longrightarrow> I (emit t ev)"
    and D1: "\<And>t a b. I t \<Longrightarrow> I (fst (decideScrollDirection E t a b))"
    and D2: "\<And>t dir. I t \<Longrightarrow> I (fst (decidePredictedScrollPoint E t dir))"
    and R: "\<And>t. I t \<Longrightarrow> I (t\<lparr>scrollDirection := None, predictedScrollPoint := None\<rparr>)"
  shows "I (state_of (handlePositionChange E s entries))"
proof -
  have loop: "I (state_of (forEach (processEntry E) s entries))"
    using L QS I0 U C Em D1 D2 by (rule processEntries_inv_base[where I = I and Q = Q])
  show ?thesis
    unfolding handlePositionChange_def
  proof (rule andThen_inv[where I = I, OF loop])
    fix t
    assume "forEach (processEntry E) s entries = Returned t"
    then have "I t" using loop by simp
    then show "I (state_of (Returned (t\<lparr>scrollDirection := None, predictedScrollPoint := None\<rparr>)))"
      by (simp add: R)
  qed
qed

subsection \<open>For properties that imply a well-formed registry\<close>

lemma handleMouseMove_inv:
  assumes W: "\<And>t. I t \<Longrightarrow> wellFormed t"
    and P: "I (updatePointerState E s m)"
    and C: "\<And>t d h. I t \<Longrightarrow> registered (element d) t \<Longrightarrow>
              I (state_of (callCallback E t (Some d) h))"
    and Em: "\<And>t ev. I t \<Longrightarrow> I (emit t ev)"
  shows "I (state_of (handleMouseMove E s m))"
proof (rule handleMouseMove_inv_base[where I = I and Q = "\<lambda>k d. element d = k"])
  fix t k d
  assume "I t" "map_of (elements t) k = Some d"
  then show "element d = k" using W wellFormed_lookup by blast
next
  fix t k and d :: ForesightElementData and h
  assume "I t" "registered k t" "element d = k"
  then show "I (state_of (callCallback E t (Some d) h))" using C by blast
qed (rule P, rule Em)

lemma handleFocusIn_inv:
  assumes W: "\<And>t. I t \<Longrightarrow> wellFormed t"
    and I0: "I s"
    and F1: "\<And>t c. I t \<Longrightarrow> I (t\<lparr>tabbableElementsCache := c\<rparr>)"
    and F2: "\<And>t i k. I t \<Longrightarrow> I (t\<lparr>lastFocusedIndex := i, lastKeyDown := k\<rparr>)"
    and C: "\<And>t d h. I t \<Longrightarrow> registered (element d) t \<Longrightarrow>
              I (state_of (callCallback E t (Some d) h))"
  shows "I (state_of (handleFocusIn E s tg))"
proof (rule handleFocusIn_inv_base[where I = I and Q = "\<lambda>k d. element d = k"])
  fix t k d
  assume "I t" "map_of (elements t) k = Some d"
  then show "element d = k" using W wellFormed_lookup by blast
next
  fix t k and d :: ForesightElementData and h
  assume "I t" "registered k t" "element d = k"
  then show "I (state_of (callCallback E t (Some d) h))" using C by blast
qed (rule I0, rule F1, assumption, rule F2, assumption)

lemma processEntries_inv:
  assumes W: "\<And>t. I t \<Longrightarrow> wellFormed t"
    and I0: "I s"
    and U: "\<And>t d. I t \<Longrightarrow> registered (element d) t \<Longrightarrow> element d \<in> set (map target entries) \<Longrightarrow>
              I (t\<lparr>elements := AList.update (element d) d (elements t)\<rparr>)"
    and C: "\<And>t d h. I t \<Longrightarrow> registered (element d) t \<Longrightarrow> element d \<in> set (map target entries) \<Longrightarrow>
              I (state_of (callCallback E t (Some d) h))"
    and Em: "\<And>t ev. I t \<Longrightarrow> I (emit t ev)"
    and D1: "\<And>t a b. I t \<Longrightarrow> I (fst (decideScrollDirection E t a b))"
    and D2: "\<And>t dir. I t \<Longrightarrow> I (fst (decidePredictedScrollPoint E t dir))"
  shows "I (state_of (forEach (processEntry E) s entries))"
proof (rule processEntries_inv_base[where I = I and Q = "\<lambda>k d. element d = k"])
  fix t k d
  assume "I t" "map_of (elements t) k = Some d"
  then show "element d = k" using W wellFormed_lookup by blast
next
  fix t k k' and d :: ForesightElementData
  assume a: "I t" "k \<in> set (map target entries)" "registered k t" "element d = k"
    "k' = k \<or> k' = element d"
  then have "k' = element d" by auto
  then show "I (t\<lparr>elements := AList.update k' d (elements t)\<rparr>)"
    using U[of t d] a by simp
next
  fix t k and d :: ForesightElementData and h
  assume a: "I t" "k \<in> set (map target entries)" "registered k t" "element d = k"
  then show "I (state_of (callCallback E t (Some d) h))" using C[of t d h] by simp
qed (simp, rule I0, (rule Em D1 D2, assumption)+)

lemma handlePositionChange_inv:
  assumes W: "\<And>t. I t \<Longrightarrow> wellFormed t"
    and I0: "I s"
    and U: "\<And>t d. I t \<Longrightarrow> registered (element d) t \<Longrightarrow> element d \<in> set (map target entries) \<Longrightarrow>
              I (t\<lparr>elements := AList.update (element d) d (elements t)\<rparr>)"
    and C: "\<And>t d h. I t \<Longrightarrow> registered (element d) t \<Longrightarrow> element d \<in> set (map target entries) \<Longrightarrow>
              I (state_of (callCallback E t (Some d) h))"
    and Em: "\<And>t ev. I t \<Longrightarrow> I (emit t ev)"
    and D1: "\<And>t a b. I t \<Longrightarrow> I (fst (decideScrollDirection E t a b))"
    and D2: "\<And>t dir. I t \<Longrightarrow> I (fst (decidePredictedScrollPoint E t dir))"
    and R: "\<And>t. I t \<Longrightarrow> I (t\<lparr>scrollDirection := None, predictedScrollPoint := None\<rparr>)"
  shows "I (state_of (handlePositionChange E s entries))"
proof -
  have loop: "I (state_of (forEach (processEntry E) s entries))"
    using W I0 U C Em D1 D2 by (rule processEntries_inv[where I = I])
  show ?thesis
    unfolding handlePositionChange_def
  proof (rule andThen_inv[where I = I, OF loop])
    fix t
    assume "forEach (processEntry E) s entries = Returned t"
    then have "I t" using loop by simp
    then show "I (state_of (Returned (t\<lparr>scrollDirection := None, predictedScrollPoint := None\<rparr>)))"
      by (simp add: R)
  qed
qed

subsection \<open>For properties that do not look at the records\<close>

lemma handleMouseMove_inv_any:
  assumes P: "I (updatePointerState E s m)"
    and C: "\<And>t d h. I t \<Longrightarrow> I (state_of (callCallback E t (Some d) h))"
    and Em: "\<And>t ev. I t \<Longrightarrow> I (emit t ev)"
  shows "I (state_of (handleMouseMove E s m))"
  by (rule handleMouseMove_inv_base[where I = I and Q = "\<lambda>k d. True"]) (simp_all add: P C Em)

lemma handleFocusIn_inv_any:
  assumes I0: "I s"
    and F1: "\<And>t c. I t \<Longrightarrow> I (t\<lparr>tabbableElementsCache := c\<rparr>)"
    and F2: "\<And>t i k. I t \<Longrightarrow> I (t\<lparr>lastFocusedIndex := i, lastKeyDown := k\<rparr>)"
    and C: "\<And>t d h. I t \<Longrightarrow> I (state_of (callCallback E t (Some d) h))"
  shows "I (state_of (handleFocusIn E s tg))"
  by (rule handleFocusIn_inv_base[where I = I and Q = "\<lambda>k d. True"])
     (simp_all add: I0 F1 F2 C)

lemma processEntries_inv_any:
  assumes I0: "I s"
    and U: "\<And>t k d. I t \<Longrightarrow> I (t\<lparr>elements := AList.update k d (elements t)\<rparr>)"
    and C: "\<And>t d h. I t \<Longrightarrow> I (state_of (callCallback E t (Some d) h))"
    and Em: "\<And>t ev. I t \<Longrightarrow> I (emit t ev)"
    and D1: "\<And>t a b. I t \<Longrightarrow> I (fst (decideScrollDirection E t a b))"
    and D2: "\<And>t dir. I t \<Longrightarrow> I (fst (decidePredictedScrollPoint E t dir))"
  shows "I (state_of (forEach (processEntry E) s entries))"
  by (rule processEntries_inv_base[where I = I and Q = "\<lambda>k d. True"])
     (simp_all add: I0 U C Em D1 D2)

lemma handlePositionChange_inv_any:
  assumes I0: "I s"
    and U: "\<And>t k d. I t \<Longrightarrow> I (t\<lparr>elements := AList.update k d (elements t)\<rparr>)"
    and C: "\<And>t d h. I t \<Longrightarrow> I (state_of (callCallback E t (Some d) h))"
    and Em: "\<And>t ev. I t \<Longrightarrow> I (emit t ev)"
    and D1: "\<And>t a b. I t \<Longrightarrow> I (fst (decideScrollDirection E t a b))"
    and D2: "\<And>t dir. I t \<Longrightarrow> I (fst (decidePredictedScrollPoint E t dir))"
    and R: "\<And>t. I t \<Longrightarrow> I (t\<lparr>scrollDirection := None, predictedScrollPoint := None\<rparr>)"
  shows "I (state_of (handlePositionChange E s entries))"
  by (rule handlePositionChange_inv_base[where I = I and Q = "\<lambda>k d. True"])
     (simp_all add: I0 U C Em D1 D2 R)

section \<open>Well-formed registries\<close>

lemma wellFormed_update:
  "wellFormed t \<Longrightarrow> wellFormed (t\<lparr>elements := AList.update (element d) d (elements t)\<rparr>)"
  by (simp add: wellFormed_def keyed_update)

lemma wellFormed_fields [simp]:
  "wellFormed (t\<lparr>trace := x1\<rparr>) = wellFormed t"
  "wellFormed (t\<lparr>positionObserver := x2\<rparr>) = wellFormed t"
  "wellFormed (t\<lparr>globalCallbackHits := x3\<rparr>) = wellFormed t"
  "wellFormed (t\<lparr>globalSettings := x4\<rparr>) = wellFormed t"
  "wellFormed (t\<lparr>trajectoryPositions := x5\<rparr>) = wellFormed t"
  "wellFormed (t\<lparr>tabbableElementsCache := x6\<rparr>) = wellFormed t"
  "wellFormed (t\<lparr>lastFocusedIndex := x7\<rparr>) = wellFormed t"
  "wellFormed (t\<lparr>lastKeyDown := x8\<rparr>) = wellFormed t"
  "wellFormed (t\<lparr>scrollDirection := x9\<rparr>) = wellFormed t"
  "wellFormed (t\<lparr>predictedScrollPoint := x10\<rparr>) = wellFormed t"
  "wellFormed (t\<lparr>eventListeners := x11\<rparr>) = wellFormed t"
  by (simp_all add: wellFormed_def)

lemma wellFormed_handleMouseMove:
  "wellFormed s \<Longrightarrow> wellFormed (state_of (handleMouseMove E s m))"
  by (rule handleMouseMove_inv[where I = wellFormed]) (simp_all add: callCallback_wellFormed)

lemma wellFormed_handleFocusIn:
  "wellFormed s \<Longrightarrow> wellFormed (state_of (handleFocusIn E s t))"
  by (rule handleFocusIn_inv[where I = wellFormed]) (simp_all add: callCallback_wellFormed)



lemma wellFormed_handlePositionChange:
  "wellFormed s \<Longrightarrow> wellFormed (state_of (handlePositionChange E s entries))"
  by (rule handlePositionChange_inv[where I = wellFormed])
     (simp_all add: callCallback_wellFormed wellFormed_update)

section \<open>Fire once\<close>

lemma advances_refl: "wellFormed s \<Longrightarrow> advances e s s"
  by (simp add: advances_def)

lemma advances_trans: "advances e s s' \<Longrightarrow> advances e s' s'' \<Longrightarrow> advances e s s''"
  by (auto simp: advances_def)

lemma advances_wf: "advances e s s' \<Longrightarrow> wellFormed s'"
  by (simp add: advances_def)

lemma advances_then:
  "advances e s t \<Longrightarrow> (wellFormed t \<Longrightarrow> advances e t u) \<Longrightarrow> advances e s u"
  using advances_trans advances_wf by blast

text \<open>A step that leaves the registry and the trace alone.\<close>

lemma advances_same:
  "wellFormed s \<Longrightarrow> elements s' = elements s \<Longrightarrow> trace s' = trace s \<Longrightarrow> advances e s s'"
  by (simp add: advances_def wellFormed_def registered_def callbackInvocations_def)

lemma advances_emit: "wellFormed s \<Longrightarrow> advances e s (emit s ev)"
  by (simp add: advances_def)

lemma foldl_advances:
  assumes "\<And>s x. wellFormed s \<Longrightarrow> advances e s (f s x)" and "wellFormed s"
  shows "advances e s (foldl f s xs)"
proof -
  have "advances e s (foldl f s xs) \<and> wellFormed (foldl f s xs)"
  proof (rule foldl_inv[where I = "\<lambda>t. advances e s t \<and> wellFormed t"])
    show "advances e s s \<and> wellFormed s" using assms(2) by (simp add: advances_refl)
  next
    fix t x
    assume "advances e s t \<and> wellFormed t"
    then show "advances e s (f t x) \<and> wellFormed (f t x)"
      using assms(1)[of t x] advances_trans advances_wf by blast
  qed
  then show ?thesis by simp
qed

lemma forEach_advances:
  assumes "\<And>s k d. wellFormed s \<Longrightarrow> map_of (elements s) k = Some d \<Longrightarrow> advances e s (f s d)"
    and "wellFormed s"
  shows "advances e s (forEach_elements f ks s)"
proof -
  have "advances e s (forEach_elements f ks s) \<and> wellFormed (forEach_elements f ks s)"
  proof (rule forEach_inv[where I = "\<lambda>t. advances e s t \<and> wellFormed t"])
    show "advances e s s \<and> wellFormed s" using assms(2) by (simp add: advances_refl)
  next
    fix t k d
    assume "advances e s t \<and> wellFormed t" "map_of (elements t) k = Some d"
    then show "advances e s (f t d) \<and> wellFormed (f t d)"
      using assms(1)[of t k d] advances_trans advances_wf by blast
  qed
  then show ?thesis by simp
qed

lemma advances_unregister: "wellFormed s \<Longrightarrow> advances e s (unregister s x r)"
  by (simp add: advances_def wellFormed_def registered_def unregister_elements keyed_delete
      map_of_delete)

lemma advances_update:
  assumes "wellFormed s" and "registered k s" and "element d = k"
  shows "advances e s (s\<lparr>elements := AList.update k d (elements s)\<rparr>)"
  using assms
  by (auto simp: advances_def wellFormed_def registered_def keyed_update map_of_update
      callbackInvocations_def)








lemma advances_handleDomMutations:
  assumes "wellFormed s"
  shows "advances e s (handleDomMutations E s ms)"
proof -
  have inner: "advances e t (unregisterDisconnected E t)" if "wellFormed t" for t
    unfolding unregisterDisconnected_def
    by (rule foldl_advances) (simp_all add: advances_unregister advances_refl that)
  let ?s1 = "if ms \<noteq> [] then s\<lparr>tabbableElementsCache := [], lastFocusedIndex := None\<rparr> else s"
  have 1: "advances e s ?s1" using assms by (simp add: advances_same advances_refl)
  have 2: "advances e ?s1 (foldl (\<lambda>s mutation.
             if mutation_type mutation = childList \<and> removedNodes_length mutation > 0
             then unregisterDisconnected E s else s) ?s1 ms)"
    by (rule foldl_advances) (use inner advances_refl 1 advances_wf in auto)
  show ?thesis
    unfolding handleDomMutations_def Let_def using 1 2 advances_trans by blast
qed

lemma advances_handleKeyDown: "wellFormed s \<Longrightarrow> advances e s (handleKeyDown s k)"
  by (simp add: handleKeyDown_def advances_same advances_refl)

lemma updaters_same [simp]:
  "elements (snd (updateNumericSettings s v k lo hi)) = elements s"
  "trace (snd (updateNumericSettings s v k lo hi)) = trace s"
  "elements (snd (updateBooleanSetting s b kb)) = elements s"
  "trace (snd (updateBooleanSetting s b kb)) = trace s"
  "elements (truncateHistory n c s) = elements s"
  "trace (truncateHistory n c s) = trace s"
  by (simp_all add: updateNumericSettings_def updateBooleanSetting_def truncateHistory_def
      split: option.splits)

lemma advances_forceUpdateElementBounds:
  assumes "wellFormed s" and "registered (element d) s"
  shows "advances e s (forceUpdateElementBounds E s d)"
proof -
  let ?r = "getBoundingClientRect E (element d)"
  let ?d = "setBounds ?r (getExpandedRect E ?r (hitSlop (elementBounds d))) d"
  let ?s1 = "s\<lparr>elements := AList.update (element d) ?d (elements s)\<rparr>"
  have 1: "advances e s ?s1"
    using assms by (intro advances_update) (simp_all add: setBounds_def)
  then have "advances e s (emit ?s1 ev)" for ev
    using advances_then advances_emit by blast
  then show ?thesis
    using assms(1) by (simp add: forceUpdateElementBounds_def Let_def advances_refl)
qed

lemma advances_forceUpdateAllElementBounds:
  assumes "wellFormed s"
  shows "advances e s (forceUpdateAllElementBounds E s)"
  unfolding forceUpdateAllElementBounds_def
proof (rule forEach_advances[OF _ assms])
  fix t k d
  assume w: "wellFormed t" and l: "map_of (elements t) k = Some d"
  then have "element d = k" by (rule wellFormed_lookup)
  with l have "registered (element d) t" by (simp add: registered_def)
  with w show "advances e t (if isIntersectingWithViewport d then forceUpdateElementBounds E t d else t)"
    by (simp add: advances_forceUpdateElementBounds advances_refl)
qed

lemma advances_post:
  "advances e s t \<Longrightarrow> advances e s (snd (updateNumericSettings t v k lo hi))"
  "advances e s t \<Longrightarrow> advances e s (snd (updateBooleanSetting t b kb))"
  "advances e s t \<Longrightarrow> advances e s (truncateHistory n c t)"
  "advances e s t \<Longrightarrow> advances e s (t\<lparr>globalSettings := g\<rparr>)"
  "advances e s t \<Longrightarrow> advances e s (emit t ev)"
  "advances e s t \<Longrightarrow> advances e s (forceUpdateAllElementBounds E t)"
  by (erule advances_then, simp add: advances_same advances_emit
      advances_forceUpdateAllElementBounds)+

lemma advances_updateDefaultHitSlop:
  "advances e s t \<Longrightarrow> advances e s (snd (updateDefaultHitSlop E h t))"
  by (simp add: updateDefaultHitSlop_def Let_def advances_post split: option.splits)

lemma advances_alterGlobalSettings:
  assumes "wellFormed s"
  shows "advances e s (alterGlobalSettings E s props)"
  by (simp add: alterGlobalSettings_def Let_def split_beta advances_post
      advances_updateDefaultHitSlop advances_refl[OF assms] split: option.splits)

lemma initializeGlobalListeners_same [simp]:
  "elements (initializeGlobalListeners E s) = elements s"
  "trace (initializeGlobalListeners E s) = trace s"
  by (simp_all add: initializeGlobalListeners_def Let_def)

lemma advances_register:
  assumes "wellFormed s" and "opt_element opts \<noteq> e"
  shows "advances e s (fst (register E s opts))"
proof -
  obtain a b c where rc: "evaluateRegistrationConditions E = (a, b, c)"
    using prod_cases3 by blast
  let ?s1 = "if \<not> isSetup s then initializeGlobalListeners E s else s"
  let ?d = "newElementData E ?s1 opts"
  let ?s2 = "?s1\<lparr>elements := AList.update (opt_element opts) ?d (elements ?s1)\<rparr>"
  let ?s3 = "?s2\<lparr>positionObserver := observe (opt_element opts) (positionObserver ?s2)\<rparr>"
  have "wellFormed ?s3"
    using assms(1) by (simp add: wellFormed_def keyed_update newElementData_def)
  moreover have "registered e ?s3 = registered e s"
    using assms(2) by (simp add: registered_def map_of_update)
  moreover have "callbackInvocations e ?s3 = callbackInvocations e s"
    by (simp add: callbackInvocations_def)
  ultimately have "advances e s ?s3" by (simp add: advances_def)
  then have "advances e s (emit ?s3 ev)" for ev by (rule advances_post)
  then show ?thesis
    using assms(1) rc by (simp add: register_def Let_def advances_refl)
qed

lemma advances_listeners:
  "wellFormed s \<Longrightarrow> advances e s (addEventListener s ty l a)"
  "wellFormed s \<Longrightarrow> advances e s (removeEventListener s ty l)"
  by (simp_all add: addEventListener_def removeEventListener_def Let_def advances_same
      advances_refl split: option.splits)



text \<open>Every state the manager reaches from its initial state is well formed.\<close>

lemma wellFormed_initial: "wellFormed (initialManager E)"
  by (simp add: wellFormed_def keyed_def initialManager_def)

lemma wellFormed_register: "wellFormed s \<Longrightarrow> wellFormed (fst (register E s opts))"
  using advances_register[of s opts "Suc (opt_element opts)" E] by (simp add: advances_def)

lemma wellFormed_step:
  assumes "wellFormed s"
  shows "wellFormed (step s x)"
proof -
  obtain E st where x: "x = (E, st)" by force
  have a: "wellFormed t" if "advances 0 s t" for t using that by (rule advances_wf)
  show ?thesis
    unfolding x using assms
    by (cases st)
       (simp_all add: wellFormed_register a advances_unregister advances_alterGlobalSettings
         advances_listeners advances_handleKeyDown advances_handleDomMutations
         wellFormed_handleMouseMove wellFormed_handleFocusIn wellFormed_handlePositionChange)
qed

lemma wellFormed_run: "wellFormed s \<Longrightarrow> wellFormed (run s stimuli)"
  unfolding run_def by (induction stimuli arbitrary: s) (simp_all add: wellFormed_step)

section \<open>An element that is not registered stays silent\<close>










section \<open>What a handler fires\<close>

subsection \<open>When nothing throws, every handler returns\<close>

lemma quiet_callCallback: "quiet E \<Longrightarrow> returned (callCallback E s d h)"
  by (cases d) (simp_all add: callCallback_returned quiet_def spares_def)


lemma quiet_handleCallbackInteraction: "quiet E \<Longrightarrow> returned (handleCallbackInteraction E s d)"
  by (simp add: handleCallbackInteraction_def Let_def quiet_callCallback)

lemma quiet_handleMouseMove: "quiet E \<Longrightarrow> returned (handleMouseMove E s m)"
  by (simp add: handleMouseMove_def Let_def andThen_returned
      forEach_elements_throwing_returned quiet_handleCallbackInteraction)

lemma quiet_handleFocusIn: "quiet E \<Longrightarrow> returned (handleFocusIn E s t)"
  by (simp add: handleFocusIn_def Let_def forEach_throwing_returned quiet_callCallback
      split: option.splits EventTarget.splits)





subsection \<open>Fields that unregister and callCallback leave alone\<close>

lemma pointerView_callCallback [simp]:
  "pointerView (state_of (callCallback E s d h)) = pointerView s"
  by (rule callCallback_keeps) (simp_all add: pointerView_def removeGlobalListeners_def)

lemma pointerView_unregister [simp]: "pointerView (unregister s e r) = pointerView s"
  by (rule unregister_keeps) (simp_all add: pointerView_def removeGlobalListeners_def)

lemma pointerView_emit [simp]: "pointerView (emit s ev) = pointerView s"
  by (rule emit_keeps) (simp add: pointerView_def)

lemma scrollView_emit [simp]: "scrollView (emit s ev) = scrollView s"
  by (simp add: scrollView_def directionComputations_def pointComputations_def emit_trace
      filter_deliveries)

lemma scrollView_unregister [simp]: "scrollView (unregister s e r) = scrollView s"
proof -
  have a: "scrollView (removeGlobalListeners t) = scrollView t" for t
    by (simp add: scrollView_def removeGlobalListeners_def directionComputations_def
        pointComputations_def)
  have b: "scrollView (clearPendingTimeout d t) = scrollView t" for t d
    by (simp add: scrollView_def clearPendingTimeout_def directionComputations_def
        pointComputations_def split: option.splits)
  have c: "scrollView (t\<lparr>positionObserver := p\<rparr>) = scrollView t" for t p
    by (simp add: scrollView_def directionComputations_def pointComputations_def)
  have d: "scrollView (t\<lparr>elements := p\<rparr>) = scrollView t" for t p
    by (simp add: scrollView_def directionComputations_def pointComputations_def)
  show ?thesis
    by (simp add: unregister_def Let_def a b c d split: option.splits)
qed

lemma scrollView_callCallback [simp]:
  "scrollView (state_of (callCallback E s d h)) = scrollView s"
proof (cases d)
  case None
  then show ?thesis by simp
next
  case (Some d0)
  show ?thesis
    using Some
    by (simp add: callCallback_def updateHitCounters_def Let_def)
       (simp add: scrollView_def directionComputations_def pointComputations_def)
qed

lemma globalCallbackHits_unregister [simp]:
  "globalCallbackHits (unregister s e r) = globalCallbackHits s"
  by (rule unregister_keeps) (simp_all add: removeGlobalListeners_def)


subsection \<open>Pointer moves\<close>

lemma pointerTest_view: "pointerView s = pointerView t \<Longrightarrow> pointerTest E s r = pointerTest E t r"
  by (simp add: pointerView_def pointerTest_def)

lemma mouseHit_cong:
  "map_of (elements t) e = map_of (elements s) e \<Longrightarrow> pointerView t = pointerView s \<Longrightarrow>
     mouseHit E t e = mouseHit E s e"
  using pointerTest_view[of t s E] by (simp add: mouseHit_def split: option.splits)

lemma handleCallbackInteraction_eq:
  "handleCallbackInteraction E s d =
     (if pointerTest E s (expandedRect (elementBounds d))
      then callCallback E s (Some d)
             (Mouse (if enableMousePrediction (globalSettings s) then trajectory else hover))
      else Returned s)"
  by (simp add: handleCallbackInteraction_def pointerTest_def Let_def)

lemma pointerView_handleCallbackInteraction [simp]:
  "pointerView (state_of (handleCallbackInteraction E s d)) = pointerView s"
  by (simp add: handleCallbackInteraction_eq)

text \<open>
  One turn of the \<^verbatim>\<open>forEach\<close> of \<^verbatim>\<open>handleMouseMove\<close> on the stored record of \<open>k\<close>, when
  nothing throws.
\<close>

lemma mouse_turn:
  assumes q: "quiet E" and wf: "wellFormed s" and l: "map_of (elements s) k = Some d"
  defines "a \<equiv> (if \<not> isIntersectingWithViewport d then Returned s
                 else handleCallbackInteraction E s d)"
  shows "returned a" and "wellFormed (state_of a)" and "pointerView (state_of a) = pointerView s"
    and "map_of (elements (state_of a)) x =
           (if x = k \<and> mouseHit E s k then None else map_of (elements s) x)"
    and "callbackInvocations x (state_of a) =
           callbackInvocations x s + (if x = k \<and> mouseHit E s k then 1 else 0)"
proof -
  have el: "element d = k" using wf l by (rule wellFormed_lookup)
  have hit: "mouseHit E s k =
      (isIntersectingWithViewport d \<and> pointerTest E s (expandedRect (elementBounds d)))"
    using l by (simp add: mouseHit_def)
  show "returned a" using q by (simp add: a_def quiet_handleCallbackInteraction)
  show "wellFormed (state_of a)"
    using wf by (simp add: a_def handleCallbackInteraction_eq callCallback_wellFormed)
  show "pointerView (state_of a) = pointerView s" by (simp add: a_def)
  have r: "returned (callCallback E s (Some d) h)" for h using q by (rule quiet_callCallback)
  show "map_of (elements (state_of a)) x =
           (if x = k \<and> mouseHit E s k then None else map_of (elements s) x)"
    by (simp add: a_def handleCallbackInteraction_eq hit callCallback_lookup r el)
  show "callbackInvocations x (state_of a) =
           callbackInvocations x s + (if x = k \<and> mouseHit E s k then 1 else 0)"
    by (auto simp: a_def handleCallbackInteraction_eq hit callCallback_count el)
qed

lemma mouse_loop:
  assumes q: "quiet E" and wf: "wellFormed s"
  shows "returned (forEach_elements_throwing
            (\<lambda>s currentData. if \<not> isIntersectingWithViewport currentData then Returned s
                              else handleCallbackInteraction E s currentData) ks s)
       \<and> map_of (elements (state_of (forEach_elements_throwing
            (\<lambda>s currentData. if \<not> isIntersectingWithViewport currentData then Returned s
                              else handleCallbackInteraction E s currentData) ks s))) e
           = (if e \<in> set ks \<and> mouseHit E s e then None else map_of (elements s) e)
       \<and> callbackInvocations e (state_of (forEach_elements_throwing
            (\<lambda>s currentData. if \<not> isIntersectingWithViewport currentData then Returned s
                              else handleCallbackInteraction E s currentData) ks s))
           = callbackInvocations e s + (if e \<in> set ks \<and> mouseHit E s e then 1 else 0)"
  using wf
proof (induction ks arbitrary: s)
  case Nil
  then show ?case by simp
next
  case (Cons k ks)
  let ?body = "\<lambda>s currentData. if \<not> isIntersectingWithViewport currentData then Returned s
                              else handleCallbackInteraction E s currentData"
  show ?case
  proof (cases "map_of (elements s) k")
    case None
    then have nh: "\<not> mouseHit E s k" by (simp add: mouseHit_def)
    have "forEach_elements_throwing ?body (k # ks) s = forEach_elements_throwing ?body ks s"
      using None by simp
    then show ?thesis
      using Cons.IH[OF Cons.prems] nh by auto
  next
    case (Some d)
    note T = mouse_turn[OF q Cons.prems Some]
    let ?s' = "state_of (?body s d)"
    have step: "forEach_elements_throwing ?body (k # ks) s = forEach_elements_throwing ?body ks ?s'"
      using Some T(1) by (simp add: andThen_of_returned)
    note IH = Cons.IH[OF T(2)]
    have hit': "mouseHit E ?s' e = (mouseHit E s e \<and> \<not> (e = k \<and> mouseHit E s k))"
    proof (cases "e = k \<and> mouseHit E s k")
      case True
      then have "map_of (elements ?s') e = None" using T(4)[of e] by simp
      then show ?thesis using True by (simp add: mouseHit_def)
    next
      case False
      then have "map_of (elements ?s') e = map_of (elements s) e" using T(4)[of e] by auto
      then have "mouseHit E ?s' e = mouseHit E s e" using T(3) by (rule mouseHit_cong)
      then show ?thesis using False by auto
    qed
    show ?thesis
      unfolding step using IH T(4)[of e] T(5)[of e] hit' by auto
  qed
qed

lemma handleMouseMove_count:
  assumes "quiet E" and "wellFormed s"
  shows "callbackInvocations e (state_of (handleMouseMove E s m))
          = callbackInvocations e s + (if mouseHit E (updatePointerState E s m) e then 1 else 0)"
    and "map_of (elements (state_of (handleMouseMove E s m))) e
          = (if mouseHit E (updatePointerState E s m) e then None else map_of (elements s) e)"
proof -
  let ?s1 = "updatePointerState E s m"
  let ?body = "\<lambda>s currentData. if \<not> isIntersectingWithViewport currentData then Returned s
                              else handleCallbackInteraction E s currentData"
  let ?a = "forEach_elements_throwing ?body (map fst (elements ?s1)) ?s1"
  have w1: "wellFormed ?s1" using assms(2) by simp
  note L = mouse_loop[OF assms(1) w1, of "map fst (elements ?s1)" e]
  have mem: "e \<in> set (map fst (elements ?s1))" if "mouseHit E ?s1 e"
  proof -
    have "map_of (elements ?s1) e \<noteq> None"
      using that by (auto simp: mouseHit_def split: option.splits)
    then show ?thesis using map_of_eq_None_iff[of "elements ?s1" e] by auto
  qed
  have eq: "state_of (handleMouseMove E s m)
       = emit (state_of ?a) (MouseTrajectoryUpdateEvent
            (enableMousePrediction (globalSettings (state_of ?a))) (trajectoryPositions (state_of ?a)))"
    using L by (simp add: handleMouseMove_def Let_def andThen_of_returned)
  show "callbackInvocations e (state_of (handleMouseMove E s m))
          = callbackInvocations e s + (if mouseHit E ?s1 e then 1 else 0)"
    unfolding eq using L mem by auto
  show "map_of (elements (state_of (handleMouseMove E s m))) e
          = (if mouseHit E ?s1 e then None else map_of (elements s) e)"
    unfolding eq using L mem by auto
qed

subsection \<open>Focus changes\<close>


lemma globalSettings_callCallback [simp]:
  "globalSettings (state_of (callCallback E s d h)) = globalSettings s"
  using pointerView_callCallback[of E s d h] by (simp add: pointerView_def)











subsection \<open>Position entries\<close>















section \<open>A callback fires once, unless it throws\<close>





section \<open>There is no fire-once flag\<close>





section \<open>Tab prediction\<close>




section \<open>A fresh record is hit-tested against the zero rectangle\<close>

lemma register_fresh:
  assumes "fst (evaluateRegistrationConditions E)"
  shows "fresh (opt_element opts) (fst (register E s opts))"
proof -
  obtain b c where "evaluateRegistrationConditions E = (True, b, c)"
    using assms by (cases "evaluateRegistrationConditions E") auto
  then show ?thesis
    by (simp add: register_def Let_def fresh_def newElementData_def zeroRect_def map_of_update)
qed

lemma freshOrGone_wf: "freshOrGone e t \<Longrightarrow> wellFormed t"
  by (simp add: freshOrGone_def)

lemma freshOrGone_lookup:
  assumes "freshOrGone e t" and "wellFormed t'"
    and "map_of (elements t') e = map_of (elements t) e \<or> map_of (elements t') e = None"
  shows "freshOrGone e t'"
  using assms by (auto simp: freshOrGone_def fresh_def registered_def)

lemma freshOrGone_same:
  "freshOrGone e t \<Longrightarrow> elements t' = elements t \<Longrightarrow> freshOrGone e t'"
  by (simp add: freshOrGone_def wellFormed_def fresh_def registered_def)

lemma freshOrGone_emit: "freshOrGone e t \<Longrightarrow> freshOrGone e (emit t ev)"
  by (erule freshOrGone_same) simp

lemma freshOrGone_decide:
  "freshOrGone e t \<Longrightarrow> freshOrGone e (fst (decideScrollDirection E t a b))"
  "freshOrGone e t \<Longrightarrow> freshOrGone e (fst (decidePredictedScrollPoint E t dir))"
  by (erule freshOrGone_same, simp)+

lemma fresh_counted:
  "fresh e (t\<lparr>elements := AList.map_entry k (\<lambda>x. x\<lparr>callbackHits := c\<rparr>) (elements t)\<rparr>) = fresh e t"
  by (auto simp: fresh_def map_of_map_entry split: option.splits)

lemma freshOrGone_callCallback:
  assumes "freshOrGone e t"
  shows "freshOrGone e (state_of (callCallback E t (Some d) h))"
proof -
  let ?t = "state_of (callCallback E t (Some d) h)"
  have w: "wellFormed ?t" using assms by (simp add: freshOrGone_def callCallback_wellFormed)
  have "fresh e ?t \<or> \<not> registered e ?t"
  proof (cases "returned (callCallback E t (Some d) h)")
    case True
    then show ?thesis
      using assms
      by (auto simp: freshOrGone_def fresh_def registered_def callCallback_lookup
          split: option.splits)
  next
    case False
    then have "fresh e ?t = fresh e t"
      by (auto simp: fresh_def callCallback_lookup split: option.splits)
    moreover have "registered e ?t = registered e t"
      using False by (simp add: callCallback_registered)
    ultimately show ?thesis using assms by (simp add: freshOrGone_def)
  qed
  with w show ?thesis by (simp add: freshOrGone_def)
qed

lemma freshOrGone_update_other:
  assumes "freshOrGone e t" and "element d \<noteq> e"
  shows "freshOrGone e (t\<lparr>elements := AList.update (element d) d (elements t)\<rparr>)"
  using assms
  by (auto simp: freshOrGone_def wellFormed_def keyed_update fresh_def registered_def map_of_update)

lemma freshOrGone_unregister:
  assumes "freshOrGone e t"
  shows "freshOrGone e (unregister t x r)"
proof (rule freshOrGone_lookup[OF assms])
  show "wellFormed (unregister t x r)"
    using advances_unregister[of t e x r] assms by (simp add: freshOrGone_def advances_def)
  show "map_of (elements (unregister t x r)) e = map_of (elements t) e
        \<or> map_of (elements (unregister t x r)) e = None"
    by (simp add: unregister_elements map_of_delete)
qed

lemma freshOrGone_register:
  assumes "freshOrGone e s"
  shows "freshOrGone e (fst (register E s opts))"
proof -
  have w: "wellFormed (fst (register E s opts))"
    using assms by (simp add: freshOrGone_def wellFormed_register)
  show ?thesis
  proof (cases "opt_element opts = e \<and> fst (evaluateRegistrationConditions E)")
    case True
    then have "fresh e (fst (register E s opts))" using register_fresh[of E opts s] by simp
    with w show ?thesis by (simp add: freshOrGone_def)
  next
    case False
    have "map_of (elements (fst (register E s opts))) e = map_of (elements s) e"
      using False by (auto simp: register_def Let_def map_of_update split: prod.splits)
    with assms w show ?thesis by (intro freshOrGone_lookup[OF assms]) simp_all
  qed
qed

lemma alterGlobalSettings_elements:
  assumes "case new_defaultHitSlop props of
             None \<Rightarrow> True
           | Some h \<Rightarrow> areRectsEqual E (defaultHitSlop (globalSettings s)) (normalizeHitSlop E h)"
  shows "elements (alterGlobalSettings E s props) = elements s"
proof -
  have g: "defaultHitSlop (globalSettings (snd (updateNumericSettings t v k lo hi)))
            = defaultHitSlop (globalSettings t)" for t v k lo hi
    by (cases k) (simp_all add: updateNumericSettings_def split: option.splits)
  have b: "defaultHitSlop (globalSettings (snd (updateBooleanSetting t v k)))
            = defaultHitSlop (globalSettings t)" for t v k
    by (cases k) (simp_all add: updateBooleanSetting_def split: option.splits)
  have tr: "globalSettings (truncateHistory n c t) = globalSettings t" for n c t
    by (simp add: truncateHistory_def)
  have u: "elements (snd (updateDefaultHitSlop E (new_defaultHitSlop props) t)) = elements t"
    if "defaultHitSlop (globalSettings t) = defaultHitSlop (globalSettings s)" for t
    using assms that by (simp add: updateDefaultHitSlop_def Let_def split: option.splits)
  show ?thesis
    by (simp add: alterGlobalSettings_def Let_def split_beta u g b tr split: option.splits)
qed

lemma freshOrGone_step:
  assumes "freshOrGone e s" and "inWindow e s (E, st)"
  shows "freshOrGone e (step s (E, st))"
proof -
  have m: "freshOrGone e (state_of (handleMouseMove E s m))" for m
    by (rule handleMouseMove_inv[where I = "freshOrGone e"])
       (use assms(1) in \<open>simp_all add: freshOrGone_wf freshOrGone_callCallback freshOrGone_emit
          freshOrGone_same[where t = s]\<close>)
  have f: "freshOrGone e (state_of (handleFocusIn E s tg))" for tg
    by (rule handleFocusIn_inv[where I = "freshOrGone e"])
       (use assms(1) in \<open>simp_all add: freshOrGone_wf freshOrGone_callCallback freshOrGone_same\<close>)
  have p: "freshOrGone e (state_of (handlePositionChange E s entries))"
    if "e \<notin> set (map target entries)" for entries
  proof (rule handlePositionChange_inv[where I = "freshOrGone e"])
    fix t and d :: ForesightElementData
    assume "freshOrGone e t" "element d \<in> set (map target entries)"
    then show "freshOrGone e (t\<lparr>elements := AList.update (element d) d (elements t)\<rparr>)"
      using that by (intro freshOrGone_update_other) auto
  qed (use assms(1) in \<open>simp_all add: freshOrGone_wf freshOrGone_callCallback freshOrGone_emit
          freshOrGone_decide freshOrGone_same\<close>)
  have dm: "freshOrGone e (handleDomMutations E s ms)" for ms
  proof -
    have inner: "freshOrGone e (unregisterDisconnected E t)" if "freshOrGone e t" for t
      unfolding unregisterDisconnected_def
      by (rule foldl_inv[where I = "freshOrGone e"]) (simp_all add: freshOrGone_unregister that)
    have 1: "freshOrGone e (if ms \<noteq> [] then s\<lparr>tabbableElementsCache := [], lastFocusedIndex := None\<rparr>
                            else s)"
      using assms(1) by (simp add: freshOrGone_same[where t = s])
    show ?thesis
      unfolding handleDomMutations_def Let_def
      by (rule foldl_inv[where I = "freshOrGone e"]) (simp_all add: inner 1)
  qed
  show ?thesis
  proof (cases st)
    case (RegisterCall opts)
    then show ?thesis using assms(1) by (simp add: freshOrGone_register)
  next
    case (UnregisterCall x)
    then show ?thesis using assms(1) by (simp add: freshOrGone_unregister)
  next
    case (AlterGlobalSettingsCall props)
    then have "elements (alterGlobalSettings E s props) = elements s"
      using assms(2) by (intro alterGlobalSettings_elements) simp
    then show ?thesis
      using AlterGlobalSettingsCall assms(1) by (simp add: freshOrGone_same[where t = s])
  next
    case (AddEventListenerCall ty l a)
    then show ?thesis
      using assms(1) by (simp add: freshOrGone_same[where t = s] addEventListener_def Let_def)
  next
    case (RemoveEventListenerCall ty l)
    then show ?thesis
      using assms(1)
      by (simp add: freshOrGone_same[where t = s] removeEventListener_def split: option.splits)
  next
    case (MouseMoveEvent m')
    then show ?thesis using assms(1) m by simp
  next
    case (KeyDownEvent k)
    then show ?thesis using assms(1) by (simp add: freshOrGone_same[where t = s] handleKeyDown_def)
  next
    case (FocusInEvent tg)
    then show ?thesis using assms(1) f by simp
  next
    case (MutationBatch ms)
    then show ?thesis using assms(1) dm by simp
  next
    case (PositionBatch entries)
    then show ?thesis using assms p by simp
  qed
qed

lemma freshOrGone_run:
  assumes "freshOrGone e s" and "window e s stimuli"
  shows "freshOrGone e (run s stimuli)"
  using assms
proof (induction stimuli arbitrary: s)
  case Nil
  then show ?case by (simp add: run_def)
next
  case (Cons x xs)
  obtain E st where x: "x = (E, st)" by force
  have "freshOrGone e (step s (E, st))" using Cons.prems x by (simp add: freshOrGone_step)
  then show ?case using Cons x by (simp add: run_def)
qed

lemma mouseHit_fresh:
  "fresh e s \<Longrightarrow> mouseHit E (updatePointerState E s m) e = hitsZeroRect E (updatePointerState E s m)"
  by (auto simp: fresh_def mouseHit_def hitsZeroRect_def split: option.splits)

lemma mouseHit_hidden: "hiddenFresh e s \<Longrightarrow> \<not> mouseHit E (updatePointerState E s m) e"
  by (auto simp: hiddenFresh_def mouseHit_def split: option.splits)

lemma processEntry_fresh:
  assumes wf: "wellFormed s" and fr: "fresh e s" and tg: "target entry = e"
  shows "isIntersecting entry \<Longrightarrow>
           reported E e (boundingClientRect entry) (state_of (processEntry E s entry))
           \<or> \<not> registered e (state_of (processEntry E s entry))"
    and "\<not> isIntersecting entry \<Longrightarrow> hiddenFresh e (state_of (processEntry E s entry))"
proof -
  obtain stored where l: "map_of (elements s) e = Some stored"
    and st: "isIntersectingWithViewport stored" "originalRect (elementBounds stored) = None"
      "expandedRect (elementBounds stored) = zeroRect"
    using fr by (auto simp: fresh_def split: option.splits)
  have el: "element stored = e" using wf l by (rule wellFormed_lookup)
  show "hiddenFresh e (state_of (processEntry E s entry))" if "\<not> isIntersecting entry"
    using that l st tg
    by (simp add: processEntry_def Let_def hiddenFresh_def map_of_update)
  show "reported E e (boundingClientRect entry) (state_of (processEntry E s entry))
        \<or> \<not> registered e (state_of (processEntry E s entry))" if i: "isIntersecting entry"
  proof -
    let ?r = "boundingClientRect entry"
    let ?I = "\<lambda>t. reported E e ?r t \<or> \<not> registered e t"
    let ?s1 = "s\<lparr>elements := AList.update e stored (elements s)\<rparr>"
    let ?s3 = "updateElementBounds E ?s1 ?r stored"
    have d: "stored\<lparr>isIntersectingWithViewport := True\<rparr> = stored" using st(1) by simp
    have eq: "processEntry E s entry = handleScrollPrefetch E ?s3 stored ?r"
      using l i st(1) tg by (simp add: processEntry_def Let_def d)
    have 3: "?I ?s3"
      using st(1) el
      by (simp add: reported_def updateElementBounds_def Let_def map_of_update setBounds_def)
    have r3: "registered e ?s3" using el by (simp add: updateElementBounds_registered)
    have same: "?I t'" if "?I t" "elements t' = elements t" for t t'
      using that by (simp add: reported_def registered_def)
    have c: "?I (state_of (callCallback E t (Some stored) h))" if "?I t" for t h
      using that el
      by (auto simp: reported_def registered_def callCallback_lookup split: option.splits)
    have "?I (state_of (handleScrollPrefetch E ?s3 stored ?r))"
    proof (rule handleScrollPrefetch_inv[where I = ?I and k = e, OF 3 r3])
      fix t h
      assume "?I t"
      then show "?I (state_of (callCallback E t (Some stored) h))" by (rule c)
    next
      fix t ev
      assume "?I t"
      then show "?I (emit t ev)" by (rule same) simp
    next
      fix t a b
      assume "?I t"
      then show "?I (fst (decideScrollDirection E t a b))" by (rule same) simp
    next
      fix t dir
      assume "?I t"
      then show "?I (fst (decidePredictedScrollPoint E t dir))" by (rule same) simp
    qed
    then show ?thesis by (simp only: eq)
  qed
qed

text \<open>
  Claim C10, as stated, fails: element 7 is registered and, before any position
  batch, the default hit-slop is changed. The forced refresh gives the record its
  real bounds: the record is no longer as \<^verbatim>\<open>register\<close> made it, a pointer move to
  the origin passes the hit test against the zero rectangle and yet does not fire,
  and a pointer move onto the real bounds fires.
\<close>

theorem window_before_observer_update_counterexample:
  "registered 7 refreshed \<and> \<not> fresh 7 refreshed
   \<and> hitsZeroRect exampleEnv (updatePointerState exampleEnv refreshed originMove)
   \<and> callbackInvocations 7 (state_of (handleMouseMove exampleEnv refreshed originMove)) = 0
   \<and> callbackInvocations 7 (state_of (handleMouseMove exampleEnv refreshed onElementMove)) = 1"
  by code_simp

text \<open>
  Claim C10, amended. After a successful \<^verbatim>\<open>register\<close> the record of the element is
  marked as intersecting, has no original rectangle and has the zero rectangle as
  expanded rectangle. Over whatever follows short of a position batch with an entry
  for the element and of a settings update that changes the default hit-slop, the
  record stays so until the element leaves the registry. While it is so, a pointer
  move in which nothing throws invokes the callback exactly when the hit test
  against the zero rectangle succeeds: the element is neither skipped nor tested
  against its real bounds. A position entry for the element that reports it as
  intersecting writes the reported bounds into the record, unless the entry itself
  fires the element; one that reports it as not intersecting leaves the zero
  rectangle and marks the record as not intersecting, and from then on a pointer
  move in which nothing throws skips the element.
  The states are those with a well-formed registry, as is every state the manager
  reaches from its initial state (\<open>wellFormed_initial\<close>, \<open>wellFormed_run\<close>).
\<close>

theorem fresh_record_tested_against_zero_rect:
  assumes "wellFormed s"
  shows "(fst (evaluateRegistrationConditions E0) \<longrightarrow>
            fresh (opt_element opts) (fst (register E0 s0 opts)))
       \<and> (fresh e s \<and> window e s stimuli \<longrightarrow>
            fresh e (run s stimuli) \<or> \<not> registered e (run s stimuli))
       \<and> (fresh e s \<and> quiet E \<longrightarrow>
            callbackInvocations e (state_of (handleMouseMove E s m))
            = callbackInvocations e s + (if hitsZeroRect E (updatePointerState E s m) then 1 else 0)
            \<and> (if hitsZeroRect E (updatePointerState E s m)
               then \<not> registered e (state_of (handleMouseMove E s m))
               else fresh e (state_of (handleMouseMove E s m))))
       \<and> (fresh e s \<and> target entry = e \<and> isIntersecting entry \<longrightarrow>
            reported E e (boundingClientRect entry) (state_of (processEntry E s entry))
            \<or> \<not> registered e (state_of (processEntry E s entry)))
       \<and> (fresh e s \<and> target entry = e \<and> \<not> isIntersecting entry \<longrightarrow>
            hiddenFresh e (state_of (processEntry E s entry)))
       \<and> (hiddenFresh e s \<and> quiet E \<longrightarrow>
            callbackInvocations e (state_of (handleMouseMove E s m)) = callbackInvocations e s
            \<and> hiddenFresh e (state_of (handleMouseMove E s m)))"
proof -
  have 1: "fresh (opt_element opts) (fst (register E0 s0 opts))"
    if "fst (evaluateRegistrationConditions E0)"
    using that by (rule register_fresh)
  have 2: "fresh e (run s stimuli) \<or> \<not> registered e (run s stimuli)"
    if "fresh e s" "window e s stimuli"
  proof -
    have "freshOrGone e s" using assms that(1) by (simp add: freshOrGone_def)
    then have "freshOrGone e (run s stimuli)" using that(2) by (rule freshOrGone_run)
    then show ?thesis by (simp add: freshOrGone_def)
  qed
  have 3: "callbackInvocations e (state_of (handleMouseMove E s m))
            = callbackInvocations e s + (if hitsZeroRect E (updatePointerState E s m) then 1 else 0)
            \<and> (if hitsZeroRect E (updatePointerState E s m)
               then \<not> registered e (state_of (handleMouseMove E s m))
               else fresh e (state_of (handleMouseMove E s m)))"
    if "fresh e s" "quiet E"
    using handleMouseMove_count[OF that(2) assms, where e = e and m = m] mouseHit_fresh[OF that(1), where E = E and m = m] that(1)
    by (simp add: registered_def fresh_def)
  have 6: "callbackInvocations e (state_of (handleMouseMove E s m)) = callbackInvocations e s
            \<and> hiddenFresh e (state_of (handleMouseMove E s m))"
    if "hiddenFresh e s" "quiet E"
    using handleMouseMove_count[OF that(2) assms, where e = e and m = m] mouseHit_hidden[OF that(1), where E = E and m = m] that(1)
    by (simp add: hiddenFresh_def)
  show ?thesis
    using 1 2 3 6 processEntry_fresh[OF assms, where e = e and entry = entry and E = E] by blast
qed

theorem fresh_record_tested_against_zero_rect_witness:
  "wellFormed justRegistered \<and> fresh 7 justRegistered \<and> window 7 justRegistered earlyEvents
   \<and> quiet exampleEnv
   \<and> fresh 7 (run justRegistered earlyEvents)
   \<and> hitsZeroRect exampleEnv (updatePointerState exampleEnv justRegistered originMove)
   \<and> callbackInvocations 7 justRegistered = 0
   \<and> callbackInvocations 7 (state_of (handleMouseMove exampleEnv justRegistered originMove)) = 1
   \<and> \<not> registered 7 (state_of (handleMouseMove exampleEnv justRegistered originMove))
   \<and> target outOfView = 7 \<and> \<not> isIntersecting outOfView
   \<and> hiddenFresh 7 (state_of (processEntry exampleEnv justRegistered outOfView))"
proof -
  have a: "wellFormed justRegistered" by code_simp
  have f: "fresh 7 justRegistered" by code_simp
  have w: "window 7 justRegistered earlyEvents" by code_simp
  have q: "quiet exampleEnv" by (simp add: quiet_def spares_def exampleEnv_def)
  have r: "registered 7 (run justRegistered earlyEvents)" by code_simp
  have h: "hitsZeroRect exampleEnv (updatePointerState exampleEnv justRegistered originMove)"
    by code_simp
  have z: "callbackInvocations 7 justRegistered = 0" by code_simp
  have o: "target outOfView = 7" "\<not> isIntersecting outOfView" by (simp_all add: outOfView_def)
  note T = fresh_record_tested_against_zero_rect[OF a, where e = 7 and E = exampleEnv]
  have 2: "fresh 7 (run justRegistered earlyEvents)"
    using T[where stimuli = earlyEvents] f w r by blast
  have 3: "callbackInvocations 7 (state_of (handleMouseMove exampleEnv justRegistered originMove))
            = callbackInvocations 7 justRegistered + 1
          \<and> \<not> registered 7 (state_of (handleMouseMove exampleEnv justRegistered originMove))"
    using T[where m = originMove] f q h by simp
  have 5: "hiddenFresh 7 (state_of (processEntry exampleEnv justRegistered outOfView))"
    using T[where entry = outOfView] f o by blast
  show ?thesis using a f w q 2 h z 3 o 5 by simp
qed

section \<open>Scroll direction and scroll point are computed once per batch\<close>













section \<open>Global listeners follow the registry\<close>

text \<open>What \<open>listenersScoped\<close> looks at.\<close>

lemma scoped_cong:
  assumes "isSetup s' = isSetup s" and "globalListenersController s' = globalListenersController s"
    and "documentListeners s' = documentListeners s" and "(elements s' = []) = (elements s = [])"
  shows "listenersScoped a s' = listenersScoped a s"
  using assms by (auto simp: listenersScoped_def split: option.splits)

lemma scoped_fields [simp]:
  "listenersScoped a (t\<lparr>trace := x1\<rparr>) = listenersScoped a t"
  "listenersScoped a (t\<lparr>positionObserver := x2\<rparr>) = listenersScoped a t"
  "listenersScoped a (t\<lparr>globalCallbackHits := x3\<rparr>) = listenersScoped a t"
  "listenersScoped a (t\<lparr>globalSettings := x4\<rparr>) = listenersScoped a t"
  "listenersScoped a (t\<lparr>trajectoryPositions := x5\<rparr>) = listenersScoped a t"
  "listenersScoped a (t\<lparr>tabbableElementsCache := x6\<rparr>) = listenersScoped a t"
  "listenersScoped a (t\<lparr>lastFocusedIndex := x7\<rparr>) = listenersScoped a t"
  "listenersScoped a (t\<lparr>lastKeyDown := x8\<rparr>) = listenersScoped a t"
  "listenersScoped a (t\<lparr>scrollDirection := x9\<rparr>) = listenersScoped a t"
  "listenersScoped a (t\<lparr>predictedScrollPoint := x10\<rparr>) = listenersScoped a t"
  "listenersScoped a (t\<lparr>eventListeners := x11\<rparr>) = listenersScoped a t"
  by (rule scoped_cong; simp)+

lemma scoped_map_entry [simp]:
  "listenersScoped a (t\<lparr>elements := AList.map_entry k f (elements t)\<rparr>) = listenersScoped a t"
  by (rule scoped_cong) simp_all

lemma scoped_emit [simp]: "listenersScoped a (emit s ev) = listenersScoped a s"
  by (rule scoped_cong) simp_all

lemma scoped_update:
  "listenersScoped a s \<Longrightarrow> listenersScoped a (s\<lparr>elements := AList.update k d (elements s)\<rparr>)"
  by (auto simp: listenersScoped_def split: option.splits if_splits)

lemma scoped_unregister:
  assumes "listenersScoped a s"
  shows "listenersScoped a (unregister s e r)"
proof (cases "map_of (elements s) e")
  case None
  then show ?thesis using assms by (simp add: unregister_def)
next
  case (Some d)
  let ?s1 = "emit s (ElementUnregisteredEvent d r)"
  let ?s2 = "clearPendingTimeout d ?s1"
  let ?s3 = "?s2\<lparr>positionObserver := unobserve e (positionObserver ?s2)\<rparr>"
  let ?s4 = "?s3\<lparr>elements := AList.delete e (elements ?s3)\<rparr>"
  have f: "isSetup ?s4 = isSetup s" "globalListenersController ?s4 = globalListenersController s"
    "documentListeners ?s4 = documentListeners s"
    by (simp_all add: clearPendingTimeout_def split: option.splits)
  have eq: "unregister s e r =
      (if length (elements ?s4) = 0 \<and> isSetup ?s4 then removeGlobalListeners ?s4 else ?s4)"
    using Some by (simp add: unregister_def Let_def)
  show ?thesis
  proof (cases "isSetup s")
    case True
    then obtain c where c: "globalListenersController s = Some c"
      "documentListeners s = [(mousemove, None), (keydown, Some c), (focusin, Some c)]"
      using assms by (auto simp: listenersScoped_def split: option.splits)
    show ?thesis
      unfolding eq using True c f
      by (auto simp: listenersScoped_def removeGlobalListeners_def abort_def)
  next
    case False
    then show ?thesis
      unfolding eq using assms f by (auto simp: listenersScoped_def)
  qed
qed

lemma scoped_callCallback:
  assumes "listenersScoped a s"
  shows "listenersScoped a (state_of (callCallback E s d h))"
proof (cases d)
  case None
  then show ?thesis using assms by simp
next
  case (Some d0)
  let ?s1 = "fst (updateHitCounters s d0 h)"
  have "listenersScoped a ?s1 = listenersScoped a s"
    by (rule scoped_cong) (simp_all add: updateHitCounters_def Let_def)
  then have 1: "listenersScoped a ?s1" using assms by simp
  show ?thesis
    using Some 1
    by (simp add: callCallback_def Let_def split_beta scoped_unregister)
qed

lemma scoped_weaken: "listenersScoped True s \<Longrightarrow> listenersScoped a s"
  by (auto simp: listenersScoped_def split: option.splits)

lemma scoped_initialize:
  assumes "listenersScoped a s" and "\<not> isSetup s" and "hasWindowAndDocument E"
  shows "listenersScoped True
           ((initializeGlobalListeners E s)\<lparr>elements := AList.update k d (elements s)\<rparr>)"
    and "isSetup (initializeGlobalListeners E s)"
  using assms
  by (auto simp: listenersScoped_def initializeGlobalListeners_def Let_def
      document_addEventListener_def)

lemma scoped_register:
  assumes "listenersScoped a s"
  shows "listenersScoped a (fst (register E s opts))"
proof -
  obtain x y z where rc: "evaluateRegistrationConditions E = (x, y, z)"
    using prod_cases3 by blast
  show ?thesis
  proof (cases "x \<and> \<not> isSetup s \<and> hasWindowAndDocument E")
    case True
    let ?s1 = "initializeGlobalListeners E s"
    let ?d = "newElementData E ?s1 opts"
    let ?s2 = "?s1\<lparr>elements := AList.update (opt_element opts) ?d (elements ?s1)\<rparr>"
    have e: "elements ?s1 = elements s" by simp
    have "listenersScoped True ?s2"
      using scoped_initialize(1)[OF assms, of E "opt_element opts" ?d] True by (simp add: e)
    then have "listenersScoped a ?s2" by (rule scoped_weaken)
    then show ?thesis using rc True by (simp add: register_def Let_def)
  next
    case False
    have i: "initializeGlobalListeners E s = s" if "isSetup s \<or> \<not> hasWindowAndDocument E"
      using that by (auto simp: initializeGlobalListeners_def)
    show ?thesis
      using rc False assms
      by (auto simp: register_def Let_def i scoped_update)
  qed
qed

lemma register_arms:
  assumes "listenersScoped a s" and "\<not> isSetup s" and "hasWindowAndDocument E"
    and "fst (evaluateRegistrationConditions E)"
  shows "isSetup (fst (register E s opts)) \<and> listenersScoped True (fst (register E s opts))"
proof -
  obtain y z where rc: "evaluateRegistrationConditions E = (True, y, z)"
    using assms(4) by (cases "evaluateRegistrationConditions E") auto
  let ?s1 = "initializeGlobalListeners E s"
  let ?d = "newElementData E ?s1 opts"
  let ?s2 = "?s1\<lparr>elements := AList.update (opt_element opts) ?d (elements ?s1)\<rparr>"
  have e: "elements ?s1 = elements s" by simp
  have 1: "listenersScoped True ?s2"
    using scoped_initialize(1)[OF assms(1,2,3), of "opt_element opts" ?d] by (simp add: e)
  show ?thesis
    using rc assms(2) 1 scoped_initialize(2)[OF assms(1,2,3)]
    by (simp add: register_def Let_def)
qed

lemma scoped_updatePointerState [simp]:
  "listenersScoped a (updatePointerState E s m) = listenersScoped a s"
  by (rule scoped_cong) (simp_all add: updatePointerState_def Let_def split: prod.splits)

lemma scoped_handleMouseMove:
  assumes "listenersScoped a s"
  shows "listenersScoped a (state_of (handleMouseMove E s m))"
  by (rule handleMouseMove_inv_any[where I = "listenersScoped a"])
     (simp_all add: scoped_callCallback assms)

lemma scoped_handleDomMutations:
  assumes "listenersScoped a s"
  shows "listenersScoped a (handleDomMutations E s ms)"
proof -
  have inner: "listenersScoped a (unregisterDisconnected E t)" if "listenersScoped a t" for t
    unfolding unregisterDisconnected_def
    by (rule foldl_inv) (simp_all add: scoped_unregister that)
  show ?thesis
    unfolding handleDomMutations_def Let_def
    by (rule foldl_inv) (simp_all add: inner assms)
qed

lemma scoped_handleKeyDown:
  "listenersScoped a s \<Longrightarrow> listenersScoped a (handleKeyDown s k)"
  by (simp add: handleKeyDown_def)

lemma scoped_handleFocusIn:
  assumes "listenersScoped a s"
  shows "listenersScoped a (state_of (handleFocusIn E s t))"
  by (rule handleFocusIn_inv_any[where I = "listenersScoped a"])
     (simp_all add: scoped_callCallback assms)

lemma scoped_decide [simp]:
  "listenersScoped a (fst (decideScrollDirection E s x y)) = listenersScoped a s"
  "listenersScoped a (fst (decidePredictedScrollPoint E s dir)) = listenersScoped a s"
  by (rule scoped_cong;
      simp add: decideScrollDirection_def decidePredictedScrollPoint_def Let_def
        split: option.splits)+

lemma scoped_handlePositionChange:
  assumes "listenersScoped a s"
  shows "listenersScoped a (state_of (handlePositionChange E s entries))"
  by (rule handlePositionChange_inv_any[where I = "listenersScoped a"])
     (simp_all add: scoped_callCallback scoped_update assms)

lemma scoped_forceUpdateAllElementBounds:
  assumes "listenersScoped a s"
  shows "listenersScoped a (forceUpdateAllElementBounds E s)"
  unfolding forceUpdateAllElementBounds_def
  by (rule forEach_inv) (simp_all add: forceUpdateElementBounds_def Let_def scoped_update assms)

lemma scoped_updaters [simp]:
  "listenersScoped a (snd (updateNumericSettings s v k lo hi)) = listenersScoped a s"
  "listenersScoped a (snd (updateBooleanSetting s b kb)) = listenersScoped a s"
  "listenersScoped a (truncateHistory n c s) = listenersScoped a s"
  by (simp_all add: updateNumericSettings_def updateBooleanSetting_def truncateHistory_def
      split: option.splits)

lemma scoped_updateDefaultHitSlop:
  "listenersScoped a s \<Longrightarrow> listenersScoped a (snd (updateDefaultHitSlop E h s))"
  by (simp add: updateDefaultHitSlop_def Let_def scoped_forceUpdateAllElementBounds
      split: option.splits)

lemma scoped_alterGlobalSettings:
  assumes "listenersScoped a s"
  shows "listenersScoped a (alterGlobalSettings E s props)"
  using assms
  by (simp add: alterGlobalSettings_def Let_def split_beta scoped_updateDefaultHitSlop
      split: option.splits)

lemma scoped_step:
  assumes "listenersScoped a s"
  shows "listenersScoped a (step s x)"
proof -
  obtain E st where x: "x = (E, st)" by force
  show ?thesis
    unfolding x using assms
    by (cases st)
       (simp_all add: scoped_register scoped_unregister scoped_alterGlobalSettings
         scoped_handleMouseMove scoped_handleKeyDown scoped_handleFocusIn
         scoped_handleDomMutations scoped_handlePositionChange addEventListener_def
         removeEventListener_def Let_def split: option.splits)
qed

lemma scoped_run: "listenersScoped a s \<Longrightarrow> listenersScoped a (run s stimuli)"
  unfolding run_def by (rule foldl_inv) (simp_all add: scoped_step)

lemma scoped_initial: "listenersScoped False (initialManager E)"
  by (simp add: listenersScoped_def initialManager_def)

text \<open>
  Claim C4, as stated, fails: after the only element is unregistered the registry
  is empty and the mousemove listener is still attached to the document.
\<close>

theorem empty_registry_keeps_mousemove_counterexample:
  "elements emptied = [] \<and> attached mousemove emptied
   \<and> documentListeners emptied = [(mousemove, None)]"
  by code_simp

text \<open>
  Claim C4, amended. In every state the manager reaches from its initial state the
  listeners have the shape \<open>listenersScoped\<close>: the keydown and the focusin listener
  are attached exactly while the manager is set up, both with the signal of the one
  current controller, and the mousemove listener carries no signal. A first
  registration in a browser sets the manager up and attaches all three. Once the
  mousemove listener is attached it stays attached. While the registry is empty the
  manager is not set up: no keydown or focusin listener is attached and there is no
  controller, but the mousemove listener remains.
\<close>

theorem listeners_share_handle_except_mousemove:
  "listenersScoped False (run (initialManager E0) stimuli)
   \<and> (listenersScoped True s \<longrightarrow> listenersScoped True (run s stimuli))
   \<and> (listenersScoped a s \<and> \<not> isSetup s \<and> hasWindowAndDocument E \<and>
        fst (evaluateRegistrationConditions E) \<longrightarrow>
        isSetup (fst (register E s opts)) \<and> listenersScoped True (fst (register E s opts)))
   \<and> (listenersScoped a s \<and> elements s = [] \<longrightarrow>
        \<not> attached keydown s \<and> \<not> attached focusin s \<and> globalListenersController s = None
        \<and> (a \<longrightarrow> attached mousemove s))"
proof -
  have 1: "listenersScoped False (run (initialManager E0) stimuli)"
    using scoped_initial by (rule scoped_run)
  have 4: "\<not> attached keydown s \<and> \<not> attached focusin s \<and> globalListenersController s = None
        \<and> (a \<longrightarrow> attached mousemove s)" if "listenersScoped a s" "elements s = []"
    using that by (auto simp: listenersScoped_def attached_def split: option.splits if_splits)
  show ?thesis
    using 1 scoped_run[of True s stimuli] register_arms[of a s E opts] 4 by blast
qed

theorem listeners_share_handle_except_mousemove_witness:
  "listenersScoped False (initialManager exampleEnv) \<and> \<not> isSetup (initialManager exampleEnv)
   \<and> hasWindowAndDocument exampleEnv \<and> fst (evaluateRegistrationConditions exampleEnv)
   \<and> documentListeners (fst (register exampleEnv (initialManager exampleEnv) keepOptions))
       = [(mousemove, None), (keydown, Some 0), (focusin, Some 0)]
   \<and> listenersScoped True (fst (register exampleEnv (initialManager exampleEnv) keepOptions))
   \<and> listenersScoped True emptied \<and> elements emptied = []
   \<and> \<not> attached keydown emptied \<and> \<not> attached focusin emptied \<and> attached mousemove emptied"
proof -
  have a: "listenersScoped False (initialManager exampleEnv)" by code_simp
  have b: "\<not> isSetup (initialManager exampleEnv)" by code_simp
  have c: "hasWindowAndDocument exampleEnv" by code_simp
  have d: "fst (evaluateRegistrationConditions exampleEnv)" by code_simp
  have e: "documentListeners (fst (register exampleEnv (initialManager exampleEnv) keepOptions))
       = [(mousemove, None), (keydown, Some 0), (focusin, Some 0)]" by code_simp
  have f: "emptied = run (fst (register exampleEnv (initialManager exampleEnv) keepOptions))
             [(exampleEnv, UnregisterCall 7)]"
    by (simp add: emptied_def run_def)
  have g: "elements emptied = []" by code_simp
  note T = listeners_share_handle_except_mousemove
  have r: "listenersScoped True (fst (register exampleEnv (initialManager exampleEnv) keepOptions))"
    using T[where s = "initialManager exampleEnv" and a = False and E = exampleEnv and opts = keepOptions] a b c d
    by blast
  then have h: "listenersScoped True emptied"
    using T[where s = "fst (register exampleEnv (initialManager exampleEnv) keepOptions)"
        and stimuli = "[(exampleEnv, UnregisterCall 7)]"] f
    by simp
  have i: "\<not> attached keydown emptied \<and> \<not> attached focusin emptied \<and> attached mousemove emptied"
    using T[where s = emptied and a = True] h g by blast
  show ?thesis using a b c d e r h g i by simp
qed

section \<open>Settings updates\<close>

subsection \<open>pointerView is kept by everything but settings updates and pointer moves\<close>

lemma pointerView_fields [simp]:
  "pointerView (t\<lparr>trace := x1\<rparr>) = pointerView t"
  "pointerView (t\<lparr>positionObserver := x2\<rparr>) = pointerView t"
  "pointerView (t\<lparr>globalCallbackHits := x3\<rparr>) = pointerView t"
  "pointerView (t\<lparr>elements := x4\<rparr>) = pointerView t"
  "pointerView (t\<lparr>tabbableElementsCache := x6\<rparr>) = pointerView t"
  "pointerView (t\<lparr>lastFocusedIndex := x7\<rparr>) = pointerView t"
  "pointerView (t\<lparr>lastKeyDown := x8\<rparr>) = pointerView t"
  "pointerView (t\<lparr>scrollDirection := x9\<rparr>) = pointerView t"
  "pointerView (t\<lparr>predictedScrollPoint := x10\<rparr>) = pointerView t"
  "pointerView (t\<lparr>eventListeners := x11\<rparr>) = pointerView t"
  by (simp_all add: pointerView_def)

lemma pointerView_forceUpdateAllElementBounds [simp]:
  "pointerView (forceUpdateAllElementBounds E s) = pointerView s"
  unfolding forceUpdateAllElementBounds_def
  by (rule forEach_keeps) (simp add: forceUpdateElementBounds_def Let_def)

lemma pointerView_register [simp]: "pointerView (fst (register E s opts)) = pointerView s"
proof -
  have "pointerView (initializeGlobalListeners E s) = pointerView s"
    by (simp add: initializeGlobalListeners_def Let_def pointerView_def)
  then show ?thesis
    by (simp add: register_def Let_def split: prod.splits)
qed

lemma pointerView_handleDomMutations [simp]:
  "pointerView (handleDomMutations E s ms) = pointerView s"
proof -
  have inner: "pointerView (unregisterDisconnected E t) = pointerView t" for t
    unfolding unregisterDisconnected_def by (rule foldl_keeps) simp
  have "pointerView (foldl (\<lambda>s mutation.
             if mutation_type mutation = childList \<and> removedNodes_length mutation > 0
             then unregisterDisconnected E s else s) t ms) = pointerView t" for t
    by (rule foldl_keeps) (simp add: inner)
  then show ?thesis by (simp add: handleDomMutations_def Let_def)
qed

lemma pointerView_handleFocusIn [simp]:
  "pointerView (state_of (handleFocusIn E s t)) = pointerView s"
  by (rule handleFocusIn_inv_any[where I = "\<lambda>t. pointerView t = pointerView s"]) simp_all

lemma pointerView_decide [simp]:
  "pointerView (fst (decideScrollDirection E s x y)) = pointerView s"
  "pointerView (fst (decidePredictedScrollPoint E s dir)) = pointerView s"
  by (simp_all add: decideScrollDirection_def decidePredictedScrollPoint_def Let_def
      split: option.splits)

lemma pointerView_handlePositionChange [simp]:
  "pointerView (state_of (handlePositionChange E s entries)) = pointerView s"
  by (rule handlePositionChange_inv_any[where I = "\<lambda>t. pointerView t = pointerView s"]) simp_all

lemma pointerView_handleMouseMove:
  "pointerView (state_of (handleMouseMove E s m)) = pointerView (updatePointerState E s m)"
  by (rule handleMouseMove_inv_any
        [where I = "\<lambda>t. pointerView t = pointerView (updatePointerState E s m)"]) simp_all

subsection \<open>The settings after an update\<close>

lemma updateNumericSettings_settings:
  "globalSettings (snd (updateNumericSettings s v k lo hi)) =
     (case v of
        None \<Rightarrow> globalSettings s
      | Some n \<Rightarrow> if n \<noteq> getNumeric (globalSettings s) k
                  then setNumeric k (clampNumber n lo hi) (globalSettings s)
                  else globalSettings s)"
  "fst (updateNumericSettings s v k lo hi) =
     (case v of None \<Rightarrow> False | Some n \<Rightarrow> n \<noteq> getNumeric (globalSettings s) k)"
  "trajectoryPositions (snd (updateNumericSettings s v k lo hi)) = trajectoryPositions s"
  by (simp_all add: updateNumericSettings_def shouldUpdateSetting_def split: option.splits)

lemma updateBooleanSetting_settings:
  "getNumeric (globalSettings (snd (updateBooleanSetting s b kb))) k = getNumeric (globalSettings s) k"
  "trajectoryPositions (snd (updateBooleanSetting s b kb)) = trajectoryPositions s"
  by (cases kb; cases k;
      simp add: updateBooleanSetting_def shouldUpdateSetting_def split: option.splits)+

lemma truncateHistory_settings [simp]:
  "globalSettings (truncateHistory n c s) = globalSettings s"
  by (simp add: truncateHistory_def)

lemma updateDefaultHitSlop_settings:
  "getNumeric (globalSettings (snd (updateDefaultHitSlop E h s))) k = getNumeric (globalSettings s) k"
  "trajectoryPositions (snd (updateDefaultHitSlop E h s)) = trajectoryPositions s"
proof -
  have g: "globalSettings (forceUpdateAllElementBounds E t) = globalSettings t"
          "trajectoryPositions (forceUpdateAllElementBounds E t) = trajectoryPositions t" for t
    using pointerView_forceUpdateAllElementBounds[of E t] by (simp_all add: pointerView_def)
  show "getNumeric (globalSettings (snd (updateDefaultHitSlop E h s))) k = getNumeric (globalSettings s) k"
    by (cases k; simp add: updateDefaultHitSlop_def Let_def g split: option.splits)
  show "trajectoryPositions (snd (updateDefaultHitSlop E h s)) = trajectoryPositions s"
    by (simp add: updateDefaultHitSlop_def Let_def g split: option.splits)
qed

lemma getNumeric_setNumeric:
  "getNumeric (setNumeric k v g) k' = (if k' = k then v else getNumeric g k')"
  by (cases k; cases k'; simp)

lemma getNumeric_hook [simp]:
  "getNumeric (g\<lparr>onAnyCallbackFired := f\<rparr>) k = getNumeric g k"
  by (cases k) simp_all

lemma alterGlobalSettings_stages:
  obtains U1 s2 U3 U4 U5 U6 U7 U8 s9 U10 where
    "U1 = updateNumericSettings s (new_positionHistorySize props) Key_positionHistorySize
            (MIN_POSITION_HISTORY_SIZE E) (MAX_POSITION_HISTORY_SIZE E)"
    "s2 = truncateHistory (positionHistorySize (globalSettings s)) (fst U1) (snd U1)"
    "U3 = updateNumericSettings s2 (new_trajectoryPredictionTime props) Key_trajectoryPredictionTime
            (MIN_TRAJECTORY_PREDICTION_TIME E) (MAX_TRAJECTORY_PREDICTION_TIME E)"
    "U4 = updateNumericSettings (snd U3) (new_scrollMargin props) Key_scrollMargin
            (MIN_SCROLL_MARGIN E) (MAX_SCROLL_MARGIN E)"
    "U5 = updateNumericSettings (snd U4) (new_tabOffset props) Key_tabOffset
            (MIN_TAB_OFFSET E) (MAX_TAB_OFFSET E)"
    "U6 = updateBooleanSetting (snd U5) (new_enableMousePrediction props) Key_enableMousePrediction"
    "U7 = updateBooleanSetting (snd U6) (new_enableScrollPrediction props) Key_enableScrollPrediction"
    "U8 = updateBooleanSetting (snd U7) (new_enableTabPrediction props) Key_enableTabPrediction"
    "s9 = (case new_onAnyCallbackFired props of
             None \<Rightarrow> snd U8
           | Some f \<Rightarrow> (snd U8)\<lparr>globalSettings := (globalSettings (snd U8))\<lparr>onAnyCallbackFired := f\<rparr>\<rparr>)"
    "U10 = updateDefaultHitSlop E (new_defaultHitSlop props) s9"
    "alterGlobalSettings E s props =
       (if fst U1 \<or> fst U3 \<or> fst U5 \<or> fst U6 \<or> fst U8 \<or> fst U7 \<or> fst U10 \<or> fst U4
        then emit (snd U10) (ManagerSettingsChangedEvent (globalSettings (snd U10)))
        else snd U10)"
proof -
  define U1 where "U1 = updateNumericSettings s (new_positionHistorySize props) Key_positionHistorySize
            (MIN_POSITION_HISTORY_SIZE E) (MAX_POSITION_HISTORY_SIZE E)"
  define s2 where "s2 = truncateHistory (positionHistorySize (globalSettings s)) (fst U1) (snd U1)"
  define U3 where "U3 = updateNumericSettings s2 (new_trajectoryPredictionTime props) Key_trajectoryPredictionTime
            (MIN_TRAJECTORY_PREDICTION_TIME E) (MAX_TRAJECTORY_PREDICTION_TIME E)"
  define U4 where "U4 = updateNumericSettings (snd U3) (new_scrollMargin props) Key_scrollMargin
            (MIN_SCROLL_MARGIN E) (MAX_SCROLL_MARGIN E)"
  define U5 where "U5 = updateNumericSettings (snd U4) (new_tabOffset props) Key_tabOffset
            (MIN_TAB_OFFSET E) (MAX_TAB_OFFSET E)"
  define U6 where "U6 = updateBooleanSetting (snd U5) (new_enableMousePrediction props) Key_enableMousePrediction"
  define U7 where "U7 = updateBooleanSetting (snd U6) (new_enableScrollPrediction props) Key_enableScrollPrediction"
  define U8 where "U8 = updateBooleanSetting (snd U7) (new_enableTabPrediction props) Key_enableTabPrediction"
  define s9 where "s9 = (case new_onAnyCallbackFired props of
             None \<Rightarrow> snd U8
           | Some f \<Rightarrow> (snd U8)\<lparr>globalSettings := (globalSettings (snd U8))\<lparr>onAnyCallbackFired := f\<rparr>\<rparr>)"
  define U10 where "U10 = updateDefaultHitSlop E (new_defaultHitSlop props) s9"
  have "alterGlobalSettings E s props =
       (if fst U1 \<or> fst U3 \<or> fst U5 \<or> fst U6 \<or> fst U8 \<or> fst U7 \<or> fst U10 \<or> fst U4
        then emit (snd U10) (ManagerSettingsChangedEvent (globalSettings (snd U10)))
        else snd U10)"
    unfolding alterGlobalSettings_def Let_def split_beta U1_def s2_def U3_def U4_def U5_def
      U6_def U7_def U8_def s9_def U10_def
    by (rule refl)
  then show ?thesis
    using that[OF U1_def s2_def U3_def U4_def U5_def U6_def U7_def U8_def s9_def U10_def] by blast
qed

lemma alterGlobalSettings_numeric:
  "getNumeric (globalSettings (alterGlobalSettings E s props)) k =
     (case incoming props k of
        None \<Rightarrow> getNumeric (globalSettings s) k
      | Some n \<Rightarrow> if n \<noteq> getNumeric (globalSettings s) k
                  then clampNumber n (lowerBound E k) (upperBound E k)
                  else getNumeric (globalSettings s) k)"
proof -
  obtain U1 s2 U3 U4 U5 U6 U7 U8 s9 U10 where st:
    "U1 = updateNumericSettings s (new_positionHistorySize props) Key_positionHistorySize
            (MIN_POSITION_HISTORY_SIZE E) (MAX_POSITION_HISTORY_SIZE E)"
    "s2 = truncateHistory (positionHistorySize (globalSettings s)) (fst U1) (snd U1)"
    "U3 = updateNumericSettings s2 (new_trajectoryPredictionTime props) Key_trajectoryPredictionTime
            (MIN_TRAJECTORY_PREDICTION_TIME E) (MAX_TRAJECTORY_PREDICTION_TIME E)"
    "U4 = updateNumericSettings (snd U3) (new_scrollMargin props) Key_scrollMargin
            (MIN_SCROLL_MARGIN E) (MAX_SCROLL_MARGIN E)"
    "U5 = updateNumericSettings (snd U4) (new_tabOffset props) Key_tabOffset
            (MIN_TAB_OFFSET E) (MAX_TAB_OFFSET E)"
    "U6 = updateBooleanSetting (snd U5) (new_enableMousePrediction props) Key_enableMousePrediction"
    "U7 = updateBooleanSetting (snd U6) (new_enableScrollPrediction props) Key_enableScrollPrediction"
    "U8 = updateBooleanSetting (snd U7) (new_enableTabPrediction props) Key_enableTabPrediction"
    "s9 = (case new_onAnyCallbackFired props of
             None \<Rightarrow> snd U8
           | Some f \<Rightarrow> (snd U8)\<lparr>globalSettings := (globalSettings (snd U8))\<lparr>onAnyCallbackFired := f\<rparr>\<rparr>)"
    "U10 = updateDefaultHitSlop E (new_defaultHitSlop props) s9"
    and eq: "alterGlobalSettings E s props =
       (if fst U1 \<or> fst U3 \<or> fst U5 \<or> fst U6 \<or> fst U8 \<or> fst U7 \<or> fst U10 \<or> fst U4
        then emit (snd U10) (ManagerSettingsChangedEvent (globalSettings (snd U10)))
        else snd U10)"
    by (rule alterGlobalSettings_stages)
  let ?n = "\<lambda>t. getNumeric (globalSettings t) k"
  let ?up = "\<lambda>k' v t. if k = k' then
                 (case v of None \<Rightarrow> ?n t
                  | Some n \<Rightarrow> if n \<noteq> ?n t then clampNumber n (lowerBound E k) (upperBound E k)
                              else ?n t)
               else ?n t"
  have 10: "?n (alterGlobalSettings E s props) = ?n (snd U10)" by (simp add: eq)
  have 9: "?n (snd U10) = ?n s9" unfolding st(10) by (rule updateDefaultHitSlop_settings)
  have 8: "?n s9 = ?n (snd U8)" unfolding st(9) by (simp split: option.splits)
  have 7: "?n (snd U8) = ?n (snd U7)" unfolding st(8) by (rule updateBooleanSetting_settings)
  have 6: "?n (snd U7) = ?n (snd U6)" unfolding st(7) by (rule updateBooleanSetting_settings)
  have 5: "?n (snd U6) = ?n (snd U5)" unfolding st(6) by (rule updateBooleanSetting_settings)
  have 4: "?n (snd U5) = ?up Key_tabOffset (new_tabOffset props) (snd U4)"
    unfolding st(5)
    by (cases k; simp add: updateNumericSettings_settings getNumeric_setNumeric split: option.splits)
  have 3: "?n (snd U4) = ?up Key_scrollMargin (new_scrollMargin props) (snd U3)"
    unfolding st(4)
    by (cases k; simp add: updateNumericSettings_settings getNumeric_setNumeric split: option.splits)
  have 2: "?n (snd U3) = ?up Key_trajectoryPredictionTime (new_trajectoryPredictionTime props) s2"
    unfolding st(3)
    by (cases k; simp add: updateNumericSettings_settings getNumeric_setNumeric split: option.splits)
  have 1: "?n s2 = ?up Key_positionHistorySize (new_positionHistorySize props) s"
    unfolding st(2) st(1)
    by (cases k; simp add: updateNumericSettings_settings getNumeric_setNumeric split: option.splits)
  show ?thesis
    unfolding 10 9 8 7 6 5 using 1 2 3 4
    by (cases k) (simp_all split: option.splits)
qed

section \<open>Numeric settings are clamped\<close>

lemma clampNumber_range:
  "lo \<le> hi \<Longrightarrow> lo \<le> clampNumber n lo hi \<and> clampNumber n lo hi \<le> hi"
  by (simp add: clampNumber_def)

lemma settings_stay_in_range:
  assumes "lowerBound E k \<le> upperBound E k" and "inRange E (globalSettings s) k"
  shows "inRange E (globalSettings (alterGlobalSettings E s props)) k"
  using assms clampNumber_range[OF assms(1)]
  by (simp add: inRange_def alterGlobalSettings_numeric split: option.splits)

text \<open>
  Claim C3. For each of the four numeric settings, whose range is not empty and
  whose stored value lies in the range (as the defaults do, and as
  \<open>settings_stay_in_range\<close> keeps it): when an update carries a value outside the
  range, the value stored afterwards is the lower bound for a value below the range
  and the upper bound for a value above it, it is not the incoming value, and the
  update function reports the write.
\<close>

theorem out_of_range_values_are_clamped:
  assumes "lowerBound E k \<le> upperBound E k" and "inRange E (globalSettings s) k"
    and "incoming props k = Some v" and "v < lowerBound E k \<or> upperBound E k < v"
  shows "getNumeric (globalSettings (alterGlobalSettings E s props)) k
           = (if v < lowerBound E k then lowerBound E k else upperBound E k)
       \<and> getNumeric (globalSettings (alterGlobalSettings E s props)) k \<noteq> v
       \<and> inRange E (globalSettings (alterGlobalSettings E s props)) k
       \<and> fst (updateNumericSettings s (Some v) k (lowerBound E k) (upperBound E k))"
proof -
  have ne: "v \<noteq> getNumeric (globalSettings s) k"
    using assms(2,4) by (auto simp: inRange_def)
  have "getNumeric (globalSettings (alterGlobalSettings E s props)) k
          = clampNumber v (lowerBound E k) (upperBound E k)"
    using assms(3) ne by (simp add: alterGlobalSettings_numeric)
  moreover have "clampNumber v (lowerBound E k) (upperBound E k)
          = (if v < lowerBound E k then lowerBound E k else upperBound E k)"
    using assms(4) by (auto simp: clampNumber_def)
  moreover have "fst (updateNumericSettings s (Some v) k (lowerBound E k) (upperBound E k))"
    using ne by (simp add: updateNumericSettings_settings)
  ultimately show ?thesis
    using assms(1,4) settings_stay_in_range[OF assms(1,2), of props] by auto
qed

theorem out_of_range_values_are_clamped_witness:
  "lowerBound exampleEnv Key_tabOffset \<le> upperBound exampleEnv Key_tabOffset
   \<and> inRange exampleEnv (globalSettings (initialManager exampleEnv)) Key_tabOffset
   \<and> incoming tooLarge Key_tabOffset = Some 100
   \<and> upperBound exampleEnv Key_tabOffset < 100
   \<and> tabOffset (globalSettings (alterGlobalSettings exampleEnv (initialManager exampleEnv) tooLarge)) = 20"
proof -
  have a: "lowerBound exampleEnv Key_tabOffset \<le> upperBound exampleEnv Key_tabOffset" by code_simp
  have b: "inRange exampleEnv (globalSettings (initialManager exampleEnv)) Key_tabOffset" by code_simp
  have c: "incoming tooLarge Key_tabOffset = Some 100" by code_simp
  have d: "upperBound exampleEnv Key_tabOffset < 100" by code_simp
  have u: "MAX_TAB_OFFSET exampleEnv = 20" by code_simp
  have l: "MIN_TAB_OFFSET exampleEnv = 0" by code_simp
  show ?thesis
    using out_of_range_values_are_clamped[OF a b c disjI2[OF d]] a b c d
    by (simp add: u l)
qed

section \<open>The position history is bounded\<close>

lemma alterGlobalSettings_positions:
  "trajectoryPositions (alterGlobalSettings E s props) =
     trajectoryPositions
       (truncateHistory (positionHistorySize (globalSettings s))
          (fst (updateNumericSettings s (new_positionHistorySize props) Key_positionHistorySize
                  (MIN_POSITION_HISTORY_SIZE E) (MAX_POSITION_HISTORY_SIZE E)))
          (snd (updateNumericSettings s (new_positionHistorySize props) Key_positionHistorySize
                  (MIN_POSITION_HISTORY_SIZE E) (MAX_POSITION_HISTORY_SIZE E))))"
proof -
  obtain U1 s2 U3 U4 U5 U6 U7 U8 s9 U10 where st:
    "U1 = updateNumericSettings s (new_positionHistorySize props) Key_positionHistorySize
            (MIN_POSITION_HISTORY_SIZE E) (MAX_POSITION_HISTORY_SIZE E)"
    "s2 = truncateHistory (positionHistorySize (globalSettings s)) (fst U1) (snd U1)"
    "U3 = updateNumericSettings s2 (new_trajectoryPredictionTime props) Key_trajectoryPredictionTime
            (MIN_TRAJECTORY_PREDICTION_TIME E) (MAX_TRAJECTORY_PREDICTION_TIME E)"
    "U4 = updateNumericSettings (snd U3) (new_scrollMargin props) Key_scrollMargin
            (MIN_SCROLL_MARGIN E) (MAX_SCROLL_MARGIN E)"
    "U5 = updateNumericSettings (snd U4) (new_tabOffset props) Key_tabOffset
            (MIN_TAB_OFFSET E) (MAX_TAB_OFFSET E)"
    "U6 = updateBooleanSetting (snd U5) (new_enableMousePrediction props) Key_enableMousePrediction"
    "U7 = updateBooleanSetting (snd U6) (new_enableScrollPrediction props) Key_enableScrollPrediction"
    "U8 = updateBooleanSetting (snd U7) (new_enableTabPrediction props) Key_enableTabPrediction"
    "s9 = (case new_onAnyCallbackFired props of
             None \<Rightarrow> snd U8
           | Some f \<Rightarrow> (snd U8)\<lparr>globalSettings := (globalSettings (snd U8))\<lparr>onAnyCallbackFired := f\<rparr>\<rparr>)"
    "U10 = updateDefaultHitSlop E (new_defaultHitSlop props) s9"
    and eq: "alterGlobalSettings E s props =
       (if fst U1 \<or> fst U3 \<or> fst U5 \<or> fst U6 \<or> fst U8 \<or> fst U7 \<or> fst U10 \<or> fst U4
        then emit (snd U10) (ManagerSettingsChangedEvent (globalSettings (snd U10)))
        else snd U10)"
    by (rule alterGlobalSettings_stages)
  let ?t = trajectoryPositions
  have 10: "?t (alterGlobalSettings E s props) = ?t (snd U10)" by (simp add: eq)
  have 9: "?t (snd U10) = ?t s9" unfolding st(10) by (rule updateDefaultHitSlop_settings)
  have 8: "?t s9 = ?t (snd U8)" unfolding st(9) by (simp split: option.splits)
  have 7: "?t (snd U8) = ?t (snd U7)" unfolding st(8) by (rule updateBooleanSetting_settings)
  have 6: "?t (snd U7) = ?t (snd U6)" unfolding st(7) by (rule updateBooleanSetting_settings)
  have 5: "?t (snd U6) = ?t (snd U5)" unfolding st(6) by (rule updateBooleanSetting_settings)
  have 4: "?t (snd U5) = ?t (snd U4)" unfolding st(5) by (rule updateNumericSettings_settings)
  have 3: "?t (snd U4) = ?t (snd U3)" unfolding st(4) by (rule updateNumericSettings_settings)
  have 2: "?t (snd U3) = ?t s2" unfolding st(3) by (rule updateNumericSettings_settings)
  show ?thesis
    unfolding 10 9 8 7 6 5 4 3 2 unfolding st(2) st(1) by (rule refl)
qed

lemma alterGlobalSettings_history:
  assumes "saneHistoryRange E" and "historyBounded s"
  shows "historyBounded (alterGlobalSettings E s props)"
    and "positions (trajectoryPositions (alterGlobalSettings E s props))
         = drop (length (positions (trajectoryPositions s))
                  - nat (positionHistorySize (globalSettings (alterGlobalSettings E s props))))
             (positions (trajectoryPositions s))"
proof -
  let ?lo = "MIN_POSITION_HISTORY_SIZE E" and ?hi = "MAX_POSITION_HISTORY_SIZE E"
  let ?old = "positionHistorySize (globalSettings s)"
  let ?ps = "positions (trajectoryPositions s)"
  let ?new = "positionHistorySize (globalSettings (alterGlobalSettings E s props))"
  have new: "?new = (case new_positionHistorySize props of
                       None \<Rightarrow> ?old
                     | Some n \<Rightarrow> if n \<noteq> ?old then clampNumber n ?lo ?hi else ?old)"
    using alterGlobalSettings_numeric[of E s props Key_positionHistorySize]
    by (simp split: option.splits)
  have len: "int (length ?ps) \<le> ?old" using assms(2) by (simp add: historyBounded_def)
  have cl: "0 \<le> clampNumber n ?lo ?hi" for n
    using assms(1) by (auto simp: saneHistoryRange_def clampNumber_def)
  have nn: "0 \<le> ?new" using len cl by (auto simp: new split: option.splits)
  have pos: "positions (trajectoryPositions (alterGlobalSettings E s props)) =
      (if ?new < ?old \<and> int (length ?ps) > ?new
       then slice_from (int (length ?ps) - ?new) ?ps else ?ps)"
    by (auto simp: alterGlobalSettings_positions truncateHistory_def updateNumericSettings_settings
        new getNumeric_setNumeric split: option.splits)
  show 2: "positions (trajectoryPositions (alterGlobalSettings E s props))
         = drop (length ?ps - nat ?new) ?ps"
  proof (cases "?new < ?old \<and> int (length ?ps) > ?new")
    case True
    have p: "positions (trajectoryPositions (alterGlobalSettings E s props))
               = slice_from (int (length ?ps) - ?new) ?ps"
      unfolding pos using True by simp
    have "nat (int (length ?ps) - ?new) = length ?ps - nat ?new" using nn by linarith
    moreover have "\<not> int (length ?ps) - ?new < 0" using True by linarith
    ultimately show ?thesis unfolding p by (simp add: slice_from_def)
  next
    case False
    have p: "positions (trajectoryPositions (alterGlobalSettings E s props)) = ?ps"
      unfolding pos by (simp only: False if_False)
    have "int (length ?ps) \<le> ?new" using False len by linarith
    then have "length ?ps - nat ?new = 0" by linarith
    then show ?thesis unfolding p by simp
  qed
  show "historyBounded (alterGlobalSettings E s props)"
    unfolding historyBounded_def 2 using nn by auto
qed

lemma updatePointerState_history:
  assumes "historyBounded s"
  shows "historyBounded (updatePointerState E s m)"
  using assms
  by (auto simp: historyBounded_def updatePointerState_def predictNextMousePosition_def Let_def)

lemma historyBounded_view: "pointerView s' = pointerView s \<Longrightarrow> historyBounded s' = historyBounded s"
  by (simp add: pointerView_def historyBounded_def)

lemma handleMouseMove_history:
  assumes "historyBounded s"
  shows "historyBounded (state_of (handleMouseMove E s m))"
  using updatePointerState_history[OF assms] historyBounded_view pointerView_handleMouseMove
  by blast

lemma step_history:
  assumes "historyBounded s" and "saneHistoryRange (fst x)"
  shows "historyBounded (step s x)"
proof -
  obtain E st where x: "x = (E, st)" by force
  have v: "historyBounded t" if "pointerView t = pointerView s" for t
    using that assms(1) historyBounded_view by blast
  show ?thesis
    unfolding x using assms x
    by (cases st)
       (simp_all add: v alterGlobalSettings_history(1) handleMouseMove_history
         addEventListener_def removeEventListener_def handleKeyDown_def Let_def
         split: option.splits)
qed

lemma run_history:
  assumes "historyBounded s" and "list_all (\<lambda>x. saneHistoryRange (fst x)) stimuli"
  shows "historyBounded (run s stimuli)"
  using assms
  by (induction stimuli arbitrary: s) (simp_all add: run_def step_history)

text \<open>The initial history is empty, so it is bounded when the default size is not negative.\<close>

lemma historyBounded_initial:
  "0 \<le> DEFAULT_POSITION_HISTORY_SIZE E \<Longrightarrow> historyBounded (initialManager E)"
  by (simp add: historyBounded_def initialManager_def)

text \<open>
  Claim C6. A history that is no longer than the configured size stays so over
  every sequence of calls and events. After a settings update the history consists
  of the most recent positions of the old history, as many as the new size allows:
  nothing is dropped when the old history fits, and the oldest positions are
  dropped at once when the size was reduced below the length of the history.
\<close>

theorem history_never_exceeds_size:
  assumes "historyBounded s" and "list_all (\<lambda>x. saneHistoryRange (fst x)) stimuli"
    and "saneHistoryRange E"
  shows "historyBounded (run s stimuli)
       \<and> historyBounded (alterGlobalSettings E s props)
       \<and> positions (trajectoryPositions (alterGlobalSettings E s props))
         = drop (length (positions (trajectoryPositions s))
                  - nat (positionHistorySize (globalSettings (alterGlobalSettings E s props))))
             (positions (trajectoryPositions s))"
  using run_history[OF assms(1,2)] alterGlobalSettings_history[OF assms(3,1)] by simp

theorem history_never_exceeds_size_witness:
  "historyBounded moved \<and> list_all (\<lambda>x. saneHistoryRange (fst x)) nearbyMoves
   \<and> saneHistoryRange exampleEnv
   \<and> positions (trajectoryPositions moved)
       = [\<lparr>xc = 300, yc = 300\<rparr>, \<lparr>xc = 310, yc = 300\<rparr>, \<lparr>xc = 320, yc = 300\<rparr>]
   \<and> positionHistorySize (globalSettings (alterGlobalSettings exampleEnv moved shrinkToTwo)) = 2
   \<and> positions (trajectoryPositions (alterGlobalSettings exampleEnv moved shrinkToTwo))
       = [\<lparr>xc = 310, yc = 300\<rparr>, \<lparr>xc = 320, yc = 300\<rparr>]
   \<and> historyBounded (run moved nearbyMoves)"
proof -
  have a: "historyBounded moved" by code_simp
  have b: "list_all (\<lambda>x. saneHistoryRange (fst x)) nearbyMoves" by code_simp
  have c: "saneHistoryRange exampleEnv" by code_simp
  have d: "positions (trajectoryPositions moved)
       = [\<lparr>xc = 300, yc = 300\<rparr>, \<lparr>xc = 310, yc = 300\<rparr>, \<lparr>xc = 320, yc = 300\<rparr>]" by code_simp
  have e: "positionHistorySize (globalSettings (alterGlobalSettings exampleEnv moved shrinkToTwo)) = 2"
    by code_simp
  show ?thesis
    using history_never_exceeds_size[OF a b c, of shrinkToTwo] a b c d
    by (simp add: e)
qed

section \<open>Repeating an out-of-range update\<close>

text \<open>
  The check at the head of the two update functions compares the incoming value with the stored
  one: an incoming value that equals the stored value is not written and not
  reported.
\<close>

lemma equal_value_is_not_written:
  "updateNumericSettings s (Some (getNumeric (globalSettings s) k)) k lo hi = (False, s)"
  "updateBooleanSetting s (Some (getBoolean (globalSettings s) kb)) kb = (False, s)"
  by (simp_all add: updateNumericSettings_def updateBooleanSetting_def shouldUpdateSetting_def)

text \<open>
  The same holds of a whole call: when every numeric and boolean value it carries is
  absent or equal to the stored one, no hook is passed, and the hit slop is absent or
  normalises to the stored default, the call returns the manager as it was, with no
  event and no refreshed bounds.
\<close>

lemma alterGlobalSettings_same_values:
  assumes n: "\<And>k. incoming props k = None \<or> incoming props k = Some (getNumeric (globalSettings s) k)"
    and m: "new_enableMousePrediction props = None \<or>
            new_enableMousePrediction props = Some (enableMousePrediction (globalSettings s))"
    and sc: "new_enableScrollPrediction props = None \<or>
            new_enableScrollPrediction props = Some (enableScrollPrediction (globalSettings s))"
    and t: "new_enableTabPrediction props = None \<or>
            new_enableTabPrediction props = Some (enableTabPrediction (globalSettings s))"
    and h: "new_onAnyCallbackFired props = None"
    and hs: "case new_defaultHitSlop props of
               None \<Rightarrow> True
             | Some x \<Rightarrow> areRectsEqual E (defaultHitSlop (globalSettings s)) (normalizeHitSlop E x)"
  shows "alterGlobalSettings E s props = s"
proof -
  obtain U1 s2 U3 U4 U5 U6 U7 U8 s9 U10 where st:
    "U1 = updateNumericSettings s (new_positionHistorySize props) Key_positionHistorySize
            (MIN_POSITION_HISTORY_SIZE E) (MAX_POSITION_HISTORY_SIZE E)"
    "s2 = truncateHistory (positionHistorySize (globalSettings s)) (fst U1) (snd U1)"
    "U3 = updateNumericSettings s2 (new_trajectoryPredictionTime props) Key_trajectoryPredictionTime
            (MIN_TRAJECTORY_PREDICTION_TIME E) (MAX_TRAJECTORY_PREDICTION_TIME E)"
    "U4 = updateNumericSettings (snd U3) (new_scrollMargin props) Key_scrollMargin
            (MIN_SCROLL_MARGIN E) (MAX_SCROLL_MARGIN E)"
    "U5 = updateNumericSettings (snd U4) (new_tabOffset props) Key_tabOffset
            (MIN_TAB_OFFSET E) (MAX_TAB_OFFSET E)"
    "U6 = updateBooleanSetting (snd U5) (new_enableMousePrediction props) Key_enableMousePrediction"
    "U7 = updateBooleanSetting (snd U6) (new_enableScrollPrediction props) Key_enableScrollPrediction"
    "U8 = updateBooleanSetting (snd U7) (new_enableTabPrediction props) Key_enableTabPrediction"
    "s9 = (case new_onAnyCallbackFired props of
             None \<Rightarrow> snd U8
           | Some f \<Rightarrow> (snd U8)\<lparr>globalSettings := (globalSettings (snd U8))\<lparr>onAnyCallbackFired := f\<rparr>\<rparr>)"
    "U10 = updateDefaultHitSlop E (new_defaultHitSlop props) s9"
    and eq: "alterGlobalSettings E s props =
       (if fst U1 \<or> fst U3 \<or> fst U5 \<or> fst U6 \<or> fst U8 \<or> fst U7 \<or> fst U10 \<or> fst U4
        then emit (snd U10) (ManagerSettingsChangedEvent (globalSettings (snd U10)))
        else snd U10)"
    by (rule alterGlobalSettings_stages)
  have num: "updateNumericSettings s v k lo hi = (False, s)"
    if "v = None \<or> v = Some (getNumeric (globalSettings s) k)" for v k lo hi
    using that by (auto simp: updateNumericSettings_def shouldUpdateSetting_def)
  have bool: "updateBooleanSetting s v k = (False, s)"
    if "v = None \<or> v = Some (getBoolean (globalSettings s) k)" for v k
    using that by (auto simp: updateBooleanSetting_def shouldUpdateSetting_def)
  have 1: "U1 = (False, s)" unfolding st(1) using n[of Key_positionHistorySize] by (intro num) simp
  have 2: "s2 = s" unfolding st(2) 1 by (simp add: truncateHistory_def)
  have 3: "U3 = (False, s)" unfolding st(3) 2 using n[of Key_trajectoryPredictionTime] by (intro num) simp
  have 4: "U4 = (False, s)" unfolding st(4) 3 using n[of Key_scrollMargin] by (simp add: num)
  have 5: "U5 = (False, s)" unfolding st(5) 4 using n[of Key_tabOffset] by (simp add: num)
  have 6: "U6 = (False, s)" unfolding st(6) 5 using m by (simp add: bool)
  have 7: "U7 = (False, s)" unfolding st(7) 6 using sc by (simp add: bool)
  have 8: "U8 = (False, s)" unfolding st(8) 7 using t by (simp add: bool)
  have 9: "s9 = s" unfolding st(9) 8 using h by simp
  have 10: "U10 = (False, s)"
    unfolding st(10) 9 using hs by (auto simp: updateDefaultHitSlop_def Let_def split: option.splits)
  show ?thesis unfolding eq 1 3 4 5 6 7 8 10 by simp
qed

text \<open>
  The comparison comes before the clamping. An incoming value above the range
  differs from the stored upper bound, so it is written again and reported as a
  change, although the state stays the same.
\<close>

lemma setNumeric_same: "setNumeric k (getNumeric g k) g = g"
  by (cases k) simp_all

lemma clamped_value_is_written_again:
  assumes "lo \<le> hi" and "hi < v" and "getNumeric (globalSettings s) k = hi"
  shows "updateNumericSettings s (Some v) k lo hi = (True, s)"
proof -
  have c: "clampNumber v lo hi = hi"
    using assms by (simp add: clampNumber_def)
  have "setNumeric k hi (globalSettings s) = globalSettings s"
    using setNumeric_same[of k "globalSettings s"] assms(3) by simp
  then show ?thesis
    using assms(2,3) c
    by (simp add: updateNumericSettings_def shouldUpdateSetting_def)
qed

text \<open>
  Claim C2 at a failing input: \<open>alterGlobalSettings({tabOffset: 100})\<close>, twice, with the
  upper bound 20 and one subscriber of \<^verbatim>\<open>managerSettingsChanged\<close>. The first call
  stores 20 and notifies the subscriber. The second call leaves the settings as
  they are and notifies the subscriber again.
\<close>

theorem repeated_out_of_range_update_emits_again:
  "tabOffset (globalSettings appliedOnce) = 20
   \<and> globalSettings (alterGlobalSettings exampleEnv appliedOnce tooLarge) = globalSettings appliedOnce
   \<and> trace appliedOnce
       = [ListenerInvoked 2 (ManagerSettingsChangedEvent (globalSettings appliedOnce))]
   \<and> trace (alterGlobalSettings exampleEnv appliedOnce tooLarge)
       = [ListenerInvoked 2 (ManagerSettingsChangedEvent (globalSettings appliedOnce)),
          ListenerInvoked 2 (ManagerSettingsChangedEvent (globalSettings appliedOnce))]"
  by code_simp

end
